(* ===== verification/Prelude.thy ===== *)
theory Prelude
  imports Main "HOL-Library.Word"
begin

text \<open>
  Shared material of the development: the collections of rules the component theories fill,
  the sum-typed result of a Python function that may raise, and generic lemmas on lists
  (lookup by key, update by key, sorting by a key) that the table model and the queries share.
\<close>

section \<open>Rule collections\<close>

named_theorems io_simps \<open>unfolding rules of the effect combinators\<close>
named_theorems triple_intros \<open>rules that decompose a triple along the program text\<close>
named_theorems field_intros \<open>rules that show an operation leaves a field of the world alone\<close>
named_theorems keeps_intros \<open>rules that show an operation keeps an invariant of the world\<close>
named_theorems reads_intros \<open>rules that show an operation writes nothing\<close>

section \<open>Results: a value or an exception\<close>

text \<open>A pure Python helper returns a value (\<open>Inr\<close>) or raises (\<open>Inl\<close>).\<close>

definition bindR :: "'e + 'a \<Rightarrow> ('a \<Rightarrow> 'e + 'b) \<Rightarrow> 'e + 'b" where
  "bindR r f = (case r of Inl e \<Rightarrow> Inl e | Inr x \<Rightarrow> f x)"

lemma bindR_simps [simp]:
  "bindR (Inl e) f = Inl e"
  "bindR (Inr x) f = f x"
  by (simp_all add: bindR_def)

lemma bindR_eq_Inr: "bindR r f = Inr y \<longleftrightarrow> (\<exists>x. r = Inr x \<and> f x = Inr y)"
  by (cases r) simp_all

lemma bindR_eq_Inl: "bindR r f = Inl e \<longleftrightarrow> r = Inl e \<or> (\<exists>x. r = Inr x \<and> f x = Inl e)"
  by (cases r) simp_all

text \<open>A comprehension over a list whose element expression may raise.\<close>

fun mapR :: "('a \<Rightarrow> 'e + 'b) \<Rightarrow> 'a list \<Rightarrow> 'e + 'b list" where
  "mapR f [] = Inr []"
| "mapR f (x # xs) = bindR (f x) (\<lambda>y. bindR (mapR f xs) (\<lambda>ys. Inr (y # ys)))"

lemma mapR_Inr: "(\<And>x. x \<in> set xs \<Longrightarrow> f x = Inr (g x)) \<Longrightarrow> mapR f xs = Inr (map g xs)"
  by (induction xs) simp_all

text \<open>A loop over a list whose body may raise.\<close>

fun foldR :: "('a \<Rightarrow> 's \<Rightarrow> 'e + 's) \<Rightarrow> 'a list \<Rightarrow> 's \<Rightarrow> 'e + 's" where
  "foldR f [] s = Inr s"
| "foldR f (x # xs) s = bindR (f x s) (foldR f xs)"

lemma foldR_append: "foldR f (xs @ ys) s = bindR (foldR f xs s) (foldR f ys)"
  by (induction xs arbitrary: s) (simp_all add: bindR_def split: sum.splits)

section \<open>Rows found by key\<close>

definition lookup_by :: "('r \<Rightarrow> 'k) \<Rightarrow> 'k \<Rightarrow> 'r list \<Rightarrow> 'r option" where
  "lookup_by key k rows = List.find (\<lambda>r. key r = k) rows"

definition update_by :: "('r \<Rightarrow> 'k) \<Rightarrow> 'r \<Rightarrow> 'r list \<Rightarrow> 'r list" where
  "update_by key r rows = map (\<lambda>r'. if key r' = key r then r else r') rows"

lemma lookup_by_Nil [simp]: "lookup_by key k [] = None"
  by (simp add: lookup_by_def)

lemma lookup_by_Cons [simp]:
  "lookup_by key k (r # rows) = (if key r = k then Some r else lookup_by key k rows)"
  by (simp add: lookup_by_def)

lemma lookup_by_Some: "lookup_by key k rows = Some r \<Longrightarrow> r \<in> set rows \<and> key r = k"
  by (induction rows) (auto split: if_splits)

lemma lookup_by_None: "lookup_by key k rows = None \<longleftrightarrow> k \<notin> key ` set rows"
  by (induction rows) auto

lemma lookup_by_ex: "k \<in> key ` set rows \<Longrightarrow> \<exists>r. lookup_by key k rows = Some r"
  using lookup_by_None [of key k rows] by (cases "lookup_by key k rows") auto

lemma lookup_by_append:
  "lookup_by key k (xs @ ys) =
     (case lookup_by key k xs of None \<Rightarrow> lookup_by key k ys | Some r \<Rightarrow> Some r)"
  by (induction xs) auto

lemma lookup_by_in_distinct:
  "distinct (map key rows) \<Longrightarrow> r \<in> set rows \<Longrightarrow> lookup_by key (key r) rows = Some r"
  by (induction rows) (auto simp: image_iff)

lemma map_key_update_by [simp]: "map key (update_by key r rows) = map key rows"
  by (simp add: update_by_def o_def)

lemma length_update_by [simp]: "length (update_by key r rows) = length rows"
  by (simp add: update_by_def)

lemma set_update_by_subset: "set (update_by key r rows) \<subseteq> insert r (set rows)"
  by (auto simp: update_by_def)

lemma lookup_by_update_by:
  "lookup_by key k (update_by key r rows) =
     (if k = key r \<and> k \<in> key ` set rows then Some r else lookup_by key k rows)"
  by (induction rows) (auto simp: update_by_def)

lemma update_by_other: "key r \<notin> key ` set rows \<Longrightarrow> update_by key r rows = rows"
  by (induction rows) (auto simp: update_by_def)

lemma set_update_by_distinct:
  assumes "distinct (map key rows)" and "key r \<in> key ` set rows"
  shows "set (update_by key r rows) = insert r {r' \<in> set rows. key r' \<noteq> key r}"
  using assms by (auto simp: update_by_def)

section \<open>Sorting and limiting\<close>

text \<open>
  An \<open>ORDER BY key LIMIT n\<close> over the rows that satisfy a predicate: the list model of the
  queries of the source.
\<close>

definition select_ordered :: "('r \<Rightarrow> 'k::linorder) \<Rightarrow> nat \<Rightarrow> ('r \<Rightarrow> bool) \<Rightarrow> 'r list \<Rightarrow> 'r list" where
  "select_ordered key n p rows = take n (sort_key key (filter p rows))"

lemma select_ordered_sorted: "sorted (map key (select_ordered key n p rows))"
  by (simp add: select_ordered_def take_map [symmetric])

lemma select_ordered_sat: "r \<in> set (select_ordered key n p rows) \<Longrightarrow> r \<in> set rows \<and> p r"
  by (auto simp: select_ordered_def dest: in_set_takeD)

lemma select_ordered_length: "length (select_ordered key n p rows) \<le> n"
  by (simp add: select_ordered_def)

lemma select_ordered_length_eq:
  "length (select_ordered key n p rows) = min n (length (filter p rows))"
  by (simp add: select_ordered_def min.commute)

lemma select_ordered_distinct:
  assumes "distinct (map f rows)"
  shows "distinct (map f (select_ordered key n p rows))"
proof -
  have "distinct (map f (filter p rows))"
    using assms by (rule distinct_map_filter)
  then have "distinct (map f (sort_key key (filter p rows)))"
    by (simp add: distinct_map)
  then show ?thesis
    by (simp add: select_ordered_def take_map [symmetric])
qed

text \<open>A row that satisfies the predicate and is left out sorts after every selected row.\<close>

lemma select_ordered_least:
  assumes "r \<in> set rows" and "p r" and "r \<notin> set (select_ordered key n p rows)"
    and "s \<in> set (select_ordered key n p rows)"
  shows "key s \<le> key r"
proof -
  let ?xs = "sort_key key (filter p rows)"
  have "r \<in> set ?xs" using assms(1,2) by simp
  then have "r \<in> set (drop n ?xs)"
    using assms(3) by (metis select_ordered_def append_take_drop_id set_append Un_iff)
  moreover have "sorted (map key (take n ?xs @ drop n ?xs))"
    by (simp del: take_map drop_map)
  ultimately show ?thesis
    using assms(4) by (auto simp: select_ordered_def sorted_append simp del: append_take_drop_id)
qed

text \<open>When the limit is not reached, every row that satisfies the predicate is selected.\<close>

lemma select_ordered_all:
  assumes "length (select_ordered key n p rows) < n" and "r \<in> set rows" and "p r"
  shows "r \<in> set (select_ordered key n p rows)"
  using assms by (simp add: select_ordered_def)

section \<open>Decimal numerals\<close>

text \<open>Python's \<open>str\<close> of an integer, used in f-strings.\<close>

fun show_nat :: "nat \<Rightarrow> string" where
  "show_nat n =
     (if n < 10 then [char_of (48 + n)] else show_nat (n div 10) @ [char_of (48 + n mod 10)])"

declare show_nat.simps [simp del]

definition show_int :: "int \<Rightarrow> string" where
  "show_int i = (if i < 0 then ''-'' @ show_nat (nat (- i)) else show_nat (nat i))"

end
