(* ===== verification/Py_Values.thy ===== *)
theory Py_Values
  imports Prelude
begin

text \<open>
  The Python values the service's run-time checks look at: the dynamically typed argument
  (\<open>pyval\<close>), binary64 floats, timezone-aware datetimes, timedeltas, and the exceptions the
  program raises or lets through.

  A finite float is the integer multiple of \<open>2^-1074\<close> it denotes (\<open>Fin N\<close> is
  \<open>N * 2^-1074\<close>), so comparisons and scaling by powers of two are integer operations and
  rounding is rounding to 53 significant bits. A datetime is its wall clock in microseconds
  since 0001-01-01T00:00 and its offset; a normalized (UTC) datetime, and a column of type
  timestamp with time zone, is an \<open>instant\<close>: microseconds since the same origin in UTC.
  A Python string is a HOL string whose characters are the code points U+0000 to U+00FF
  (the range of an HTTP header value).
\<close>

type_synonym instant = int
type_synonym uuid = "128 word"

section \<open>Exceptions\<close>

text \<open>
  One constructor per exception class. The database errors carry what the program can see
  of them: the constraint name (\<open>error.orig.diag.constraint_name\<close>) or the column.
\<close>

datatype exc =
    ValueError string
  | TypeError string
  | OverflowError string
  | RuntimeError string
  | RecursionError
  | IntegrityError string
  | DataError string
  | OperationalError
  | StaleDataError
  | MultipleResultsFound
  | InvalidRequestError
  | EventWebhookEndpointNotFoundError
  | WebhookEventIdempotencyConflictError
  | WebhookIdempotencyKeyValidationError string
  | WebhookEventNotFoundError
  | WebhookEndpointNotFoundError
  | InactiveWebhookEndpointError
  | WebhookTimeoutError string
  | WebhookTransportError string
  | HttpClientError string
  | WebhookDeliveryJobNotFoundError
  | WebhookDeliveryJobNotProcessingError
  | WebhookReplayEventNotFoundError
  | WebhookReplayEndpointNotFoundError
  | WebhookReplayEndpointInactiveError
  | WebhookReplayDeliveryJobNotFoundError
  | WebhookReplayDeliveryJobNotReplayableError
  | WebhookDeliveryJobEventNotFoundError
  | WebhookDeliveryJobMissingError
  | WebhookDeliveryJobStatusValidationError
  | WebhookDeliveryJobLimitValidationError
  | WebhookDeliveryJobCursorValidationError
  | AttributeError string
  | ResponseValidationError
  | HTTPException nat string

fun is_sqlalchemy_error :: "exc \<Rightarrow> bool" where
  "is_sqlalchemy_error (IntegrityError _) = True"
| "is_sqlalchemy_error (DataError _) = True"
| "is_sqlalchemy_error OperationalError = True"
| "is_sqlalchemy_error StaleDataError = True"
| "is_sqlalchemy_error MultipleResultsFound = True"
| "is_sqlalchemy_error InvalidRequestError = True"
| "is_sqlalchemy_error _ = False"

section \<open>Floats\<close>

datatype pyfloat = FNan | FInf | FNegInf | Fin int

definition float_unit :: int where
  "float_unit = 2 ^ 1074"

fun bit_length :: "nat \<Rightarrow> nat" where
  "bit_length n = (if n = 0 then 0 else Suc (bit_length (n div 2)))"

declare bit_length.simps [simp del]

text \<open>Integer division rounding to nearest, ties to even (the divisor is positive).\<close>

definition round_half_even :: "int \<Rightarrow> int \<Rightarrow> int" where
  "round_half_even n d =
     (let q = n div d; r = n mod d in
      if 2 * r < d then q else if d < 2 * r then q + 1 else if even q then q else q + 1)"

text \<open>Rounding to 53 significant bits, ties to even.\<close>

definition round53 :: "int \<Rightarrow> int" where
  "round53 n =
     (let k = bit_length (nat \<bar>n\<bar>) in
      if k \<le> 53 then n
      else sgn n * (round_half_even \<bar>n\<bar> (2 ^ (k - 53)) * 2 ^ (k - 53)))"

definition float_limit :: int where
  "float_limit = 2 ^ 1024 * float_unit"

text \<open>The values of \<open>Fin\<close> that are binary64 floats.\<close>

definition binary64 :: "int \<Rightarrow> bool" where
  "binary64 n \<longleftrightarrow> round53 n = n \<and> \<bar>n\<bar> < float_limit"

text \<open>\<open>float(n)\<close> of an int: rounds, and raises when the result is too large.\<close>

definition float_of_int :: "int \<Rightarrow> exc + pyfloat" where
  "float_of_int n =
     (if \<bar>round53 n\<bar> \<ge> 2 ^ 1024 then Inl (OverflowError ''int too large to convert to float'')
      else Inr (Fin (round53 n * float_unit)))"

text \<open>
  \<open>math.ldexp(x, n)\<close> with \<open>n \<ge> 0\<close>: scaling up is exact, and a result past the largest
  float raises.
\<close>

definition ldexp :: "int \<Rightarrow> nat \<Rightarrow> exc + int" where
  "ldexp x n =
     (if \<bar>x * 2 ^ n\<bar> \<ge> float_limit then Inl (OverflowError ''math range error'')
      else Inr (x * 2 ^ n))"

section \<open>Timedeltas and datetimes\<close>

definition day_us :: int where
  "day_us = 86400 * 1000000"

text \<open>The first instant past 9999-12-31T23:59:59.999999.\<close>

definition datetime_limit :: int where
  "datetime_limit = 3652059 * day_us"

definition timedelta_us :: "int \<Rightarrow> exc + int" where
  "timedelta_us us =
     (if \<bar>us div day_us\<bar> > 999999999 then Inl (OverflowError ''days out of range'') else Inr us)"

text \<open>
  \<open>timedelta(seconds=x)\<close>: the integral seconds exactly, the fractional part through one
  float multiplication by one million, then to the nearest microsecond, ties to even.
\<close>

definition seconds_us :: "int \<Rightarrow> int" where
  "seconds_us x =
     sgn x * ((\<bar>x\<bar> div float_unit) * 1000000
              + round_half_even (round53 (1000000 * (\<bar>x\<bar> mod float_unit))) float_unit)"

fun timedelta_seconds :: "pyfloat \<Rightarrow> exc + int" where
  "timedelta_seconds FNan = Inl (ValueError ''cannot convert float NaN to integer'')"
| "timedelta_seconds FInf = Inl (OverflowError ''cannot convert float infinity to integer'')"
| "timedelta_seconds FNegInf = Inl (OverflowError ''cannot convert float infinity to integer'')"
| "timedelta_seconds (Fin x) = timedelta_us (seconds_us x)"

datatype pytz = Naive | Tz_without_offset | Tz_offset int

record pydatetime =
  dt_local :: int
  dt_tz :: pytz

definition datetime_in_range :: "int \<Rightarrow> bool" where
  "datetime_in_range t \<longleftrightarrow> 0 \<le> t \<and> t < datetime_limit"

definition utc_datetime :: "instant \<Rightarrow> pydatetime" where
  "utc_datetime t = \<lparr>dt_local = t, dt_tz = Tz_offset 0\<rparr>"

text \<open>\<open>datetime + timedelta\<close> and \<open>datetime - timedelta\<close> on a UTC datetime.\<close>

definition instant_add :: "instant \<Rightarrow> int \<Rightarrow> exc + instant" where
  "instant_add t us =
     (if datetime_in_range (t + us) then Inr (t + us)
      else Inl (OverflowError ''date value out of range''))"

text \<open>\<open>astimezone(UTC)\<close> of an aware datetime with the given offset.\<close>

definition astimezone_utc :: "pydatetime \<Rightarrow> int \<Rightarrow> exc + instant" where
  "astimezone_utc d off = instant_add (dt_local d) (- off)"

section \<open>Dynamically typed arguments\<close>

datatype pyval =
    VNone
  | VBool bool
  | VInt int
  | VFloat pyfloat
  | VStr string
  | VDatetime pydatetime
  | VOther

text \<open>
  The check-and-normalize step every service repeats: not a datetime, no tzinfo, or a tzinfo
  without an offset is a ValueError with the service's message; otherwise the value in UTC.
\<close>

definition normalize_aware :: "string \<Rightarrow> pyval \<Rightarrow> exc + instant" where
  "normalize_aware msg v =
     (case v of
        VDatetime d \<Rightarrow>
          (case dt_tz d of
             Tz_offset off \<Rightarrow> astimezone_utc d off
           | _ \<Rightarrow> Inl (ValueError msg))
      | _ \<Rightarrow> Inl (ValueError msg))"

text \<open>An integer of at least 1 that is not a Boolean.\<close>

definition positive_int :: "string \<Rightarrow> pyval \<Rightarrow> exc + int" where
  "positive_int msg v =
     (case v of
        VInt n \<Rightarrow> if n < 1 then Inl (ValueError msg) else Inr n
      | _ \<Rightarrow> Inl (ValueError msg))"

section \<open>Results whose only exception is ValueError\<close>

definition only_value_errors :: "exc + 'a \<Rightarrow> bool" where
  "only_value_errors r \<longleftrightarrow> (\<forall>e. r = Inl e \<longrightarrow> (\<exists>msg. e = ValueError msg))"

named_theorems value_errors_intros \<open>rules for only_value_errors\<close>

lemma only_value_errors_Inr [value_errors_intros]: "only_value_errors (Inr x)"
  by (simp add: only_value_errors_def)

lemma only_value_errors_Inl [value_errors_intros]: "only_value_errors (Inl (ValueError msg))"
  by (simp add: only_value_errors_def)

lemma only_value_errors_bindR [value_errors_intros]:
  "only_value_errors r \<Longrightarrow> (\<And>x. r = Inr x \<Longrightarrow> only_value_errors (f x)) \<Longrightarrow> only_value_errors (bindR r f)"
  by (cases r) (auto simp: only_value_errors_def)

lemma only_value_errors_if [value_errors_intros]:
  "(b \<Longrightarrow> only_value_errors r) \<Longrightarrow> (\<not> b \<Longrightarrow> only_value_errors r') \<Longrightarrow>
   only_value_errors (if b then r else r')"
  by simp

lemma only_value_errors_prod [value_errors_intros]:
  "(\<And>x y. p = (x, y) \<Longrightarrow> only_value_errors (f x y)) \<Longrightarrow> only_value_errors (case p of (x, y) \<Rightarrow> f x y)"
  by (cases p) simp

lemma only_value_errors_positive_int [value_errors_intros]: "only_value_errors (positive_int msg v)"
  by (auto simp: only_value_errors_def positive_int_def split: pyval.splits)

section \<open>Facts\<close>

lemma positive_int_Inr: "positive_int msg v = Inr n \<longleftrightarrow> v = VInt n \<and> 1 \<le> n"
  by (auto simp: positive_int_def split: pyval.splits)

lemma positive_int_cases:
  "positive_int msg v = Inl (ValueError msg) \<or> (\<exists>n. positive_int msg v = Inr n)"
  by (auto simp: positive_int_def split: pyval.splits)

lemma normalize_aware_range: "normalize_aware msg v = Inr t \<Longrightarrow> datetime_in_range t"
  by (auto simp: normalize_aware_def astimezone_utc_def instant_add_def
      split: pyval.splits pytz.splits if_splits)

lemma normalize_aware_utc [simp]:
  "datetime_in_range t \<Longrightarrow> normalize_aware msg (VDatetime (utc_datetime t)) = Inr t"
  by (simp add: normalize_aware_def utc_datetime_def astimezone_utc_def instant_add_def)

lemma float_unit_pos [simp]: "0 < float_unit"
  by (simp add: float_unit_def)

lemma float_unit_nonzero [simp]: "float_unit \<noteq> 0"
  using float_unit_pos by (rule less_imp_neq [symmetric])

lemma round_half_even_exact: "0 < d \<Longrightarrow> d dvd n \<Longrightarrow> round_half_even n d = n div d"
  by (auto simp: round_half_even_def)

lemma bit_length_le: "bit_length n \<le> k \<longleftrightarrow> n < 2 ^ k"
proof (induction k arbitrary: n)
  case 0
  show ?case by (simp add: bit_length.simps [of n])
next
  case (Suc k)
  show ?case
  proof (cases "n = 0")
    case False
    then have "bit_length n \<le> Suc k \<longleftrightarrow> bit_length (n div 2) \<le> k"
      by (simp add: bit_length.simps [of n])
    also have "\<dots> \<longleftrightarrow> n div 2 < 2 ^ k" by (rule Suc.IH)
    also have "\<dots> \<longleftrightarrow> n < 2 ^ Suc k" by auto
    finally show ?thesis .
  qed (simp add: bit_length.simps)
qed

lemma bit_length_mult: "0 < n \<Longrightarrow> bit_length (n * 2 ^ k) = bit_length n + k"
proof (induction k)
  case (Suc k)
  then show ?case
    by (subst bit_length.simps) (simp add: mult.assoc mult.commute [of 2])
qed simp

section \<open>Exactness of the float operations\<close>

lemma round_half_even_scale:
  assumes "0 < c"
  shows "round_half_even (a * c) (b * c) = round_half_even a b"
proof -
  have "(a * c) mod (b * c) = (a mod b) * c" by simp
  moreover have "2 * ((a mod b) * c) < b * c \<longleftrightarrow> 2 * (a mod b) < b"
    using assms by (simp flip: mult.assoc)
  moreover have "b * c < 2 * ((a mod b) * c) \<longleftrightarrow> b < 2 * (a mod b)"
    using assms by (simp flip: mult.assoc)
  ultimately show ?thesis
    using assms by (simp add: round_half_even_def Let_def)
qed

lemma round53_exactI: "2 ^ (bit_length (nat \<bar>n\<bar>) - 53) dvd n \<Longrightarrow> round53 n = n"
  by (simp add: round53_def Let_def round_half_even_exact sgn_mult_abs)

lemma round53_small: "\<bar>n\<bar> < 2 ^ 53 \<Longrightarrow> round53 n = n"
proof -
  assume "\<bar>n\<bar> < 2 ^ 53"
  then have "bit_length (nat \<bar>n\<bar>) \<le> 53" by (simp add: bit_length_le nat_less_iff)
  then show ?thesis by (simp add: round53_def Let_def)
qed

lemma round53_0 [simp]: "round53 0 = 0"
  by (rule round53_small) simp

lemma bit_length_scale:
  "n \<noteq> 0 \<Longrightarrow> bit_length (nat \<bar>n * 2 ^ j\<bar>) = bit_length (nat \<bar>n\<bar>) + j"
  using bit_length_mult [of "nat \<bar>n\<bar>" j] by (simp add: abs_mult nat_mult_distrib nat_power_eq)

lemma round53_scale: "round53 (n * 2 ^ j) = round53 n * 2 ^ j"
proof (cases "n = 0 \<or> bit_length (nat \<bar>n\<bar>) \<le> 53")
  case True
  show ?thesis
  proof (cases "n = 0")
    case False
    with True have k: "bit_length (nat \<bar>n\<bar>) \<le> 53" by simp
    have "(2::int) ^ (bit_length (nat \<bar>n * 2 ^ j\<bar>) - 53) dvd 2 ^ j"
      using k by (intro le_imp_power_dvd) (simp add: bit_length_scale [OF False])
    then have "round53 (n * 2 ^ j) = n * 2 ^ j"
      by (intro round53_exactI dvd_mult)
    moreover have "round53 n = n" using k by (simp add: round53_def)
    ultimately show ?thesis by simp
  qed simp
next
  case False
  define s where "s = bit_length (nat \<bar>n\<bar>) - 53"
  have k: "bit_length (nat \<bar>n * 2 ^ j\<bar>) - 53 = s + j"
    using False bit_length_scale [of n j] by (simp add: s_def)
  have "round_half_even \<bar>n * 2 ^ j\<bar> (2 ^ (s + j)) = round_half_even (\<bar>n\<bar> * 2 ^ j) (2 ^ s * 2 ^ j)"
    by (simp add: abs_mult power_add)
  also have "\<dots> = round_half_even \<bar>n\<bar> (2 ^ s)" by (rule round_half_even_scale) simp
  finally show ?thesis
    using False bit_length_scale [of n j] k
    by (simp add: round53_def Let_def s_def [symmetric] sgn_mult power_add mult.assoc)
qed

lemma round_half_even_bounds:
  "n div d \<le> round_half_even n d \<and> round_half_even n d \<le> n div d + 1"
  by (simp add: round_half_even_def Let_def)

lemma round53_le: "\<bar>n\<bar> \<le> 2 ^ 53 \<Longrightarrow> round53 n = n"
proof -
  assume le: "\<bar>n\<bar> \<le> 2 ^ 53"
  have "round53 (1 * 2 ^ 53) = 2 ^ 53" and "round53 (- 1 * 2 ^ 53) = - (2 ^ 53)"
    by (simp_all only: round53_scale) (simp_all add: round53_small)
  moreover have "n = 2 ^ 53 \<or> n = - (2 ^ 53) \<or> \<bar>n\<bar> < 2 ^ 53" using le by linarith
  ultimately show ?thesis by (auto intro: round53_small)
qed

lemma int_div_less: "(0::int) < d \<Longrightarrow> a < k * d \<Longrightarrow> a div d < k"
proof (rule ccontr)
  assume d: "0 < d" and a: "a < k * d" and "\<not> a div d < k"
  then have "k * d \<le> a div d * d" by (intro mult_right_mono) auto
  also have "\<dots> \<le> a" using d pos_mod_sign [of d a] div_mult_mod_eq [of a d] by linarith
  finally show False using a by simp
qed

lemma round53_idem: "round53 (round53 n) = round53 n"
proof (cases "bit_length (nat \<bar>n\<bar>) \<le> 53")
  case True
  then show ?thesis by (simp add: round53_def)
next
  case False
  define s where "s = bit_length (nat \<bar>n\<bar>) - 53"
  define q where "q = round_half_even \<bar>n\<bar> (2 ^ s)"
  have "nat \<bar>n\<bar> < 2 ^ (53 + s)"
    using False by (simp add: s_def flip: bit_length_le)
  then have "\<bar>n\<bar> < 2 ^ 53 * 2 ^ s" by (simp add: nat_less_iff power_add)
  then have "\<bar>n\<bar> div 2 ^ s < 2 ^ 53" by (intro int_div_less) simp_all
  moreover have "0 \<le> \<bar>n\<bar> div 2 ^ s" by (simp add: pos_imp_zdiv_nonneg_iff)
  ultimately have "0 \<le> q" and "q \<le> 2 ^ 53"
    using round_half_even_bounds [of "\<bar>n\<bar>" "2 ^ s"] unfolding q_def by linarith+
  then have q: "\<bar>sgn n * q\<bar> \<le> 2 ^ 53"
    by (simp add: abs_mult sgn_if)
  have n: "round53 n = sgn n * q * 2 ^ s"
    using False by (simp add: round53_def Let_def s_def q_def)
  show ?thesis by (simp add: n round53_scale round53_le [OF q])
qed

lemma float_limit_pos: "0 < float_limit"
  by (simp add: float_limit_def)

lemma binary64_ldexp: "binary64 x \<Longrightarrow> ldexp x n = Inr y \<Longrightarrow> binary64 y"
  by (auto simp: binary64_def ldexp_def round53_scale split: if_splits)

lemma binary64_float_of_int: "float_of_int n = Inr (Fin x) \<Longrightarrow> binary64 x"
proof -
  assume f: "float_of_int n = Inr (Fin x)"
  then have x: "x = round53 n * 2 ^ 1074" and "\<bar>round53 n\<bar> < 2 ^ 1024"
    by (auto simp: float_of_int_def float_unit_def split: if_splits)
  then have "\<bar>x\<bar> < float_limit"
    by (simp add: float_limit_def float_unit_def abs_mult)
  moreover have "round53 x = x" by (simp only: x round53_scale round53_idem)
  ultimately show ?thesis by (simp add: binary64_def)
qed

text \<open>The arguments that Python can pass: a float is a binary64 value.\<close>

definition wf_pyval :: "pyval \<Rightarrow> bool" where
  "wf_pyval v = (case v of VFloat (Fin x) \<Rightarrow> binary64 x | _ \<Rightarrow> True)"

text \<open>Whole seconds are exact microseconds.\<close>

lemma seconds_us_whole: "0 \<le> k \<Longrightarrow> seconds_us (k * float_unit) = k * 1000000"
proof -
  assume k: "0 \<le> k"
  have "round_half_even (round53 0) float_unit = 0"
    by (simp add: round_half_even_def)
  with k show ?thesis
    by (cases "k = 0") (simp_all add: seconds_us_def abs_mult sgn_mult abs_of_pos [OF float_unit_pos])
qed

lemma float_of_int_small: "\<bar>n\<bar> < 2 ^ 53 \<Longrightarrow> float_of_int n = Inr (Fin (n * float_unit))"
proof -
  assume n: "\<bar>n\<bar> < 2 ^ 53"
  have "(2::int) ^ 53 \<le> 2 ^ 1024" by (rule power_increasing) simp_all
  with n have "\<not> \<bar>n\<bar> \<ge> 2 ^ 1024" by linarith
  then show ?thesis unfolding float_of_int_def round53_small [OF n] by simp
qed

lemma binary64_whole: "\<bar>n\<bar> < 2 ^ 53 \<Longrightarrow> binary64 (n * float_unit)"
  by (rule binary64_float_of_int [OF float_of_int_small])

section \<open>Monotonicity of the float operations\<close>

lemma round_half_even_mono:
  assumes "0 < d" and "a \<le> b"
  shows "round_half_even a d \<le> round_half_even b d"
proof (cases "a div d = b div d")
  case True
  then have "a mod d \<le> b mod d"
    using assms(2) div_mult_mod_eq [of a d] div_mult_mod_eq [of b d] by (metis add_le_cancel_left)
  with True show ?thesis by (auto simp: round_half_even_def Let_def)
next
  case False
  then have "a div d + 1 \<le> b div d"
    using zdiv_mono1 [OF assms(2,1)] by simp
  then show ?thesis
    using round_half_even_bounds [of a d] round_half_even_bounds [of b d] by linarith
qed

lemma round53_pos:
  "0 \<le> n \<Longrightarrow> round53 n = round_half_even n (2 ^ (bit_length (nat n) - 53)) * 2 ^ (bit_length (nat n) - 53)"
  by (cases "n = 0") (auto simp: round53_def Let_def round_half_even_def sgn_if)

lemma bit_length_lower: "n \<noteq> 0 \<Longrightarrow> 2 ^ (bit_length n - 1) \<le> n"
proof -
  assume "n \<noteq> 0"
  then have "\<not> bit_length n \<le> bit_length n - 1" by (simp add: bit_length.simps [of n])
  then show ?thesis by (simp only: bit_length_le not_less)
qed

lemma round53_upper:
  assumes "0 \<le> n"
  shows "round53 n \<le> 2 ^ bit_length (nat n)"
proof (cases "bit_length (nat n) \<le> 53")
  case True
  have "nat n < 2 ^ bit_length (nat n)" by (simp flip: bit_length_le)
  with True assms show ?thesis by (simp add: round53_def nat_less_iff)
next
  case False
  define s where "s = bit_length (nat n) - 53"
  have k: "bit_length (nat n) = 53 + s" using False by (simp add: s_def)
  have "nat n < 2 ^ (53 + s)" by (simp add: k [symmetric] flip: bit_length_le)
  then have "n < 2 ^ 53 * 2 ^ s" using assms by (simp add: nat_less_iff power_add)
  then have "n div 2 ^ s < 2 ^ 53" by (intro int_div_less) simp_all
  then have "round_half_even n (2 ^ s) \<le> 2 ^ 53"
    using round_half_even_bounds [of n "2 ^ s"] by linarith
  then have "round_half_even n (2 ^ s) * 2 ^ s \<le> 2 ^ 53 * 2 ^ s" by (intro mult_right_mono) auto
  also have "(2::int) ^ 53 * 2 ^ s = 2 ^ bit_length (nat n)"
    by (simp add: k power_add)
  finally show ?thesis using assms by (simp add: round53_pos s_def)
qed

lemma round53_lower:
  assumes "0 < n"
  shows "2 ^ (bit_length (nat n) - 1) \<le> round53 n"
proof -
  define k where "k = bit_length (nat n)"
  have low: "2 ^ (k - 1) \<le> n"
    using bit_length_lower [of "nat n"] assms by (simp add: k_def le_nat_iff)
  show ?thesis
  proof (cases "k \<le> 53")
    case True
    then show ?thesis using low assms by (simp add: round53_def Let_def k_def)
  next
    case False
    define s where "s = k - 53"
    have "k - 1 = 52 + s" using False by (simp add: s_def)
    then have p: "(2::int) ^ (k - 1) = 2 ^ 52 * 2 ^ s" by (simp only: power_add)
    have "round_half_even (2 ^ 52 * 2 ^ s) (2 ^ s) = (2 ^ 52 :: int)"
      by (simp add: round_half_even_exact)
    then have "2 ^ 52 \<le> round_half_even n (2 ^ s)"
      using round_half_even_mono [of "2 ^ s" "2 ^ 52 * 2 ^ s" n] low p by simp
    then have "(2::int) ^ 52 * 2 ^ s \<le> round_half_even n (2 ^ s) * 2 ^ s"
      by (intro mult_right_mono) auto
    then show ?thesis using p assms by (simp add: round53_pos k_def s_def)
  qed
qed

lemma bit_length_mono: "m \<le> n \<Longrightarrow> bit_length m \<le> bit_length n"
  using bit_length_le [of n "bit_length n"] by (simp add: bit_length_le)

lemma round53_mono:
  assumes "0 \<le> m" and "m \<le> n"
  shows "round53 m \<le> round53 n"
proof (cases "bit_length (nat m) = bit_length (nat n)")
  case True
  then show ?thesis
    using assms round_half_even_mono [of "2 ^ (bit_length (nat n) - 53)" m n]
    by (simp add: round53_pos)
next
  case False
  then have less: "bit_length (nat m) \<le> bit_length (nat n) - 1" and n: "0 < n"
    using bit_length_mono [of "nat m" "nat n"] assms by (auto simp: le_less)
  have "round53 m \<le> 2 ^ bit_length (nat m)" by (rule round53_upper [OF assms(1)])
  also have "(2::int) ^ bit_length (nat m) \<le> 2 ^ (bit_length (nat n) - 1)"
    using less by simp
  also have "\<dots> \<le> round53 n" by (rule round53_lower [OF n])
  finally show ?thesis .
qed

text \<open>The microseconds of the fractional second: between 0 and one million.\<close>

definition frac_us :: "int \<Rightarrow> int" where
  "frac_us f = round_half_even (round53 (1000000 * f)) float_unit"

lemma frac_us_mono: "0 \<le> f \<Longrightarrow> f \<le> g \<Longrightarrow> frac_us f \<le> frac_us g"
  unfolding frac_us_def by (intro round_half_even_mono round53_mono) simp_all

lemma round53_million: "round53 (1000000 * float_unit) = 1000000 * float_unit"
proof -
  have "round53 1000000 = 1000000" by (rule round53_small) simp
  then show ?thesis unfolding float_unit_def by (simp only: round53_scale)
qed

lemma frac_us_bounds: "0 \<le> f \<Longrightarrow> f \<le> float_unit \<Longrightarrow> 0 \<le> frac_us f \<and> frac_us f \<le> 1000000"
  using frac_us_mono [of 0 f] frac_us_mono [of f float_unit]
  by (simp add: frac_us_def round53_million round_half_even_exact)

lemma seconds_us_nonneg_eq:
  "0 \<le> x \<Longrightarrow> seconds_us x = (x div float_unit) * 1000000 + frac_us (x mod float_unit)"
  by (cases "x = 0") (simp_all add: seconds_us_def frac_us_def round_half_even_def)

lemma seconds_us_nonneg: "0 \<le> x \<Longrightarrow> 0 \<le> seconds_us x"
  using frac_us_bounds [of "x mod float_unit"]
  by (simp add: seconds_us_nonneg_eq pos_mod_bound [THEN less_imp_le] pos_imp_zdiv_nonneg_iff)

lemma seconds_us_mono:
  assumes "0 \<le> x" and "x \<le> y"
  shows "seconds_us x \<le> seconds_us y"
proof (cases "x div float_unit = y div float_unit")
  case True
  then have "x mod float_unit \<le> y mod float_unit"
    using assms(2) div_mult_mod_eq [of x float_unit] div_mult_mod_eq [of y float_unit]
    by (metis add_le_cancel_left)
  then have "frac_us (x mod float_unit) \<le> frac_us (y mod float_unit)"
    by (intro frac_us_mono) simp_all
  with True assms show ?thesis by (simp add: seconds_us_nonneg_eq)
next
  case False
  then have q: "x div float_unit + 1 \<le> y div float_unit"
    using zdiv_mono1 [OF assms(2) float_unit_pos] by simp
  have "frac_us (x mod float_unit) \<le> 1000000" "0 \<le> frac_us (y mod float_unit)"
    using frac_us_bounds [of "x mod float_unit"] frac_us_bounds [of "y mod float_unit"]
    by (simp_all add: pos_mod_bound [THEN less_imp_le])
  then show ?thesis
    using q assms by (simp add: seconds_us_nonneg_eq)
qed

end
