(* ===== verification/Models.thy ===== *)
theory Models
  imports Py_Values
begin

text \<open>
  The tables of \<open>models.py\<close>: a record per mapped class, the database as one list of rows per
  table, and the constraints of the schema (lengths, checks, primary keys, unique keys, foreign
  keys) as the conditions under which an INSERT or UPDATE is accepted. A rejected write raises
  the database error with the violated constraint's name and leaves the tables unchanged.
\<close>

section \<open>Rows\<close>

datatype json =
    JNull
  | JBool bool
  | JInt int
  | JFloat pyfloat
  | JStr string
  | JArr "json list"
  | JObj "(string \<times> json) list"

record endpoint_row =
  ep_id :: uuid
  ep_name :: string
  ep_target_url :: string
  ep_is_active :: bool
  ep_created_at :: instant
  ep_updated_at :: instant

record event_row =
  ev_id :: uuid
  ev_endpoint_id :: uuid
  ev_event_type :: string
  ev_payload :: json
  ev_idempotency_key :: "string option"
  ev_created_at :: instant

record job_row =
  job_id :: uuid
  job_event_id :: uuid
  job_status :: string
  job_next_attempt_at :: "instant option"
  job_attempt_count :: int
  job_created_at :: instant
  job_updated_at :: instant

record attempt_row =
  at_id :: uuid
  at_event_id :: uuid
  at_attempt_number :: int
  at_outcome :: string
  at_target_url :: string
  at_response_status_code :: "int option"
  at_error_message :: "string option"
  at_duration_ms :: int
  at_attempted_at :: instant

record db =
  endpoints :: "endpoint_row list"
  events :: "event_row list"
  jobs :: "job_row list"
  attempts :: "attempt_row list"

definition empty_db :: db where
  "empty_db = \<lparr>endpoints = [], events = [], jobs = [], attempts = []\<rparr>"

section \<open>Column types\<close>

text \<open>
  A text value of the server has no NUL character; a JSONB value has no NUL in its strings and
  keys, and its numbers are finite.
\<close>

definition text_ok :: "string \<Rightarrow> bool" where
  "text_ok s \<longleftrightarrow> CHR 0x00 \<notin> set s"

definition varchar :: "nat \<Rightarrow> string \<Rightarrow> bool" where
  "varchar n s \<longleftrightarrow> length s \<le> n \<and> text_ok s"

fun jsonb_ok :: "json \<Rightarrow> bool" where
  "jsonb_ok (JFloat f) = (case f of Fin _ \<Rightarrow> True | _ \<Rightarrow> False)"
| "jsonb_ok (JStr s) = text_ok s"
| "jsonb_ok (JArr xs) = list_all jsonb_ok xs"
| "jsonb_ok (JObj kvs) = list_all (\<lambda>kv. text_ok (fst kv) \<and> jsonb_ok (snd kv)) kvs"
| "jsonb_ok _ = True"

definition int4 :: "int \<Rightarrow> bool" where
  "int4 n \<longleftrightarrow> - (2 ^ 31) \<le> n \<and> n < 2 ^ 31"

section \<open>Row constraints\<close>

definition endpoint_data_ok :: "endpoint_row \<Rightarrow> bool" where
  "endpoint_data_ok r \<longleftrightarrow> varchar 255 (ep_name r) \<and> varchar 2048 (ep_target_url r)"

definition event_data_ok :: "event_row \<Rightarrow> bool" where
  "event_data_ok r \<longleftrightarrow>
     varchar 255 (ev_event_type r) \<and> jsonb_ok (ev_payload r) \<and>
     (case ev_idempotency_key r of None \<Rightarrow> True | Some k \<Rightarrow> varchar 255 k)"

definition job_data_ok :: "job_row \<Rightarrow> bool" where
  "job_data_ok r \<longleftrightarrow> varchar 32 (job_status r) \<and> int4 (job_attempt_count r)"

definition attempt_data_ok :: "attempt_row \<Rightarrow> bool" where
  "attempt_data_ok r \<longleftrightarrow>
     int4 (at_attempt_number r) \<and> varchar 32 (at_outcome r) \<and> varchar 2048 (at_target_url r) \<and>
     (case at_response_status_code r of None \<Rightarrow> True | Some c \<Rightarrow> int4 c) \<and>
     (case at_error_message r of None \<Rightarrow> True | Some m \<Rightarrow> text_ok m) \<and>
     int4 (at_duration_ms r)"

definition job_statuses :: "string list" where
  "job_statuses = [''pending'', ''processing'', ''succeeded'', ''dead_letter'']"

text \<open>The name of the first violated CHECK, in the alphabetical order the server uses.\<close>

definition job_check :: "job_row \<Rightarrow> string option" where
  "job_check r =
     (if job_attempt_count r < 0
        then Some ''ck_webhook_delivery_jobs_attempt_count_non_negative''
      else if job_status r \<notin> set job_statuses
        then Some ''ck_webhook_delivery_jobs_status''
      else if \<not> ((job_status r \<in> {''pending'', ''processing''} \<and> job_next_attempt_at r \<noteq> None) \<or>
                 (job_status r \<in> {''succeeded'', ''dead_letter''} \<and> job_next_attempt_at r = None))
        then Some ''ck_webhook_delivery_jobs_status_next_attempt_at''
      else None)"

definition attempt_check :: "attempt_row \<Rightarrow> string option" where
  "attempt_check r =
     (if \<not> 0 < at_attempt_number r
        then Some ''ck_webhook_delivery_attempts_attempt_number_positive''
      else if at_duration_ms r < 0
        then Some ''ck_webhook_delivery_attempts_duration_ms_non_negative''
      else if at_outcome r \<notin> {''succeeded'', ''failed''}
        then Some ''ck_webhook_delivery_attempts_outcome''
      else if \<not> (case at_response_status_code r of None \<Rightarrow> True | Some c \<Rightarrow> 100 \<le> c \<and> c \<le> 599)
        then Some ''ck_webhook_delivery_attempts_response_status_code''
      else None)"

section \<open>Writes\<close>

definition insert_endpoint :: "endpoint_row \<Rightarrow> db \<Rightarrow> exc + db" where
  "insert_endpoint r d =
     (if \<not> endpoint_data_ok r then Inl (DataError ''webhook_endpoints'')
      else if ep_id r \<in> ep_id ` set (endpoints d) then Inl (IntegrityError ''webhook_endpoints_pkey'')
      else Inr (d\<lparr>endpoints := endpoints d @ [r]\<rparr>))"

definition same_scoped_key :: "event_row \<Rightarrow> event_row \<Rightarrow> bool" where
  "same_scoped_key r r' \<longleftrightarrow>
     ev_endpoint_id r = ev_endpoint_id r' \<and>
     ev_idempotency_key r \<noteq> None \<and> ev_idempotency_key r = ev_idempotency_key r'"

definition insert_event :: "event_row \<Rightarrow> db \<Rightarrow> exc + db" where
  "insert_event r d =
     (if \<not> event_data_ok r then Inl (DataError ''webhook_events'')
      else if ev_id r \<in> ev_id ` set (events d) then Inl (IntegrityError ''webhook_events_pkey'')
      else if (\<exists>r' \<in> set (events d). same_scoped_key r r')
        then Inl (IntegrityError ''uq_webhook_events_endpoint_id_idempotency_key'')
      else if ev_endpoint_id r \<notin> ep_id ` set (endpoints d)
        then Inl (IntegrityError ''webhook_events_endpoint_id_fkey'')
      else Inr (d\<lparr>events := events d @ [r]\<rparr>))"

definition insert_job :: "job_row \<Rightarrow> db \<Rightarrow> exc + db" where
  "insert_job r d =
     (if \<not> job_data_ok r then Inl (DataError ''webhook_delivery_jobs'')
      else case job_check r of Some c \<Rightarrow> Inl (IntegrityError c)
      | None \<Rightarrow>
          (if job_id r \<in> job_id ` set (jobs d) then Inl (IntegrityError ''webhook_delivery_jobs_pkey'')
           else if job_event_id r \<in> job_event_id ` set (jobs d)
             then Inl (IntegrityError ''uq_webhook_delivery_jobs_event_id'')
           else if job_event_id r \<notin> ev_id ` set (events d)
             then Inl (IntegrityError ''webhook_delivery_jobs_event_id_fkey'')
           else Inr (d\<lparr>jobs := jobs d @ [r]\<rparr>)))"

definition attempt_key :: "attempt_row \<Rightarrow> uuid \<times> int" where
  "attempt_key r = (at_event_id r, at_attempt_number r)"

definition insert_attempt :: "attempt_row \<Rightarrow> db \<Rightarrow> exc + db" where
  "insert_attempt r d =
     (if \<not> attempt_data_ok r then Inl (DataError ''webhook_delivery_attempts'')
      else case attempt_check r of Some c \<Rightarrow> Inl (IntegrityError c)
      | None \<Rightarrow>
          (if at_id r \<in> at_id ` set (attempts d)
             then Inl (IntegrityError ''webhook_delivery_attempts_pkey'')
           else if attempt_key r \<in> attempt_key ` set (attempts d)
             then Inl (IntegrityError ''uq_webhook_delivery_attempts_event_id_attempt_number'')
           else if at_event_id r \<notin> ev_id ` set (events d)
             then Inl (IntegrityError ''webhook_delivery_attempts_event_id_fkey'')
           else Inr (d\<lparr>attempts := attempts d @ [r]\<rparr>)))"

text \<open>
  The flush of a changed job: an UPDATE by primary key of the columns whose value differs from
  the loaded one, applied to the row as it is now. No row is a stale-data error; no changed
  column is no statement.
\<close>

definition patch_job :: "job_row \<Rightarrow> job_row \<Rightarrow> job_row \<Rightarrow> job_row" where
  "patch_job old new cur = cur\<lparr>
     job_status := if job_status new = job_status old then job_status cur else job_status new,
     job_next_attempt_at :=
       if job_next_attempt_at new = job_next_attempt_at old then job_next_attempt_at cur
       else job_next_attempt_at new,
     job_attempt_count :=
       if job_attempt_count new = job_attempt_count old then job_attempt_count cur
       else job_attempt_count new,
     job_updated_at :=
       if job_updated_at new = job_updated_at old then job_updated_at cur
       else job_updated_at new\<rparr>"

definition update_job :: "job_row \<Rightarrow> job_row \<Rightarrow> db \<Rightarrow> exc + db" where
  "update_job old new d =
     (if new = old then Inr d
      else case lookup_by job_id (job_id old) (jobs d) of
        None \<Rightarrow> Inl StaleDataError
      | Some cur \<Rightarrow>
          (let r = patch_job old new cur in
           if \<not> job_data_ok r then Inl (DataError ''webhook_delivery_jobs'')
           else case job_check r of Some c \<Rightarrow> Inl (IntegrityError c)
           | None \<Rightarrow> Inr (d\<lparr>jobs := update_by job_id r (jobs d)\<rparr>)))"

text \<open>One flush of several changed jobs.\<close>

fun update_jobs :: "(job_row \<times> job_row) list \<Rightarrow> db \<Rightarrow> exc + db" where
  "update_jobs [] d = Inr d"
| "update_jobs ((old, new) # rest) d = bindR (update_job old new d) (update_jobs rest)"

section \<open>The schema invariant\<close>

definition schema_ok :: "db \<Rightarrow> bool" where
  "schema_ok d \<longleftrightarrow>
     (\<forall>r \<in> set (endpoints d). endpoint_data_ok r) \<and>
     (\<forall>r \<in> set (events d). event_data_ok r \<and> ev_endpoint_id r \<in> ep_id ` set (endpoints d)) \<and>
     (\<forall>r \<in> set (jobs d). job_data_ok r \<and> job_check r = None \<and> job_event_id r \<in> ev_id ` set (events d)) \<and>
     (\<forall>r \<in> set (attempts d). attempt_data_ok r \<and> attempt_check r = None \<and>
        at_event_id r \<in> ev_id ` set (events d)) \<and>
     distinct (map ep_id (endpoints d)) \<and>
     distinct (map ev_id (events d)) \<and>
     distinct (map job_id (jobs d)) \<and>
     distinct (map job_event_id (jobs d)) \<and>
     distinct (map at_id (attempts d)) \<and>
     distinct (map attempt_key (attempts d)) \<and>
     (\<forall>r \<in> set (events d). \<forall>r' \<in> set (events d). same_scoped_key r r' \<longrightarrow> r = r')"

end
