(* ===== verification/Py_Text.thy ===== *)
theory Py_Text
  imports Py_Values
begin

text \<open>
  The text and byte conversions of the standard library that the cursor goes through: base64 with
  the URL-safe alphabet, UTF-8, the JSON reader and the text form of a UUID. Bytes and code points
  are natural numbers; a \<open>unicode\<close> is a list of code points, so that every decoded text has a
  representation. The locale \<open>text_codec\<close> states what the callers rely on, a reader that inverts a
  writer, and is interpreted by each pair.
\<close>

section \<open>Codecs\<close>

type_synonym unicode = "nat list"

definition codes :: "string \<Rightarrow> unicode" where
  "codes s = map of_char s"

lemma codes_simps [simp]:
  "codes [] = []" "codes (c # s) = of_char c # codes s" "codes (s @ t) = codes s @ codes t"
  "length (codes s) = length s"
  by (simp_all add: codes_def)

text \<open>A writer \<open>enc\<close>, total, and a reader \<open>dec\<close> that may raise.\<close>

locale text_codec =
  fixes valid :: "'a \<Rightarrow> bool" and enc :: "'a \<Rightarrow> 'b" and dec :: "'b \<Rightarrow> exc + 'a"
  assumes round_trip: "valid x \<Longrightarrow> dec (enc x) = Inr x"
begin

lemma enc_inj: "valid x \<Longrightarrow> valid y \<Longrightarrow> enc x = enc y \<Longrightarrow> x = y"
  by (metis round_trip sum.inject(2))

lemma enc_inj_on: "inj_on enc (Collect valid)"
  by (rule inj_onI) (auto intro: enc_inj)

end

section \<open>Base64, URL-safe alphabet\<close>

definition b64_char :: "nat \<Rightarrow> nat" where
  "b64_char v =
     (if v < 26 then 65 + v else if v < 52 then 97 + (v - 26) else if v < 62 then 48 + (v - 52)
      else if v = 62 then 45 else 95)"

definition b64_pad :: nat where
  "b64_pad = 61"

text \<open>\<open>base64.urlsafe_b64encode\<close>\<close>

fun urlsafe_b64encode :: "nat list \<Rightarrow> unicode" where
  "urlsafe_b64encode [] = []"
| "urlsafe_b64encode [a] = [b64_char (a div 4), b64_char (a mod 4 * 16), b64_pad, b64_pad]"
| "urlsafe_b64encode [a, b] =
     [b64_char (a div 4), b64_char (a mod 4 * 16 + b div 16), b64_char (b mod 16 * 4), b64_pad]"
| "urlsafe_b64encode (a # b # c # bytes) =
     b64_char (a div 4) # b64_char (a mod 4 * 16 + b div 16) # b64_char (b mod 16 * 4 + c div 64)
       # b64_char (c mod 64) # urlsafe_b64encode bytes"

text \<open>\<open>rstrip("=")\<close>\<close>

definition rstrip_pad :: "unicode \<Rightarrow> unicode" where
  "rstrip_pad s = rev (dropWhile (\<lambda>c. c = b64_pad) (rev s))"

text \<open>
  \<open>b64decode(..., altchars=b"-_", validate=True)\<close>: both alphabets are accepted; padding only at the
  end, after a character, and completing the last group (a complete group may be followed by padding).
\<close>

definition b64_value :: "nat \<Rightarrow> nat option" where
  "b64_value c =
     (if 65 \<le> c \<and> c \<le> 90 then Some (c - 65)
      else if 97 \<le> c \<and> c \<le> 122 then Some (c - 97 + 26)
      else if 48 \<le> c \<and> c \<le> 57 then Some (c - 48 + 52)
      else if c = 45 \<or> c = 43 then Some 62
      else if c = 95 \<or> c = 47 then Some 63
      else None)"

fun b64_groups :: "nat list \<Rightarrow> nat list" where
  "b64_groups [a, b] = [a * 4 + b div 16]"
| "b64_groups [a, b, c] = [a * 4 + b div 16, b mod 16 * 16 + c div 4]"
| "b64_groups (a # b # c # d # vs) =
     (a * 4 + b div 16) # (b mod 16 * 16 + c div 4) # (c mod 4 * 64 + d) # b64_groups vs"
| "b64_groups _ = []"

definition b64_error :: exc where
  "b64_error = ValueError ''binascii.Error''"

definition b64decode :: "unicode \<Rightarrow> exc + nat list" where
  "b64decode s =
     (let chars = takeWhile (\<lambda>c. c \<noteq> b64_pad) s;
          pads = dropWhile (\<lambda>c. c \<noteq> b64_pad) s;
          values = map b64_value chars;
          k = length chars mod 4 in
      if None \<in> set values \<or> (\<exists>c \<in> set pads. c \<noteq> b64_pad) \<or> (chars = [] \<and> pads \<noteq> []) then Inl b64_error
      else if k = 1 \<or> (k = 2 \<and> length pads \<noteq> 2) \<or> (k = 3 \<and> length pads \<noteq> 1) then Inl b64_error
      else Inr (b64_groups (map the values)))"

section \<open>UTF-8\<close>

definition utf8_error :: exc where
  "utf8_error = ValueError ''UnicodeDecodeError''"

definition continuation :: "nat \<Rightarrow> bool" where
  "continuation b \<longleftrightarrow> 128 \<le> b \<and> b < 192"

fun utf8_decode :: "nat list \<Rightarrow> exc + unicode" where
  "utf8_decode [] = Inr []"
| "utf8_decode (a # bs) =
     (if a < 128 then map_sum id (Cons a) (utf8_decode bs)
      else if 194 \<le> a \<and> a < 224 then
        (case bs of
           b # bs' \<Rightarrow>
             if continuation b then map_sum id (Cons ((a - 192) * 64 + (b - 128))) (utf8_decode bs')
             else Inl utf8_error
         | _ \<Rightarrow> Inl utf8_error)
      else if 224 \<le> a \<and> a < 240 then
        (case bs of
           b # c # bs' \<Rightarrow>
             if continuation b \<and> continuation c \<and> (a = 224 \<longrightarrow> 160 \<le> b) \<and> (a = 237 \<longrightarrow> b < 160)
             then map_sum id (Cons ((a - 224) * 4096 + (b - 128) * 64 + (c - 128))) (utf8_decode bs')
             else Inl utf8_error
         | _ \<Rightarrow> Inl utf8_error)
      else if 240 \<le> a \<and> a < 245 then
        (case bs of
           b # c # d # bs' \<Rightarrow>
             if continuation b \<and> continuation c \<and> continuation d \<and> (a = 240 \<longrightarrow> 144 \<le> b) \<and> (a = 244 \<longrightarrow> b < 144)
             then map_sum id (Cons ((a - 240) * 262144 + (b - 128) * 4096 + (c - 128) * 64 + (d - 128)))
                    (utf8_decode bs')
             else Inl utf8_error
         | _ \<Rightarrow> Inl utf8_error)
      else Inl utf8_error)"

section \<open>Base64 round trip\<close>

lemma b64_char_pad: "b64_char v \<noteq> b64_pad"
  by (simp add: b64_char_def b64_pad_def) arith

lemma b64_value_char [simp]: "v < 64 \<Longrightarrow> b64_value (b64_char v) = Some v"
  by (auto simp: b64_value_def b64_char_def)

text \<open>The values of the characters written for a list of bytes, and the number of pads.\<close>

fun b64_sextets :: "nat list \<Rightarrow> nat list" where
  "b64_sextets [] = []"
| "b64_sextets [a] = [a div 4, a mod 4 * 16]"
| "b64_sextets [a, b] = [a div 4, a mod 4 * 16 + b div 16, b mod 16 * 4]"
| "b64_sextets (a # b # c # bytes) =
     a div 4 # (a mod 4 * 16 + b div 16) # (b mod 16 * 4 + c div 64) # c mod 64 # b64_sextets bytes"

fun b64_pads :: "nat list \<Rightarrow> nat" where
  "b64_pads [] = 0" | "b64_pads [a] = 2" | "b64_pads [a, b] = 1" | "b64_pads (a # b # c # bytes) = b64_pads bytes"

lemma urlsafe_b64encode_eq:
  "urlsafe_b64encode bytes = map b64_char (b64_sextets bytes) @ replicate (b64_pads bytes) b64_pad"
  by (induction bytes rule: urlsafe_b64encode.induct) (simp_all add: numeral_2_eq_2)

lemma dropWhile_replicate_append: "dropWhile (\<lambda>c. c = p) (replicate n p @ xs) = dropWhile (\<lambda>c. c = p) xs"
  by (induction n) auto

lemma rstrip_encoded: "rstrip_pad (urlsafe_b64encode bytes) = map b64_char (b64_sextets bytes)"
proof -
  have "dropWhile (\<lambda>c. c = b64_pad) (rev (map b64_char vs)) = rev (map b64_char vs)" for vs
    by (cases vs rule: rev_cases) (simp_all add: b64_char_pad)
  then show ?thesis
    by (simp add: rstrip_pad_def urlsafe_b64encode_eq dropWhile_replicate_append)
qed

lemma b64_sextets_length: "length (b64_sextets bytes) mod 4 = (4 - b64_pads bytes) mod 4"
  by (induction bytes rule: b64_sextets.induct) simp_all

lemma b64_pads_le: "b64_pads bytes \<le> 2"
  by (induction bytes rule: b64_pads.induct) simp_all

lemma b64_sextets_small: "\<forall>b \<in> set bytes. b < 256 \<Longrightarrow> \<forall>v \<in> set (b64_sextets bytes). v < 64"
  by (induction bytes rule: b64_sextets.induct) auto

lemma pack: "(y::nat) < k \<Longrightarrow> (x * k + y) div k = x \<and> (x * k + y) mod k = y"
  by simp

lemma byte_parts: "b < 256 \<Longrightarrow> b div 16 < (16::nat)" "b < 256 \<Longrightarrow> b div 64 < (4::nat)"
  by (simp_all add: less_mult_imp_div_less)

lemma sextets_of_bytes:
  fixes a b c :: nat
  shows "b < 256 \<Longrightarrow> a div 4 * 4 + (a mod 4 * 16 + b div 16) div 16 = a"
    and "b < 256 \<Longrightarrow> c < 256 \<Longrightarrow> (a mod 4 * 16 + b div 16) mod 16 * 16 + (b mod 16 * 4 + c div 64) div 4 = b"
    and "c < 256 \<Longrightarrow> (b mod 16 * 4 + c div 64) mod 4 * 64 + c mod 64 = c"
    and "a div 4 * 4 + a mod 4 * 16 div 16 = a"
    and "b < 256 \<Longrightarrow> (a mod 4 * 16 + b div 16) mod 16 * 16 + b mod 16 * 4 div 4 = b"
  by (simp_all only: pack byte_parts div_mult_mod_eq nonzero_mult_div_cancel_right)

lemma b64_groups_sextets: "\<forall>b \<in> set bytes. b < 256 \<Longrightarrow> b64_groups (b64_sextets bytes) = bytes"
  by (induction bytes rule: b64_sextets.induct)
    (simp_all only: b64_sextets.simps b64_groups.simps list.set ball_simps insert_iff sextets_of_bytes list.inject,
     simp_all)

text \<open>The padding put back: \<open>"=" * (-len(cursor) % 4)\<close>.\<close>

definition pad_cursor :: "unicode \<Rightarrow> unicode" where
  "pad_cursor s = s @ replicate ((4 - length s mod 4) mod 4) b64_pad"

lemma b64_pad_count: "(4 - length (b64_sextets bytes) mod 4) mod 4 = b64_pads bytes"
proof -
  consider "b64_pads bytes = 0" | "b64_pads bytes = 1" | "b64_pads bytes = 2"
    using b64_pads_le [of bytes] by linarith
  then show ?thesis by cases (simp_all add: b64_sextets_length)
qed

lemma b64decode_encoded:
  assumes "\<forall>b \<in> set bytes. b < 256"
  shows "b64decode (pad_cursor (rstrip_pad (urlsafe_b64encode bytes))) = Inr bytes"
proof -
  let ?vs = "b64_sextets bytes"
  have small: "\<forall>v \<in> set ?vs. v < 64" by (rule b64_sextets_small [OF assms])
  have tw: "takeWhile (\<lambda>c. c \<noteq> b64_pad) (map b64_char vs @ replicate n b64_pad) = map b64_char vs \<and>
    dropWhile (\<lambda>c. c \<noteq> b64_pad) (map b64_char vs @ replicate n b64_pad) = replicate n b64_pad" for n vs
    by (induction vs) (cases n; simp add: b64_char_pad)+
  have the_some: "map (the \<circ> (b64_value \<circ> b64_char)) ?vs = ?vs"
    using small by (intro map_idI) simp
  have none: "None \<notin> set (map b64_value (map b64_char ?vs))" using small by (auto dest: sym)
  have decode: "b64decode (map b64_char ?vs @ replicate n b64_pad) =
      (if (?vs = [] \<and> n \<noteq> 0) \<or> length ?vs mod 4 = 1 \<or> (length ?vs mod 4 = 2 \<and> n \<noteq> 2) \<or>
          (length ?vs mod 4 = 3 \<and> n \<noteq> 1) then Inl b64_error else Inr bytes)" for n
    unfolding b64decode_def Let_def tw [THEN conjunct1] tw [THEN conjunct2]
    using none by (simp add: the_some b64_groups_sextets [OF assms])
  have empty: "?vs = [] \<longrightarrow> b64_pads bytes = 0" by (cases bytes rule: b64_sextets.cases) simp_all
  consider "b64_pads bytes = 0" | "b64_pads bytes = 1" | "b64_pads bytes = 2"
    using b64_pads_le [of bytes] by linarith
  then show ?thesis
    unfolding rstrip_encoded pad_cursor_def length_map b64_pad_count decode
    using empty by cases (simp_all add: b64_sextets_length)
qed

interpretation base64_cursor: text_codec "\<lambda>bytes. \<forall>b \<in> set bytes. b < 256"
  "\<lambda>bytes. rstrip_pad (urlsafe_b64encode bytes)" "\<lambda>s. b64decode (pad_cursor s)"
  by unfold_locales (rule b64decode_encoded)

section \<open>ASCII text\<close>

definition ascii :: "unicode \<Rightarrow> bool" where
  "ascii s \<longleftrightarrow> (\<forall>c \<in> set s. c < 128)"

lemma utf8_decode_ascii: "ascii s \<Longrightarrow> utf8_decode s = Inr s"
  by (induction s) (simp_all add: ascii_def)

interpretation utf8_ascii: text_codec ascii "\<lambda>s. s" utf8_decode
  by unfold_locales (rule utf8_decode_ascii)

end
