(* ===== verification/Py_Json.thy ===== *)
theory Py_Json
  imports Py_Text
begin

text \<open>
  The JSON reader and writer of the standard library, as far as the cursor uses them. The reader is a
  tokenizer followed by a machine with an explicit stack, so it is total and its stack is the nesting
  depth, which CPython bounds: a deeper array or object raises RecursionError. The tokenizer turns a
  lexical error into a token, so that errors are raised in the order of the text. Floats keep their
  text, which nothing here looks at.
\<close>

section \<open>Values and tokens\<close>

datatype jval =
    PNull
  | PBool bool
  | PInt int
  | PFloat unicode
  | PStr unicode
  | PArr "jval list"
  | PObj "(unicode \<times> jval) list"

datatype tok =
    Open_array | Close_array | Open_object | Close_object | Colon | Comma
  | Scalar jval
  | Bad

definition json_error :: exc where
  "json_error = ValueError ''JSONDecodeError''"

section \<open>Lexing\<close>

definition digit :: "nat \<Rightarrow> bool" where
  "digit c \<longleftrightarrow> 48 \<le> c \<and> c \<le> 57"

definition hex_value :: "nat \<Rightarrow> nat option" where
  "hex_value c =
     (if digit c then Some (c - 48)
      else if 97 \<le> c \<and> c \<le> 102 then Some (c - 87)
      else if 65 \<le> c \<and> c \<le> 70 then Some (c - 55)
      else None)"

fun hex4 :: "unicode \<Rightarrow> (nat \<times> unicode) option" where
  "hex4 (a # b # c # d # cs) =
     (case (hex_value a, hex_value b, hex_value c, hex_value d) of
        (Some p, Some q, Some r, Some s) \<Rightarrow> Some (((p * 16 + q) * 16 + r) * 16 + s, cs)
      | _ \<Rightarrow> None)"
| "hex4 _ = None"

definition simple_escape :: "nat \<Rightarrow> nat option" where
  "simple_escape c =
     map_of [(34, 34), (92, 92), (47, 47), (98, 8), (102, 12), (110, 10), (114, 13), (116, 9)] c"

text \<open>One character of a string: itself, or an escape (a surrogate pair is one code point).\<close>

definition lex_escape :: "unicode \<Rightarrow> (nat \<times> unicode) option" where
  "lex_escape cs =
     (case cs of
        [] \<Rightarrow> None
      | c # cs1 \<Rightarrow>
          if c = 117 then
            (case hex4 cs1 of
               None \<Rightarrow> None
             | Some (u, cs2) \<Rightarrow>
                 if 55296 \<le> u \<and> u < 56320 \<and> take 2 cs2 = [92, 117] then
                   (case hex4 (drop 2 cs2) of
                      Some (v, cs3) \<Rightarrow>
                        if 56320 \<le> v \<and> v < 57344
                        then Some (65536 + (u - 55296) * 1024 + (v - 56320), cs3)
                        else Some (u, cs2)
                    | None \<Rightarrow> Some (u, cs2))
                 else Some (u, cs2))
          else (case simple_escape c of None \<Rightarrow> None | Some e \<Rightarrow> Some (e, cs1)))"

lemma hex4_shorter: "hex4 cs = Some (u, cs') \<Longrightarrow> length cs' < length cs"
  by (cases cs rule: hex4.cases) (auto split: option.splits)

lemma lex_escape_shorter: "lex_escape cs = Some (c, cs') \<Longrightarrow> length cs' < length cs"
  by (auto simp: lex_escape_def split: list.splits if_splits option.splits dest!: hex4_shorter)

text \<open>The rest of a string after its opening quote.\<close>

function lex_string :: "unicode \<Rightarrow> (unicode \<times> unicode) option" where
  "lex_string cs =
     (case cs of
        [] \<Rightarrow> None
      | c # cs1 \<Rightarrow>
          if c = 34 then Some ([], cs1)
          else if c = 92 then
            (case lex_escape cs1 of
               None \<Rightarrow> None
             | Some (e, cs2) \<Rightarrow> map_option (\<lambda>(s, rest). (e # s, rest)) (lex_string cs2))
          else if c < 32 then None
          else map_option (\<lambda>(s, rest). (c # s, rest)) (lex_string cs1))"
  by pat_completeness auto
termination by (relation "measure length") (auto dest: lex_escape_shorter)

declare lex_string.simps [simp del]

lemma lex_string_shorter: "lex_string cs = Some (s, rest) \<Longrightarrow> length rest < length cs"
proof (induction cs arbitrary: s rest rule: lex_string.induct)
  case (1 cs)
  show ?case
  proof (cases cs)
    case Nil
    then show ?thesis using 1(3) by (simp add: lex_string.simps)
  next
    case (Cons c cs1)
    then show ?thesis
      using 1(3) "1.IH" by (subst (asm) lex_string.simps)
        (auto split: if_splits option.splits dest!: lex_escape_shorter, fastforce+)
  qed
qed

text \<open>
  A number: optional minus, an integer part without leading zeros, optional fraction and exponent.
  \<open>int\<close> refuses more than 4300 digits.
\<close>

definition digits_value :: "unicode \<Rightarrow> nat" where
  "digits_value ds = foldl (\<lambda>n c. n * 10 + (c - 48)) 0 ds"

definition lex_digits :: "unicode \<Rightarrow> unicode \<times> unicode" where
  "lex_digits cs = (takeWhile digit cs, dropWhile digit cs)"

definition lex_integer :: "unicode \<Rightarrow> (unicode \<times> unicode) option" where
  "lex_integer cs =
     (case cs of
        [] \<Rightarrow> None
      | c # cs1 \<Rightarrow>
          if c = 48 then Some ([c], cs1)
          else if digit c then Some (lex_digits cs)
          else None)"

definition lex_fraction :: "unicode \<Rightarrow> unicode \<times> unicode" where
  "lex_fraction cs =
     (case cs of
        c # c1 # cs1 \<Rightarrow>
          if c = 46 \<and> digit c1 then (c # takeWhile digit (c1 # cs1), dropWhile digit (c1 # cs1))
          else ([], cs)
      | _ \<Rightarrow> ([], cs))"

definition lex_exponent :: "unicode \<Rightarrow> unicode \<times> unicode" where
  "lex_exponent cs =
     (case cs of
        e # cs1 \<Rightarrow>
          (let sign = (case cs1 of c # _ \<Rightarrow> if c = 43 \<or> c = 45 then [c] else [] | [] \<Rightarrow> []);
               ds = takeWhile digit (drop (length sign) cs1) in
           if (e = 101 \<or> e = 69) \<and> ds \<noteq> []
           then (e # sign @ ds, dropWhile digit (drop (length sign) cs1))
           else ([], cs))
      | [] \<Rightarrow> ([], cs))"

definition lex_number :: "unicode \<Rightarrow> (tok \<times> unicode) option" where
  "lex_number cs =
     (let minus = (case cs of c # _ \<Rightarrow> c = 45 | [] \<Rightarrow> False);
          cs0 = (if minus then tl cs else cs) in
      (case lex_integer cs0 of
         None \<Rightarrow> None
       | Some (ds, cs1) \<Rightarrow>
           (case lex_fraction cs1 of (frac, cs2) \<Rightarrow>
            (case lex_exponent cs2 of (ex, cs3) \<Rightarrow>
               Some
                 (if frac = [] \<and> ex = []
                    then (if length ds > 4300 then Bad
                          else Scalar (PInt ((if minus then - 1 else 1) * int (digits_value ds))))
                    else Scalar (PFloat ((if minus then [45] else []) @ ds @ frac @ ex)),
                  cs3)))))"

text \<open>The constants, tried in this order.\<close>

definition json_constants :: "(unicode \<times> jval) list" where
  "json_constants =
     [(codes ''null'', PNull), (codes ''true'', PBool True), (codes ''false'', PBool False),
      (codes ''NaN'', PFloat (codes ''NaN'')), (codes ''Infinity'', PFloat (codes ''Infinity'')),
      (codes ''-Infinity'', PFloat (codes ''-Infinity''))]"

fun lex_constant :: "(unicode \<times> jval) list \<Rightarrow> unicode \<Rightarrow> (tok \<times> unicode) option" where
  "lex_constant [] cs = None"
| "lex_constant ((name, v) # rest) cs =
     (if take (length name) cs = name then Some (Scalar v, drop (length name) cs)
      else lex_constant rest cs)"

definition punctuation :: "nat \<Rightarrow> tok option" where
  "punctuation c =
     map_of [(91, Open_array), (93, Close_array), (123, Open_object), (125, Close_object),
             (58, Colon), (44, Comma)] c"

definition json_space :: "nat \<Rightarrow> bool" where
  "json_space c \<longleftrightarrow> c = 32 \<or> c = 9 \<or> c = 10 \<or> c = 13"

text \<open>The next token of a text that starts with no white space.\<close>

definition lex_token :: "unicode \<Rightarrow> (tok \<times> unicode) option" where
  "lex_token cs =
     (case cs of
        [] \<Rightarrow> None
      | c # cs1 \<Rightarrow>
          (case punctuation c of
             Some t \<Rightarrow> Some (t, cs1)
           | None \<Rightarrow>
               if c = 34 then map_option (\<lambda>(s, rest). (Scalar (PStr s), rest)) (lex_string cs1)
               else (case lex_constant json_constants cs of
                       Some r \<Rightarrow> Some r
                     | None \<Rightarrow> lex_number cs)))"

lemma lex_integer_shorter: "lex_integer cs = Some (ds, cs') \<Longrightarrow> length cs' < length cs"
  by (cases cs)
    (auto simp: lex_integer_def lex_digits_def intro: le_less_trans [OF length_dropWhile_le] split: if_splits)

lemma lex_fraction_shorter: "lex_fraction cs = (f, cs') \<Longrightarrow> length cs' \<le> length cs"
  by (auto simp: lex_fraction_def split: list.splits if_splits
      intro: le_trans [OF length_dropWhile_le] le_SucI)

lemma lex_exponent_shorter: "lex_exponent cs = (f, cs') \<Longrightarrow> length cs' \<le> length cs"
  by (auto simp: lex_exponent_def Let_def split: list.splits if_splits
      intro: le_trans [OF length_dropWhile_le] le_SucI)

lemma lex_number_shorter: "lex_number cs = Some (t, cs') \<Longrightarrow> length cs' < length cs"
  by (cases cs)
    (auto simp: lex_number_def Let_def split: option.splits prod.splits if_splits
      dest!: lex_integer_shorter lex_fraction_shorter lex_exponent_shorter)

lemma lex_constant_shorter:
  "lex_constant ks cs = Some (t, cs') \<Longrightarrow> \<forall>(name, v) \<in> set ks. name \<noteq> [] \<Longrightarrow> length cs' < length cs"
  by (induction ks cs rule: lex_constant.induct)
    (auto split: if_splits, metis length_greater_0_conv length_take min_less_iff_conj diff_less)

lemma lex_token_shorter: "lex_token cs = Some (t, cs') \<Longrightarrow> length cs' < length cs"
  by (auto simp: lex_token_def less_Suc_eq_le json_constants_def split: list.splits option.splits if_splits
      dest!: lex_string_shorter lex_constant_shorter lex_number_shorter)

function tokens :: "unicode \<Rightarrow> tok list" where
  "tokens cs =
     (case cs of
        [] \<Rightarrow> []
      | c # cs1 \<Rightarrow>
          if json_space c then tokens cs1
          else
            (case lex_token cs of
               None \<Rightarrow> [Bad]
             | Some (t, rest) \<Rightarrow> t # tokens rest))"
  by pat_completeness auto
termination by (relation "measure length") (auto dest: lex_token_shorter)

declare tokens.simps [simp del]

section \<open>The machine\<close>

text \<open>An open array with its elements, or an open object with its members and the current key.\<close>

datatype frame = In_array "jval list" | In_object "(unicode \<times> jval) list" unicode

datatype json_mode =
    Want_value
  | Want_first_value
  | Want_first_key "(unicode \<times> jval) list"
  | Want_key "(unicode \<times> jval) list"
  | Want_colon "(unicode \<times> jval) list" unicode
  | Complete jval

fun json_run :: "nat \<Rightarrow> json_mode \<Rightarrow> frame list \<Rightarrow> tok list \<Rightarrow> exc + jval" where
  "json_run lim (Complete v) [] [] = Inr v"
| "json_run lim (Complete v) [] (t # ts) = Inl json_error"
| "json_run lim m fs [] = Inl json_error"
| "json_run lim (Complete v) (In_array vs # fs) (t # ts) =
     (case t of
        Comma \<Rightarrow> json_run lim Want_value (In_array (vs @ [v]) # fs) ts
      | Close_array \<Rightarrow> json_run lim (Complete (PArr (vs @ [v]))) fs ts
      | _ \<Rightarrow> Inl json_error)"
| "json_run lim (Complete v) (In_object kvs k # fs) (t # ts) =
     (case t of
        Comma \<Rightarrow> json_run lim (Want_key (kvs @ [(k, v)])) fs ts
      | Close_object \<Rightarrow> json_run lim (Complete (PObj (kvs @ [(k, v)]))) fs ts
      | _ \<Rightarrow> Inl json_error)"
| "json_run lim (Want_first_key kvs) fs (t # ts) =
     (case t of
        Close_object \<Rightarrow> json_run lim (Complete (PObj kvs)) fs ts
      | Scalar (PStr k) \<Rightarrow> json_run lim (Want_colon kvs k) fs ts
      | _ \<Rightarrow> Inl json_error)"
| "json_run lim (Want_key kvs) fs (t # ts) =
     (case t of
        Scalar (PStr k) \<Rightarrow> json_run lim (Want_colon kvs k) fs ts
      | _ \<Rightarrow> Inl json_error)"
| "json_run lim (Want_colon kvs k) fs (t # ts) =
     (case t of
        Colon \<Rightarrow> json_run lim Want_value (In_object kvs k # fs) ts
      | _ \<Rightarrow> Inl json_error)"
| "json_run lim m fs (t # ts) =
     (case t of
        Scalar v \<Rightarrow> json_run lim (Complete v) fs ts
      | Open_array \<Rightarrow>
          if lim \<le> length fs then Inl RecursionError
          else json_run lim Want_first_value (In_array [] # fs) ts
      | Open_object \<Rightarrow>
          if lim \<le> length fs then Inl RecursionError
          else json_run lim (Want_first_key []) fs ts
      | Close_array \<Rightarrow>
          (case (m, fs) of
             (Want_first_value, In_array vs # fs') \<Rightarrow> json_run lim (Complete (PArr vs)) fs' ts
           | _ \<Rightarrow> Inl json_error)
      | _ \<Rightarrow> Inl json_error)"

text \<open>\<open>json.loads\<close> of a text with no byte order mark, under the given nesting limit.\<close>

definition json_loads :: "nat \<Rightarrow> unicode \<Rightarrow> exc + jval" where
  "json_loads lim cs = json_run lim Want_value [] (tokens cs)"

text \<open>\<open>d[k]\<close> and \<open>set(d)\<close>: of repeated members the last counts.\<close>

definition member :: "(unicode \<times> jval) list \<Rightarrow> unicode \<Rightarrow> jval option" where
  "member kvs k = map_of (rev kvs) k"

end
