(* ===== verification/Py_Iso.thy ===== *)
theory Py_Iso
  imports Py_Json
begin

text \<open>
  Text forms: \<open>str(uuid)\<close> and \<open>uuid.UUID(text)\<close>, the proleptic Gregorian calendar,
  \<open>isoformat(timespec="microseconds")\<close> of a UTC datetime and \<open>datetime.fromisoformat\<close>. The readers are
  defined outright on the texts the writers produce (for UUIDs: on every ASCII text); what the
  library does on the other ISO 8601 shapes, and on UUIDs with non-ASCII digits, is a parameter.
\<close>

section \<open>Replacing\<close>

text \<open>\<open>str.replace\<close> with a nonempty first argument.\<close>

fun replace_all :: "unicode \<Rightarrow> unicode \<Rightarrow> unicode \<Rightarrow> unicode" where
  "replace_all old new [] = []"
| "replace_all old new (c # cs) =
     (if take (length old) (c # cs) = old
      then new @ replace_all old new (drop (length old - 1) cs)
      else c # replace_all old new cs)"

lemma replace_all_absent: "x \<in> set old \<Longrightarrow> x \<notin> set cs \<Longrightarrow> replace_all old new cs = cs"
proof (induction cs)
  case (Cons c cs)
  have "take (length old) (c # cs) \<noteq> old" using Cons.prems by (metis in_set_takeD)
  then show ?case using Cons by simp
qed simp

lemma replace_all_suffix:
  "old \<noteq> [] \<Longrightarrow> hd old \<notin> set cs \<Longrightarrow> replace_all old new (cs @ old) = cs @ new"
proof (induction cs)
  case Nil
  then show ?case by (cases old) simp_all
next
  case (Cons c cs)
  have "take (length old) (c # cs @ old) \<noteq> old" using Cons.prems by (cases old) auto
  then show ?case using Cons by simp
qed

section \<open>Digits\<close>

text \<open>\<open>f"{n:0{w}d}"\<close> for \<open>n < 10 ^ w\<close>\<close>

fun padded :: "nat \<Rightarrow> nat \<Rightarrow> unicode" where
  "padded 0 n = []"
| "padded (Suc w) n = padded w (n div 10) @ [48 + n mod 10]"

lemma padded_length [simp]: "length (padded w n) = w"
  by (induction w n rule: padded.induct) simp_all

lemma padded_digits: "\<forall>c \<in> set (padded w n). digit c"
  by (induction w n rule: padded.induct) (auto simp: digit_def)

lemma digits_value_snoc: "digits_value (ds @ [c]) = digits_value ds * 10 + (c - 48)"
  by (simp add: digits_value_def)

lemma digits_value_padded: "n < 10 ^ w \<Longrightarrow> digits_value (padded w n) = n"
proof (induction w arbitrary: n)
  case 0
  then show ?case by (simp add: digits_value_def)
next
  case (Suc w)
  then have "n div 10 < 10 ^ w" by simp
  then show ?case using Suc.IH by (simp add: digits_value_snoc)
qed

section \<open>UUIDs\<close>

definition hex_char :: "nat \<Rightarrow> nat" where
  "hex_char v = (if v < 10 then 48 + v else 87 + v)"

text \<open>The \<open>w\<close> lowest hexadecimal digits, most significant first.\<close>

fun hex_written :: "nat \<Rightarrow> nat \<Rightarrow> unicode" where
  "hex_written 0 n = []"
| "hex_written (Suc w) n = hex_written w (n div 16) @ [hex_char (n mod 16)]"

definition uuid_hex :: "uuid \<Rightarrow> unicode" where
  "uuid_hex u = hex_written 32 (unat u)"

definition uuid_str :: "uuid \<Rightarrow> unicode" where
  "uuid_str u =
     (let h = uuid_hex u in
      take 8 h @ [45] @ take 4 (drop 8 h) @ [45] @ take 4 (drop 12 h) @ [45] @ take 4 (drop 16 h) @ [45] @ drop 20 h)"

text \<open>\<open>int(s, 16)\<close> of an ASCII text: white space around, a sign, the prefix, digits with single underscores.\<close>

definition c_space :: "nat \<Rightarrow> bool" where
  "c_space c \<longleftrightarrow> c = 32 \<or> (9 \<le> c \<and> c \<le> 13)"

definition strip_while :: "(nat \<Rightarrow> bool) \<Rightarrow> unicode \<Rightarrow> unicode" where
  "strip_while p s = rev (dropWhile p (rev (dropWhile p s)))"

fun hex_run :: "nat \<Rightarrow> bool \<Rightarrow> unicode \<Rightarrow> nat option" where
  "hex_run acc after_digit [] = (if after_digit then Some acc else None)"
| "hex_run acc after_digit (c # cs) =
     (if c = 95 then (if after_digit then hex_run acc False cs else None)
      else (case hex_value c of None \<Rightarrow> None | Some v \<Rightarrow> hex_run (acc * 16 + v) True cs))"

definition drop_plus :: "unicode \<Rightarrow> unicode" where
  "drop_plus s = (case s of c # cs \<Rightarrow> if c = 43 then cs else s | [] \<Rightarrow> [])"

definition drop_hex_prefix :: "unicode \<Rightarrow> unicode" where
  "drop_hex_prefix s =
     (if take 2 s = [48, 120] \<or> take 2 s = [48, 88]
      then (case drop 2 s of c # cs \<Rightarrow> if c = 95 then cs else drop 2 s | [] \<Rightarrow> [])
      else s)"

definition int_base16 :: "unicode \<Rightarrow> nat option" where
  "int_base16 s = hex_run 0 False (drop_hex_prefix (drop_plus (strip_while c_space s)))"

definition uuid_error :: exc where
  "uuid_error = ValueError ''badly formed hexadecimal UUID string''"

definition parse_uuid :: "(unicode \<Rightarrow> exc + uuid) \<Rightarrow> unicode \<Rightarrow> exc + uuid" where
  "parse_uuid other s =
     (if \<not> ascii s then other s
      else
        (let s1 = replace_all (codes ''uuid:'') [] (replace_all (codes ''urn:'') [] s);
             s2 = filter (\<lambda>c. c \<noteq> 45) (strip_while (\<lambda>c. c = 123 \<or> c = 125) s1) in
         if length s2 \<noteq> 32 then Inl uuid_error
         else (case int_base16 s2 of None \<Rightarrow> Inl uuid_error | Some n \<Rightarrow> Inr (of_nat n))))"

lemma hex_char_range: "v < 16 \<Longrightarrow> digit (hex_char v) \<or> (97 \<le> hex_char v \<and> hex_char v \<le> 102)"
  by (auto simp: hex_char_def digit_def)

lemma hex_value_char [simp]: "v < 16 \<Longrightarrow> hex_value (hex_char v) = Some v"
  by (auto simp: hex_value_def hex_char_def digit_def)

definition lower_hex :: "unicode \<Rightarrow> bool" where
  "lower_hex s \<longleftrightarrow> (\<forall>c \<in> set s. digit c \<or> (97 \<le> c \<and> c \<le> 102))"

lemma hex_written_lower: "lower_hex (hex_written w n)"
proof (induction w n rule: hex_written.induct)
  case (2 w n)
  then show ?case using hex_char_range [of "n mod 16"] by (auto simp: lower_hex_def)
qed (simp add: lower_hex_def)

lemma hex_written_length [simp]: "length (hex_written w n) = w"
  by (induction w n rule: hex_written.induct) simp_all

text \<open>Reading back the digits written.\<close>

lemma hex_run_snoc:
  "hex_run acc b cs = Some n \<Longrightarrow> v < 16 \<Longrightarrow> hex_run acc b (cs @ [hex_char v]) = Some (n * 16 + v)"
proof (induction acc b cs rule: hex_run.induct)
  case (1 acc b)
  moreover have "hex_char v \<noteq> 95" using hex_char_range [OF 1(2)] by (auto simp: digit_def)
  ultimately show ?case by (simp split: if_splits)
qed (auto split: if_splits option.splits)

lemma hex_run_written: "0 < w \<Longrightarrow> n < 16 ^ w \<Longrightarrow> hex_run 0 False (hex_written w n) = Some n"
proof (induction w n rule: hex_written.induct)
  case (2 w n)
  have v: "n mod 16 < 16" by simp
  show ?case
  proof (cases w)
    case 0
    then have "n < 16" using 2 by simp
    moreover have "hex_char n \<noteq> 95" using hex_char_range [OF \<open>n < 16\<close>] by (auto simp: digit_def)
    ultimately show ?thesis using 0 by simp
  next
    case (Suc w')
    have "n div 16 < 16 ^ w" using "2.prems" by simp
    then have "hex_run 0 False (hex_written w (n div 16)) = Some (n div 16)" using 2 Suc by simp
    from hex_run_snoc [OF this v] show ?thesis by simp
  qed
qed simp

lemma strip_while_id: "s \<noteq> [] \<Longrightarrow> \<not> p (hd s) \<Longrightarrow> \<not> p (last s) \<Longrightarrow> strip_while p s = s"
proof -
  assume s: "s \<noteq> []" "\<not> p (hd s)" "\<not> p (last s)"
  then have "dropWhile p s = s" by (cases s) simp_all
  moreover have "dropWhile p (rev s) = rev s" using s(1,3) by (cases s rule: rev_cases) simp_all
  ultimately show ?thesis by (simp add: strip_while_def)
qed

lemma lower_hex_in: "lower_hex s \<Longrightarrow> c \<in> set s \<Longrightarrow> digit c \<or> (97 \<le> c \<and> c \<le> 102)"
  by (simp add: lower_hex_def)

lemma int_base16_written:
  assumes "0 < w" and "n < 16 ^ w"
  shows "int_base16 (hex_written w n) = Some n"
proof -
  let ?s = "hex_written w n"
  have low: "digit c \<or> (97 \<le> c \<and> c \<le> 102)" if "c \<in> set ?s" for c
    using lower_hex_in [OF hex_written_lower that] .
  obtain c cs where s: "?s = c # cs" using assms(1) by (cases ?s) (auto dest: arg_cong [of _ _ length])
  have no: "\<not> c_space x \<and> x \<noteq> 43 \<and> x \<noteq> 120 \<and> x \<noteq> 88 \<and> x \<noteq> 95" if "x \<in> set ?s" for x
    using low [OF that] by (auto simp: c_space_def digit_def)
  have "strip_while c_space ?s = ?s"
    using no s by (intro strip_while_id) (auto simp: s)
  moreover have "drop_plus ?s = ?s" using no [of c] by (simp add: s drop_plus_def)
  moreover have "drop_hex_prefix ?s = ?s"
    using no unfolding drop_hex_prefix_def by (metis in_set_takeD list.set_intros(1) list.set_intros(2))
  ultimately show ?thesis
    using hex_run_written [OF assms] by (simp add: int_base16_def)
qed

lemma uuid_str_parts:
  "set (uuid_str u) \<subseteq> insert 45 (set (uuid_hex u))" "length (uuid_str u) = 36"
  "filter (\<lambda>c. c \<noteq> 45) (uuid_str u) = uuid_hex u"
proof -
  let ?h = "uuid_hex u"
  have len: "length ?h = 32" by (simp add: uuid_hex_def)
  have split: "?h = take 8 ?h @ take 4 (drop 8 ?h) @ take 4 (drop 12 ?h) @ take 4 (drop 16 ?h) @ drop 20 ?h"
    by (rule nth_equalityI) (auto simp: len nth_append)
  have no: "45 \<notin> set ?h"
    using lower_hex_in [OF hex_written_lower, of 45 32 "unat u"] by (auto simp: uuid_hex_def digit_def)
  have clean: "filter (\<lambda>c. c \<noteq> 45) xs = xs" if "set xs \<subseteq> set ?h" for xs
    using that no by (auto simp: filter_id_conv)
  show "set (uuid_str u) \<subseteq> insert 45 (set ?h)"
    by (auto simp: uuid_str_def Let_def dest: in_set_takeD in_set_dropD)
  show "length (uuid_str u) = 36" by (simp add: uuid_str_def Let_def len)
  show "filter (\<lambda>c. c \<noteq> 45) (uuid_str u) = ?h"
  proof -
    have "filter (\<lambda>c. c \<noteq> 45) (take n (drop m ?h)) = take n (drop m ?h)"
      "filter (\<lambda>c. c \<noteq> 45) (take n ?h) = take n ?h" "filter (\<lambda>c. c \<noteq> 45) (drop m ?h) = drop m ?h" for n m
      by (rule clean, blast dest: in_set_takeD in_set_dropD)+
    then show ?thesis by (simp add: uuid_str_def Let_def split [symmetric])
  qed
qed

lemma parse_uuid_str: "parse_uuid other (uuid_str u) = Inr u"
proof -
  let ?s = "uuid_str u"
  have range: "digit c \<or> (97 \<le> c \<and> c \<le> 102) \<or> c = 45" if "c \<in> set ?s" for c
    using that uuid_str_parts(1) [of u] lower_hex_in [OF hex_written_lower, of c 32 "unat u"]
    by (auto simp: uuid_hex_def)
  then have ascii: "ascii ?s" by (fastforce simp: ascii_def digit_def)
  have "117 \<notin> set ?s" using range [of 117] by (auto simp: digit_def)
  then have "replace_all (codes ''uuid:'') [] (replace_all (codes ''urn:'') [] ?s) = ?s"
    using replace_all_absent [of 117 "codes ''urn:''" ?s "[]"] replace_all_absent [of 117 "codes ''uuid:''" ?s "[]"]
    by simp
  moreover have "strip_while (\<lambda>c. c = 123 \<or> c = 125) ?s = ?s"
  proof (rule strip_while_id)
    show ne: "?s \<noteq> []" using uuid_str_parts(2) [of u] by auto
    show "\<not> (hd ?s = 123 \<or> hd ?s = 125)" "\<not> (last ?s = 123 \<or> last ?s = 125)"
      using range [OF hd_in_set [OF ne]] range [OF last_in_set [OF ne]] by (auto simp: digit_def)
  qed
  moreover have "int_base16 (uuid_hex u) = Some (unat u)"
    unfolding uuid_hex_def by (rule int_base16_written) (use unsigned_less [of u] in simp_all)
  ultimately show ?thesis
    using ascii uuid_str_parts(3) [of u] by (simp add: parse_uuid_def Let_def uuid_hex_def)
qed

interpretation uuid_text: text_codec "\<lambda>u. True" uuid_str "parse_uuid other" for other
  by unfold_locales (rule parse_uuid_str)

section \<open>The calendar\<close>

definition leap :: "nat \<Rightarrow> bool" where
  "leap y \<longleftrightarrow> y mod 4 = 0 \<and> (y mod 100 \<noteq> 0 \<or> y mod 400 = 0)"

definition days_in_month :: "nat \<Rightarrow> nat \<Rightarrow> nat" where
  "days_in_month y m = (if m = 2 then (if leap y then 29 else 28) else if m \<in> {4, 6, 9, 11} then 30 else 31)"

text \<open>Days before January 1 of the year, and before the first of the month.\<close>

definition days_before_year :: "nat \<Rightarrow> nat" where
  "days_before_year y = (let p = y - 1 in p * 365 + p div 4 - p div 100 + p div 400)"

fun days_before_month :: "nat \<Rightarrow> nat \<Rightarrow> nat" where
  "days_before_month y 0 = 0"
| "days_before_month y (Suc m) = (if m = 0 then 0 else days_before_month y m + days_in_month y m)"

text \<open>Days since 0001-01-01 of a date.\<close>

definition days_of_ymd :: "nat \<times> nat \<times> nat \<Rightarrow> nat" where
  "days_of_ymd ymd = (case ymd of (y, m, d) \<Rightarrow> days_before_year y + days_before_month y m + (d - 1))"

text \<open>The year containing a day: by cycles of 400, 100, 4 and 1 years, and the day of the year.\<close>

definition year_of_days :: "nat \<Rightarrow> nat \<times> nat" where
  "year_of_days n =
     (let n400 = n div 146097; r400 = n mod 146097;
          n100 = r400 div 36524; r100 = r400 mod 36524;
          n4 = r100 div 1461; r4 = r100 mod 1461;
          n1 = r4 div 365; r1 = r4 mod 365;
          year = n400 * 400 + n100 * 100 + n4 * 4 + n1 + 1 in
      if n1 = 4 \<or> n100 = 4 then (year - 1, 365) else (year, r1))"

text \<open>The month containing a day of the year, counting on from month \<open>m\<close>.\<close>

function find_month :: "nat \<Rightarrow> nat \<Rightarrow> nat \<Rightarrow> nat \<times> nat" where
  "find_month y m n =
     (if m \<ge> 12 \<or> n < days_in_month y m then (m, n + 1) else find_month y (m + 1) (n - days_in_month y m))"
  by pat_completeness auto
termination by (relation "measure (\<lambda>(y, m, n). 12 - m)") auto

declare find_month.simps [simp del]

definition ymd_of_days :: "nat \<Rightarrow> nat \<times> nat \<times> nat" where
  "ymd_of_days n = (case year_of_days n of (y, r) \<Rightarrow> (case find_month y 1 r of (m, d) \<Rightarrow> (y, m, d)))"

lemma days_in_month_bounds: "28 \<le> days_in_month y m \<and> days_in_month y m \<le> 31"
  by (simp add: days_in_month_def)

text \<open>A year as its position in the cycles.\<close>

lemma cycles:
  fixes a b c e :: nat
  assumes "b \<le> 3" and "c \<le> 24" and "e \<le> 3"
  defines "p \<equiv> a * 400 + b * 100 + c * 4 + e"
  shows "p div 4 = a * 100 + b * 25 + c" and "p div 100 = a * 4 + b" and "p div 400 = a"
    and "days_before_year (p + 1) = a * 146097 + b * 36524 + c * 1461 + e * 365"
    and "leap (p + 1) \<longleftrightarrow> e = 3 \<and> (c = 24 \<longrightarrow> b = 3)"
proof -
  show d: "p div 4 = a * 100 + b * 25 + c" "p div 100 = a * 4 + b" "p div 400 = a"
    by (rule div_nat_eqI; use assms(1-3) in \<open>simp add: p_def\<close>)+
  show "days_before_year (p + 1) = a * 146097 + b * 36524 + c * 1461 + e * 365"
    unfolding days_before_year_def Let_def by (simp add: d) (simp add: p_def)
  show "leap (p + 1) \<longleftrightarrow> e = 3 \<and> (c = 24 \<longrightarrow> b = 3)"
  proof (cases "e = 3")
    case False
    have "p + 1 = (e + 1) + (a * 100 + b * 25 + c) * 4" by (simp add: p_def)
    then have "(p + 1) mod 4 = (e + 1) mod 4" by (simp only: mod_mult_self1)
    then have "(p + 1) mod 4 = e + 1" using False assms(3) by simp
    then show ?thesis using False by (simp add: leap_def)
  next
    case True
    then have "(p + 1) mod 4 = 0" by (simp add: p_def)
    moreover have "(p + 1) mod 100 = (c + 1) * 4 mod 100"
    proof -
      have "p + 1 = (c + 1) * 4 + (a * 4 + b) * 100" using True by (simp add: p_def)
      then show ?thesis by (simp only: mod_mult_self1)
    qed
    then have "(p + 1) mod 100 = 0 \<longleftrightarrow> c = 24" using assms(2) by (cases "c = 24") simp_all
    moreover have "(p + 1) mod 400 = 0 \<longleftrightarrow> b = 3" if "c = 24"
    proof -
      have "p + 1 = (b + 1) * 100 + a * 400" using True that by (simp add: p_def)
      then have "(p + 1) mod 400 = (b + 1) * 100 mod 400" by (simp only: mod_mult_self1)
      then show ?thesis using assms(1) by (cases "b = 3") simp_all
    qed
    ultimately show ?thesis using True by (auto simp: leap_def)
  qed
qed

definition year_length :: "nat \<Rightarrow> nat" where
  "year_length y = (if leap y then 366 else 365)"

lemma year_of_days_ok:
  assumes "year_of_days n = (y, r)"
  shows "1 \<le> y \<and> n = days_before_year y + r \<and> r < year_length y"
proof -
  define a where "a = n div 146097"
  define b where "b = n mod 146097 div 36524"
  define c where "c = n mod 146097 mod 36524 div 1461"
  define e where "e = n mod 146097 mod 36524 mod 1461 div 365"
  define r1 where "r1 = n mod 146097 mod 36524 mod 1461 mod 365"
  have n: "n = a * 146097 + b * 36524 + c * 1461 + e * 365 + r1"
    unfolding a_def b_def c_def e_def r1_def by presburger
  have r4: "e * 365 + r1 < 1461" unfolding e_def r1_def by simp
  have r100: "c * 1461 + (e * 365 + r1) < 36524" unfolding c_def e_def r1_def by simp
  have r400: "b * 36524 + (c * 1461 + (e * 365 + r1)) < 146097"
    unfolding b_def c_def e_def r1_def by simp
  have r1: "r1 < 365" by (simp add: r1_def)
  have bounds: "b \<le> 4" "c \<le> 24" "e \<le> 4" using r400 r100 r4 by linarith+
  have "year_of_days n = (if e = 4 \<or> b = 4 then (a * 400 + b * 100 + c * 4 + e, 365)
      else (a * 400 + b * 100 + c * 4 + e + 1, r1))"
    unfolding year_of_days_def Let_def a_def b_def c_def e_def r1_def by simp
  then have result: "(y, r) = (if e = 4 \<or> b = 4 then (a * 400 + b * 100 + c * 4 + e, 365)
      else (a * 400 + b * 100 + c * 4 + e + 1, r1))"
    using assms by simp
  consider (b) "b = 4" | (e) "e = 4" "b \<le> 3" | (normal) "e \<le> 3" "b \<le> 3" using bounds by linarith
  then show ?thesis
  proof cases
    case b
    then have z: "c = 0" "e = 0" "r1 = 0" using r400 by linarith+
    then have "y = (a * 400 + 3 * 100 + 24 * 4 + 3) + 1" "r = 365" using b result by simp_all
    then show ?thesis using cycles(4,5) [of 3 24 3 a] n b z by (simp add: year_length_def)
  next
    case e
    then have z: "r1 = 0" "c \<noteq> 24" using r4 r100 by auto
    then have "y = (a * 400 + b * 100 + c * 4 + 3) + 1" "r = 365" using e result by simp_all
    then show ?thesis using cycles(4,5) [of b c 3 a] n e z bounds by (simp add: year_length_def)
  next
    case normal
    then have "y = (a * 400 + b * 100 + c * 4 + e) + 1" "r = r1" using result by simp_all
    then show ?thesis using cycles(4) [of b c e a] n r1 normal bounds by (simp add: year_length_def)
  qed
qed

lemma days_before_december: "days_before_month y 12 + 31 = year_length y"
  by (simp add: numeral_eq_Suc days_in_month_def year_length_def)

lemma find_month_ok:
  "find_month y m n = (m', d) \<Longrightarrow> 1 \<le> m \<Longrightarrow> m \<le> 12 \<Longrightarrow> days_before_month y m + n < year_length y \<Longrightarrow>
   1 \<le> m' \<and> m' \<le> 12 \<and> 1 \<le> d \<and> d \<le> days_in_month y m' \<and>
   days_before_month y m' + (d - 1) = days_before_month y m + n"
proof (induction y m n rule: find_month.induct)
  case (1 y m n)
  show ?case
  proof (cases "n < days_in_month y m")
    case True
    then have "m' = m" "d = n + 1" using "1.prems"(1) by (simp_all add: find_month.simps [of y m n])
    then show ?thesis using True "1.prems" by simp
  next
    case False
    have "m \<noteq> 12"
    proof
      assume m: "m = 12"
      have "days_in_month y 12 = 31" by (simp add: days_in_month_def)
      then show False using False "1.prems"(4) days_before_december [of y] m by simp
    qed
    then have m: "\<not> (m \<ge> 12 \<or> n < days_in_month y m)" using False "1.prems"(3) by simp
    have "find_month y (m + 1) (n - days_in_month y m) = (m', d)"
      using "1.prems"(1) m by (simp add: find_month.simps [of y m n])
    moreover have "days_before_month y (m + 1) + (n - days_in_month y m) = days_before_month y m + n"
      using False "1.prems"(2) by simp
    ultimately show ?thesis using "1.IH" [OF m] "1.prems" m by simp
  qed
qed

text \<open>The calendar is right: the date found is a date, and its day is the one given.\<close>

lemma ymd_of_days_ok:
  assumes "ymd_of_days n = (y, m, d)"
  shows "1 \<le> y \<and> 1 \<le> m \<and> m \<le> 12 \<and> 1 \<le> d \<and> d \<le> days_in_month y m \<and> days_of_ymd (y, m, d) = n"
proof -
  obtain r where yr: "year_of_days n = (y, r)" and md: "find_month y 1 r = (m, d)"
    using assms by (auto simp: ymd_of_days_def split: prod.splits)
  note yr = year_of_days_ok [OF yr]
  then show ?thesis using find_month_ok [OF md] by (simp add: days_of_ymd_def) linarith
qed

lemma days_before_year_mono: "y \<le> y' \<Longrightarrow> days_before_year y \<le> days_before_year y'"
proof (induction y' rule: dec_induct)
  case (step n)
  have "days_before_year n \<le> days_before_year (Suc n)"
  proof (cases n)
    case (Suc p)
    show ?thesis unfolding days_before_year_def Let_def Suc by simp
  qed (simp add: days_before_year_def)
  with step show ?case by simp
qed simp

lemma ymd_of_days_year: "ymd_of_days n = (y, m, d) \<Longrightarrow> n < 3652059 \<Longrightarrow> y \<le> 9999"
proof (rule ccontr)
  assume ymd: "ymd_of_days n = (y, m, d)" and n: "n < 3652059" and "\<not> y \<le> 9999"
  then have "days_before_year 10000 \<le> days_before_year y" by (intro days_before_year_mono) simp
  moreover have "days_before_year 10000 = 3652059" by (simp add: days_before_year_def)
  moreover have "days_before_year y \<le> n" using ymd_of_days_ok [OF ymd] by (simp add: days_of_ymd_def)
  ultimately show False using n by simp
qed

section \<open>ISO 8601\<close>

text \<open>\<open>isoformat(timespec="microseconds")\<close> of the UTC datetime of an instant.\<close>

definition iso_local :: "nat \<Rightarrow> unicode" where
  "iso_local us =
     (case ymd_of_days (us div 86400000000) of (y, m, d) \<Rightarrow>
       (let secs = us div 1000000 in
        padded 4 y @ [45] @ padded 2 m @ [45] @ padded 2 d @ [84] @
        padded 2 (secs div 3600 mod 24) @ [58] @ padded 2 (secs div 60 mod 60) @ [58] @ padded 2 (secs mod 60) @
        [46] @ padded 6 (us mod 1000000)))"

definition isoformat_utc :: "instant \<Rightarrow> unicode" where
  "isoformat_utc t = iso_local (nat t) @ codes ''+00:00''"

text \<open>
  \<open>datetime.fromisoformat\<close> on the shape \<open>YYYY-MM-DDTHH:MM:SS.ffffff+00:00\<close>; the fields out of range are a
  ValueError. Other texts are the parameter's business.
\<close>

fun matches :: "string \<Rightarrow> unicode \<Rightarrow> bool" where
  "matches [] s = (s = [])"
| "matches (p # ps) [] = False"
| "matches (p # ps) (c # cs) = ((if p = CHR ''9'' then digit c else c = of_char p) \<and> matches ps cs)"

definition iso_shape :: "unicode \<Rightarrow> bool" where
  "iso_shape = matches ''9999-99-99T99:99:99.999999+00:00''"

definition field :: "unicode \<Rightarrow> nat \<Rightarrow> nat \<Rightarrow> nat" where
  "field s i n = digits_value (take n (drop i s))"

definition fromisoformat :: "(unicode \<Rightarrow> exc + pydatetime) \<Rightarrow> unicode \<Rightarrow> exc + pydatetime" where
  "fromisoformat other s =
     (if \<not> iso_shape s then other s
      else
        (let y = field s 0 4; m = field s 5 2; d = field s 8 2;
             hh = field s 11 2; mm = field s 14 2; ss = field s 17 2; us = field s 20 6 in
         if 1 \<le> y \<and> 1 \<le> m \<and> m \<le> 12 \<and> 1 \<le> d \<and> d \<le> days_in_month y m \<and> hh < 24 \<and> mm < 60 \<and> ss < 60
         then Inr (utc_datetime
                (int ((((days_of_ymd (y, m, d) * 24 + hh) * 60 + mm) * 60 + ss) * 1000000 + us)))
         else Inl (ValueError ''Invalid isoformat string'')))"

lemma matches_append:
  "length s = length ps \<Longrightarrow> matches (ps @ qs) (s @ t) \<longleftrightarrow> matches ps s \<and> matches qs t"
  by (induction ps s rule: matches.induct) auto

lemma matches_digits: "\<forall>c \<in> set s. digit c \<Longrightarrow> matches (replicate (length s) (CHR ''9'')) s"
  by (induction s) simp_all

lemma padded_matches: "matches (replicate w (CHR ''9'')) (padded w n)"
  using matches_digits [OF padded_digits, of w n] by simp

lemma padded_4_2_6: "matches ''9999'' (padded 4 n)" "matches ''99'' (padded 2 n)" "matches ''999999'' (padded 6 n)"
  using padded_matches [of 4 n] padded_matches [of 2 n] padded_matches [of 6 n]
  by (simp_all only: numeral_eq_Suc pred_numeral_simps replicate.simps BitM.simps One_nat_def replicate_0)

text \<open>The time of day, taken apart and put together.\<close>

lemma time_of_day:
  fixes us :: nat
  shows "(((us div 86400000000 * 24 + us div 1000000 div 3600 mod 24) * 60 + us div 1000000 div 60 mod 60) * 60 +
    us div 1000000 mod 60) * 1000000 + us mod 1000000 = us"
proof -
  define secs where "secs = us div 1000000"
  define mins where "mins = secs div 60"
  define hours where "hours = mins div 60"
  have "secs div 3600 = hours" by (simp add: hours_def mins_def flip: div_mult2_eq)
  moreover have "us div 86400000000 = hours div 24"
    by (simp add: hours_def mins_def secs_def flip: div_mult2_eq)
  moreover have "hours div 24 * 24 + hours mod 24 = hours" "hours * 60 + mins mod 60 = mins"
    "mins * 60 + secs mod 60 = secs" "secs * 1000000 + us mod 1000000 = us"
    by (simp_all add: hours_def mins_def secs_def)
  ultimately show ?thesis by (simp only: secs_def [symmetric] mins_def [symmetric])
qed

lemma iso_shape_parts:
  "iso_shape (padded 4 y @ [45] @ padded 2 m @ [45] @ padded 2 d @ [84] @ padded 2 hh @ [58] @ padded 2 mm @ [58] @
     padded 2 ss @ [46] @ padded 6 us @ codes ''+00:00'')"
proof -
  have pattern: "''9999-99-99T99:99:99.999999+00:00'' =
      ''9999'' @ ''-'' @ ''99'' @ ''-'' @ ''99'' @ ''T'' @ ''99'' @ '':'' @ ''99'' @ '':'' @ ''99'' @ ''.'' @ ''999999'' @ ''+00:00''"
    by simp
  show ?thesis
    unfolding iso_shape_def pattern
    by (simp only: matches_append padded_length list.size add_0 add_0_right One_nat_def padded_4_2_6)
      (simp add: matches_append padded_4_2_6)
qed

lemma field_parts:
  fixes y m d hh mm ss us zone
  defines "s \<equiv> padded 4 y @ [45] @ padded 2 m @ [45] @ padded 2 d @ [84] @ padded 2 hh @ [58] @ padded 2 mm @ [58] @
     padded 2 ss @ [46] @ padded 6 us @ zone"
  shows "field s 0 4 = digits_value (padded 4 y)" "field s 5 2 = digits_value (padded 2 m)"
    "field s 8 2 = digits_value (padded 2 d)" "field s 11 2 = digits_value (padded 2 hh)"
    "field s 14 2 = digits_value (padded 2 mm)" "field s 17 2 = digits_value (padded 2 ss)"
    "field s 20 6 = digits_value (padded 6 us)"
  unfolding s_def by (simp_all add: field_def)

lemma fromisoformat_iso:
  assumes "datetime_in_range t"
  shows "fromisoformat other (isoformat_utc t) = Inr (utc_datetime t)"
proof -
  define us where "us = nat t"
  have t: "t = int us" and us: "us < 3652059 * 86400000000"
    using assms by (simp_all add: us_def datetime_in_range_def datetime_limit_def day_us_def nat_less_iff)
  obtain y m d where ymd: "ymd_of_days (us div 86400000000) = (y, m, d)" by (cases "ymd_of_days (us div 86400000000)")
  note date = ymd_of_days_ok [OF ymd]
  then have days: "days_of_ymd (y, m, d) = us div 86400000000" by simp
  have "us div 86400000000 < 3652059" using us by (simp add: less_mult_imp_div_less)
  then have "y \<le> 9999" by (rule ymd_of_days_year [OF ymd])
  moreover have "d \<le> 31" using date days_in_month_bounds [of y m] by simp
  ultimately have vals: "digits_value (padded 4 y) = y" "digits_value (padded 2 m) = m" "digits_value (padded 2 d) = d"
    "digits_value (padded 2 (n mod 24)) = n mod 24" "digits_value (padded 2 (n mod 60)) = n mod 60"
    "digits_value (padded 6 (us mod 1000000)) = us mod 1000000" for n
    using date pos_mod_bound by (auto intro!: digits_value_padded intro: less_trans [OF mod_less_divisor])
  have written: "isoformat_utc t = padded 4 y @ [45] @ padded 2 m @ [45] @ padded 2 d @ [84] @
      padded 2 (us div 1000000 div 3600 mod 24) @ [58] @ padded 2 (us div 1000000 div 60 mod 60) @ [58] @
      padded 2 (us div 1000000 mod 60) @ [46] @ padded 6 (us mod 1000000) @ codes ''+00:00''"
    by (simp add: isoformat_utc_def iso_local_def Let_def ymd us_def [symmetric])
  show ?thesis
    unfolding fromisoformat_def written Let_def field_parts vals days time_of_day
    using iso_shape_parts date by (simp add: t)
qed

interpretation iso_timestamp: text_codec datetime_in_range isoformat_utc
  "\<lambda>s. bindR (fromisoformat other s) (\<lambda>d. Inr (dt_local d))" for other
  by unfold_locales (simp add: fromisoformat_iso utc_datetime_def)

end
