(* ===== verification/Session.thy ===== *)
theory Session
  imports Models Py_Iso
begin

text \<open>
  The effects of the services: exceptions, the database session, the trace of externally visible
  actions and the injected callables. A computation takes the world and returns a result or an
  exception together with the new world; the world survives an exception, as Python's does.

  The database is seen through one session at a time. \<open>w_committed\<close> is what other transactions
  see, \<open>w_working\<close> what the current transaction sees, \<open>w_savepoints\<close> what an open savepoint
  restores. Every SQL statement (a query, a flush, a savepoint, a commit) takes one element of
  \<open>w_script\<close>, the behaviour of everything outside the process at that moment: what other
  transactions have committed in between (visible at once, the isolation level being READ
  COMMITTED), which job rows they have locked, and whether the statement fails. An exhausted
  script means nothing happens. Clocks, identifiers, the HTTP transport, the shutdown event and
  the equality of JSONB values are the arbitrary functions of \<open>env\<close>, read at increasing ticks; so are the
  nesting the JSON reader allows, and what \<open>fromisoformat\<close> and \<open>UUID\<close> make of the texts \<open>Py_Iso\<close> leaves
  open.
\<close>

section \<open>Computations\<close>

type_synonym ('w, 'a) io = "'w \<Rightarrow> (exc + 'a) \<times> 'w"

definition returnE :: "'a \<Rightarrow> ('w, 'a) io" where
  "returnE x w = (Inr x, w)"

definition raiseE :: "exc \<Rightarrow> ('w, 'a) io" where
  "raiseE e w = (Inl e, w)"

definition liftE :: "exc + 'a \<Rightarrow> ('w, 'a) io" where
  "liftE r w = (r, w)"

definition bindE :: "('w, 'a) io \<Rightarrow> ('a \<Rightarrow> ('w, 'b) io) \<Rightarrow> ('w, 'b) io" where
  "bindE m f w = (case m w of (Inl e, w1) \<Rightarrow> (Inl e, w1) | (Inr x, w1) \<Rightarrow> f x w1)"

text \<open>\<open>try: m except Exception as e: h(e)\<close>\<close>

definition try_except :: "('w, 'a) io \<Rightarrow> (exc \<Rightarrow> ('w, 'a) io) \<Rightarrow> ('w, 'a) io" where
  "try_except m h w = (case m w of (Inl e, w1) \<Rightarrow> h e w1 | (Inr x, w1) \<Rightarrow> (Inr x, w1))"

text \<open>\<open>try: m finally: f\<close>\<close>

definition try_finally :: "('w, 'a) io \<Rightarrow> ('w, unit) io \<Rightarrow> ('w, 'a) io" where
  "try_finally m f w =
     (case m w of (r, w1) \<Rightarrow>
       (case f w1 of (Inl e, w2) \<Rightarrow> (Inl e, w2) | (Inr _, w2) \<Rightarrow> (r, w2)))"

section \<open>The world\<close>

datatype httpx_result =
    Httpx_response int
  | Httpx_timeout string
  | Httpx_request_error string
  | Httpx_other string

record env =
  e_http :: "nat \<Rightarrow> string \<Rightarrow> json \<Rightarrow> httpx_result"
  e_uuid4 :: "nat \<Rightarrow> uuid"
  e_db_now :: "nat \<Rightarrow> instant"
  e_utc_now :: "nat \<Rightarrow> pydatetime"
  e_decision_now :: "nat \<Rightarrow> pydatetime"
  e_iteration_now :: "nat \<Rightarrow> pydatetime"
  e_monotonic_ns :: "nat \<Rightarrow> int"
  e_stop :: "nat \<Rightarrow> bool"
  e_jsonb_eq :: "json \<Rightarrow> json \<Rightarrow> bool"
  e_json_depth :: nat
  e_fromisoformat :: "unicode \<Rightarrow> exc + pydatetime"
  e_uuid_text :: "unicode \<Rightarrow> exc + uuid"

text \<open>A failing statement either never ran or ran and lost its reply.\<close>

datatype fault = Refused | Reply_lost

record stmt_env =
  se_others :: "db \<Rightarrow> db"
  se_locked :: "uuid list"
  se_fault :: "fault option"

definition quiet :: stmt_env where
  "quiet = \<lparr>se_others = id, se_locked = [], se_fault = None\<rparr>"

datatype effect =
    Session_open
  | Session_commit
  | Session_rollback
  | Session_close
  | Http_post string json pyval

record world =
  w_env :: env
  w_committed :: db
  w_working :: db
  w_savepoints :: "db list"
  w_script :: "stmt_env list"
  w_trace :: "effect list"
  w_ticks :: nat
  w_polls :: nat

section \<open>Clocks, identifiers, trace\<close>

definition tick :: "(env \<Rightarrow> nat \<Rightarrow> 'a) \<Rightarrow> (world, 'a) io" where
  "tick f w = (Inr (f (w_env w) (w_ticks w)), w\<lparr>w_ticks := Suc (w_ticks w)\<rparr>)"

text \<open>What the library would answer.\<close>

definition ask :: "(env \<Rightarrow> 'a) \<Rightarrow> (world, 'a) io" where
  "ask f w = (Inr (f (w_env w)), w)"

definition emit :: "effect \<Rightarrow> world \<Rightarrow> world" where
  "emit e w = w\<lparr>w_trace := w_trace w @ [e]\<rparr>"

section \<open>Statements\<close>

definition next_stmt :: "world \<Rightarrow> stmt_env \<times> world" where
  "next_stmt w =
     (case w_script w of
        [] \<Rightarrow> (quiet, w)
      | se # rest \<Rightarrow>
          (se, w\<lparr>w_script := rest,
                 w_committed := se_others se (w_committed w),
                 w_working := se_others se (w_working w),
                 w_savepoints := map (se_others se) (w_savepoints w)\<rparr>))"

definition sql :: "(env \<Rightarrow> uuid list \<Rightarrow> db \<Rightarrow> exc + 'a \<times> db) \<Rightarrow> (world, 'a) io" where
  "sql op w =
     (case next_stmt w of (se, w1) \<Rightarrow>
       (case se_fault se of
          Some _ \<Rightarrow> (Inl OperationalError, w1)
        | None \<Rightarrow>
            (case op (w_env w1) (se_locked se) (w_working w1) of
               Inl e \<Rightarrow> (Inl e, w1)
             | Inr (x, d) \<Rightarrow> (Inr x, w1\<lparr>w_working := d\<rparr>))))"

text \<open>A query and a flush.\<close>

definition query :: "(db \<Rightarrow> 'a) \<Rightarrow> (world, 'a) io" where
  "query f = sql (\<lambda>e locked d. Inr (f d, d))"

definition flush :: "(db \<Rightarrow> exc + db) \<Rightarrow> (world, unit) io" where
  "flush f = sql (\<lambda>e locked d. bindR (f d) (\<lambda>d'. Inr ((), d')))"

section \<open>Sessions\<close>

definition session_open :: "(world, unit) io" where
  "session_open w = (Inr (), emit Session_open (w\<lparr>w_working := w_committed w, w_savepoints := []\<rparr>))"

definition publish :: "world \<Rightarrow> world" where
  "publish w = emit Session_commit (w\<lparr>w_committed := w_working w, w_savepoints := []\<rparr>)"

definition session_commit :: "(world, unit) io" where
  "session_commit w =
     (case next_stmt w of (se, w1) \<Rightarrow>
       (case se_fault se of
          Some Refused \<Rightarrow> (Inl OperationalError, w1)
        | Some Reply_lost \<Rightarrow> (Inl OperationalError, publish w1)
        | None \<Rightarrow> (Inr (), publish w1)))"

definition discard :: "effect \<Rightarrow> world \<Rightarrow> world" where
  "discard e w = emit e (w\<lparr>w_working := w_committed w, w_savepoints := []\<rparr>)"

definition session_rollback :: "(world, unit) io" where
  "session_rollback w = (Inr (), discard Session_rollback w)"

definition session_close :: "(world, unit) io" where
  "session_close w = (Inr (), discard Session_close w)"

text \<open>
  \<open>with session.begin_nested(): m\<close>: a savepoint, released when the body returns and rolled back
  to when it raises; the exception propagates.
\<close>

definition push_savepoint :: "(world, unit) io" where
  "push_savepoint = bindE (query (\<lambda>d. ()))
     (\<lambda>_ w. (Inr (), w\<lparr>w_savepoints := w_working w # w_savepoints w\<rparr>))"

definition release_savepoint :: "(world, unit) io" where
  "release_savepoint = bindE (query (\<lambda>d. ()))
     (\<lambda>_ w. (Inr (), w\<lparr>w_savepoints := tl (w_savepoints w)\<rparr>))"

definition rollback_to_savepoint :: "(world, unit) io" where
  "rollback_to_savepoint w =
     (Inr (), case w_savepoints w of [] \<Rightarrow> w | d # ds \<Rightarrow> w\<lparr>w_working := d, w_savepoints := ds\<rparr>)"

definition begin_nested :: "(world, 'a) io \<Rightarrow> (world, 'a) io" where
  "begin_nested m =
     bindE push_savepoint (\<lambda>_.
     bindE (try_except m (\<lambda>e. bindE rollback_to_savepoint (\<lambda>_. raiseE e))) (\<lambda>x.
     bindE release_savepoint (\<lambda>_. returnE x)))"

text \<open>
  The transaction block of the worker services: open a session from the factory, run the body,
  commit; on any exception roll back and re-raise; always close.
\<close>

definition in_transaction :: "(world, 'a) io \<Rightarrow> (world, 'a) io" where
  "in_transaction m =
     bindE session_open (\<lambda>_.
     try_finally
       (try_except
          (bindE m (\<lambda>x. bindE session_commit (\<lambda>_. returnE x)))
          (\<lambda>e. bindE session_rollback (\<lambda>_. raiseE e)))
       session_close)"

text \<open>
  The request-scoped session of the API: \<open>with SessionFactory() as session\<close>, rolling back when
  the route raises. The route commits itself.
\<close>

definition get_session :: "(world, 'a) io \<Rightarrow> (world, 'a) io" where
  "get_session m =
     bindE session_open (\<lambda>_.
     try_finally
       (try_except m (\<lambda>e. bindE session_rollback (\<lambda>_. raiseE e)))
       session_close)"

end
