(* ===== verification/Session_Rules.thy ===== *)
theory Session_Rules
  imports Session
begin

text \<open>
  How to reason about computations: equations for running them when nothing interferes
  (\<open>w_script w = []\<close>), Hoare triples with separate postconditions for a return and for an
  exception, and \<open>keeps R I\<close>, the statement that an operation preserves an invariant of the tables
  in every view (committed, working, savepoints) whatever the script does, as long as the other
  transactions preserve it too (and change the tables only as the relation \<open>R\<close> allows). The locales
  \<open>job_invariant\<close> and \<open>table_invariant\<close> are the interface between the tables and the services: an invariant
  that every single write preserves.
\<close>

section \<open>Running without interference\<close>

lemma returnE_run [io_simps]: "returnE x w = (Inr x, w)"
  by (simp add: returnE_def)

lemma raiseE_run [io_simps]: "raiseE e w = (Inl e, w)"
  by (simp add: raiseE_def)

lemma liftE_run [io_simps]: "liftE r w = (r, w)"
  by (simp add: liftE_def)

lemma next_stmt_quiet [simp]: "w_script w = [] \<Longrightarrow> next_stmt w = (quiet, w)"
  by (simp add: next_stmt_def)

lemma quiet_sel [simp]: "se_others quiet = id" "se_locked quiet = []" "se_fault quiet = None"
  by (simp_all add: quiet_def)

lemma sql_quiet:
  "w_script w = [] \<Longrightarrow>
   sql op w = (case op (w_env w) [] (w_working w) of
      Inl e \<Rightarrow> (Inl e, w) | Inr (x, d) \<Rightarrow> (Inr x, w\<lparr>w_working := d\<rparr>))"
  by (simp add: sql_def split: sum.splits prod.splits)

lemma query_quiet [io_simps]: "w_script w = [] \<Longrightarrow> query f w = (Inr (f (w_working w)), w)"
  by (simp add: query_def sql_quiet)

lemma flush_quiet [io_simps]:
  "w_script w = [] \<Longrightarrow>
   flush f w = (case f (w_working w) of
      Inl e \<Rightarrow> (Inl e, w) | Inr d \<Rightarrow> (Inr (), w\<lparr>w_working := d\<rparr>))"
  by (simp add: flush_def sql_quiet split: sum.splits)

lemma session_commit_quiet [io_simps]:
  "w_script w = [] \<Longrightarrow> session_commit w = (Inr (), publish w)"
  by (simp add: session_commit_def)

lemma session_open_run [io_simps]:
  "session_open w = (Inr (), emit Session_open (w\<lparr>w_working := w_committed w, w_savepoints := []\<rparr>))"
  by (simp add: session_open_def)

lemma session_rollback_run [io_simps]: "session_rollback w = (Inr (), discard Session_rollback w)"
  by (simp add: session_rollback_def)

lemma session_close_run [io_simps]: "session_close w = (Inr (), discard Session_close w)"
  by (simp add: session_close_def)

lemma tick_run [io_simps]:
  "tick f w = (Inr (f (w_env w) (w_ticks w)), w\<lparr>w_ticks := Suc (w_ticks w)\<rparr>)"
  by (simp add: tick_def)

lemma ask_run [io_simps]: "ask f w = (Inr (f (w_env w)), w)"
  by (simp add: ask_def)

lemma bindE_run: "m w = (Inr x, w1) \<Longrightarrow> bindE m f w = f x w1"
  by (simp add: bindE_def)

lemma bindE_raise: "m w = (Inl e, w1) \<Longrightarrow> bindE m f w = (Inl e, w1)"
  by (simp add: bindE_def)

lemmas block_simps = bindE_def try_except_def try_finally_def

text \<open>The fields a world operation leaves alone.\<close>

lemma emit_sel [simp]:
  "w_env (emit e w) = w_env w" "w_committed (emit e w) = w_committed w"
  "w_working (emit e w) = w_working w" "w_savepoints (emit e w) = w_savepoints w"
  "w_script (emit e w) = w_script w" "w_ticks (emit e w) = w_ticks w"
  "w_polls (emit e w) = w_polls w" "w_trace (emit e w) = w_trace w @ [e]"
  by (simp_all add: emit_def)

lemma publish_sel [simp]:
  "w_env (publish w) = w_env w" "w_committed (publish w) = w_working w"
  "w_working (publish w) = w_working w" "w_savepoints (publish w) = []"
  "w_script (publish w) = w_script w" "w_ticks (publish w) = w_ticks w"
  "w_polls (publish w) = w_polls w" "w_trace (publish w) = w_trace w @ [Session_commit]"
  by (simp_all add: publish_def)

lemma discard_sel [simp]:
  "w_env (discard e w) = w_env w" "w_committed (discard e w) = w_committed w"
  "w_working (discard e w) = w_committed w" "w_savepoints (discard e w) = []"
  "w_script (discard e w) = w_script w" "w_ticks (discard e w) = w_ticks w"
  "w_polls (discard e w) = w_polls w" "w_trace (discard e w) = w_trace w @ [e]"
  by (simp_all add: discard_def)

section \<open>Triples\<close>

definition triple ::
    "('w \<Rightarrow> bool) \<Rightarrow> ('w, 'a) io \<Rightarrow> ('a \<Rightarrow> 'w \<Rightarrow> bool) \<Rightarrow> (exc \<Rightarrow> 'w \<Rightarrow> bool) \<Rightarrow> bool" where
  "triple P m Q E \<longleftrightarrow>
     (\<forall>w. P w \<longrightarrow> (case m w of (Inr x, w1) \<Rightarrow> Q x w1 | (Inl e, w1) \<Rightarrow> E e w1))"

lemma tripleI:
  "(\<And>w x w1. P w \<Longrightarrow> m w = (Inr x, w1) \<Longrightarrow> Q x w1) \<Longrightarrow>
   (\<And>w e w1. P w \<Longrightarrow> m w = (Inl e, w1) \<Longrightarrow> E e w1) \<Longrightarrow> triple P m Q E"
  by (auto simp: triple_def split: prod.splits sum.splits)

lemma tripleD_Inr: "triple P m Q E \<Longrightarrow> P w \<Longrightarrow> m w = (Inr x, w1) \<Longrightarrow> Q x w1"
  by (force simp: triple_def)

lemma tripleD_Inl: "triple P m Q E \<Longrightarrow> P w \<Longrightarrow> m w = (Inl e, w1) \<Longrightarrow> E e w1"
  by (force simp: triple_def)

lemma triple_returnE [triple_intros]: "(\<And>w. P w \<Longrightarrow> Q x w) \<Longrightarrow> triple P (returnE x) Q E"
  by (simp add: triple_def returnE_def)

lemma triple_raiseE [triple_intros]: "(\<And>w. P w \<Longrightarrow> E e w) \<Longrightarrow> triple P (raiseE e) Q E"
  by (simp add: triple_def raiseE_def)

lemma triple_liftE [triple_intros]:
  "(\<And>w x. P w \<Longrightarrow> r = Inr x \<Longrightarrow> Q x w) \<Longrightarrow> (\<And>w e. P w \<Longrightarrow> r = Inl e \<Longrightarrow> E e w) \<Longrightarrow>
   triple P (liftE r) Q E"
  by (auto simp: triple_def liftE_def split: sum.splits)

lemma bindE_Inr: "bindE m f w = (Inr y, w2) \<longleftrightarrow> (\<exists>x w1. m w = (Inr x, w1) \<and> f x w1 = (Inr y, w2))"
  by (cases "m w") (auto simp: bindE_def split: sum.splits)

lemma bindE_Inl:
  "bindE m f w = (Inl e, w2) \<longleftrightarrow>
   m w = (Inl e, w2) \<or> (\<exists>x w1. m w = (Inr x, w1) \<and> f x w1 = (Inl e, w2))"
  by (cases "m w") (auto simp: bindE_def split: sum.splits)

lemma try_except_Inr:
  "try_except m h w = (Inr y, w2) \<longleftrightarrow>
   m w = (Inr y, w2) \<or> (\<exists>e w1. m w = (Inl e, w1) \<and> h e w1 = (Inr y, w2))"
  by (cases "m w") (auto simp: try_except_def split: sum.splits)

lemma try_except_Inl:
  "try_except m h w = (Inl e', w2) \<longleftrightarrow> (\<exists>e w1. m w = (Inl e, w1) \<and> h e w1 = (Inl e', w2))"
  by (cases "m w") (auto simp: try_except_def split: sum.splits)

lemma try_finally_Inr:
  "try_finally m f w = (Inr y, w2) \<longleftrightarrow> (\<exists>u w1. m w = (Inr y, w1) \<and> f w1 = (Inr u, w2))"
  by (cases "m w"; cases "f (snd (m w))") (auto simp: try_finally_def split: sum.splits)

lemma try_finally_Inl:
  "try_finally m f w = (Inl e, w2) \<longleftrightarrow>
   (\<exists>r w1. m w = (r, w1) \<and> f w1 = (Inl e, w2)) \<or>
   (\<exists>u w1. m w = (Inl e, w1) \<and> f w1 = (Inr u, w2))"
  by (cases "m w"; cases "f (snd (m w))") (auto simp: try_finally_def split: sum.splits)

lemma triple_bindE [triple_intros]:
  assumes "triple P m R E" and "\<And>x. triple (R x) (f x) Q E"
  shows "triple P (bindE m f) Q E"
  by (rule tripleI)
    (auto simp: bindE_Inr bindE_Inl
      dest: tripleD_Inr [OF assms(1)] tripleD_Inl [OF assms(1)]
        tripleD_Inr [OF assms(2)] tripleD_Inl [OF assms(2)])

lemma triple_try_except [triple_intros]:
  assumes "triple P m Q R" and "\<And>e. triple (R e) (h e) Q E"
  shows "triple P (try_except m h) Q E"
  by (rule tripleI)
    (auto simp: try_except_Inr try_except_Inl
      dest: tripleD_Inr [OF assms(1)] tripleD_Inl [OF assms(1)]
        tripleD_Inr [OF assms(2)] tripleD_Inl [OF assms(2)])

lemma triple_try_finally:
  assumes m: "triple P m R S"
    and f: "\<And>x. triple (R x) f (\<lambda>_. Q x) E" and g: "\<And>e. triple (S e) f (\<lambda>_. E e) E"
  shows "triple P (try_finally m f) Q E"
proof (rule tripleI)
  fix w x w2 assume "P w" and "try_finally m f w = (Inr x, w2)"
  then show "Q x w2"
    by (auto simp: try_finally_Inr dest: tripleD_Inr [OF m] tripleD_Inr [OF f])
next
  fix w e w2 assume w: "P w" and "try_finally m f w = (Inl e, w2)"
  then consider r w1 where "m w = (r, w1)" "f w1 = (Inl e, w2)"
    | u w1 where "m w = (Inl e, w1)" "f w1 = (Inr u, w2)"
    by (auto simp: try_finally_Inl)
  then show "E e w2"
  proof cases
    case 1
    with w show ?thesis
      by (cases r) (auto dest: tripleD_Inr [OF m] tripleD_Inl [OF m] tripleD_Inl [OF f] tripleD_Inl [OF g])
  next
    case 2
    with w show ?thesis by (auto dest: tripleD_Inl [OF m] tripleD_Inr [OF g])
  qed
qed

lemma triple_weaken:
  assumes "triple P m Q E" and "\<And>w. P' w \<Longrightarrow> P w"
    and "\<And>x w. Q x w \<Longrightarrow> Q' x w" and "\<And>e w. E e w \<Longrightarrow> E' e w"
  shows "triple P' m Q' E'"
proof (rule tripleI)
  fix w x w1 assume "P' w" and run: "m w = (Inr x, w1)"
  then have "P w" by (auto dest: assms(2))
  then show "Q' x w1" using run by (rule assms(3) [OF tripleD_Inr [OF assms(1)]])
next
  fix w e w1 assume "P' w" and run: "m w = (Inl e, w1)"
  then have "P w" by (auto dest: assms(2))
  then show "E' e w1" using run by (rule assms(4) [OF tripleD_Inl [OF assms(1)]])
qed

lemma triple_case_option [triple_intros]:
  "(v = None \<Longrightarrow> triple P m Q E) \<Longrightarrow> (\<And>x. v = Some x \<Longrightarrow> triple P (f x) Q E) \<Longrightarrow>
   triple P (case v of None \<Rightarrow> m | Some x \<Rightarrow> f x) Q E"
  by (cases v) simp_all

lemma triple_if [triple_intros]:
  "(b \<Longrightarrow> triple P m Q E) \<Longrightarrow> (\<not> b \<Longrightarrow> triple P m' Q E) \<Longrightarrow> triple P (if b then m else m') Q E"
  by simp

lemma triple_pre:
  assumes "\<And>w. P w \<Longrightarrow> c" and "c \<Longrightarrow> triple P m Q E"
  shows "triple P m Q E"
  by (rule tripleI)
    (blast intro: tripleD_Inr [OF assms(2)] assms(1), blast intro: tripleD_Inl [OF assms(2)] assms(1))

section \<open>Fields an operation leaves alone\<close>

text \<open>The environment never changes; the trace changes only at sessions and HTTP requests.\<close>

definition field_kept :: "(world \<Rightarrow> 'f) \<Rightarrow> (world, 'a) io \<Rightarrow> bool" where
  "field_kept f m \<longleftrightarrow> (\<forall>w. f (snd (m w)) = f w)"

abbreviation env_kept :: "(world, 'a) io \<Rightarrow> bool" where
  "env_kept \<equiv> field_kept w_env"

abbreviation silent :: "(world, 'a) io \<Rightarrow> bool" where
  "silent \<equiv> field_kept w_trace"

abbreviation unpolled :: "(world, 'a) io \<Rightarrow> bool" where
  "unpolled \<equiv> field_kept w_polls"

lemma field_keptD: "field_kept f m \<Longrightarrow> m w = (r, w') \<Longrightarrow> f w' = f w"
  unfolding field_kept_def by (metis snd_conv)

lemmas env_keptD = field_keptD [where f = w_env]
lemmas silentD = field_keptD [where f = w_trace]
lemmas unpolledD = field_keptD [where f = w_polls]

lemma field_kept_return [field_intros]:
  "field_kept f (returnE x)" "field_kept f (raiseE e)" "field_kept f (liftE r)"
  by (simp_all add: field_kept_def returnE_def raiseE_def liftE_def)

lemma field_kept_bindE [field_intros]:
  "field_kept f m \<Longrightarrow> (\<And>x. field_kept f (g x)) \<Longrightarrow> field_kept f (bindE m g)"
  by (auto simp: field_kept_def bindE_def split: prod.splits sum.splits) (metis snd_conv)+

lemma field_kept_try_except [field_intros]:
  "field_kept f m \<Longrightarrow> (\<And>e. field_kept f (h e)) \<Longrightarrow> field_kept f (try_except m h)"
  by (auto simp: field_kept_def try_except_def split: prod.splits sum.splits) (metis snd_conv)+

lemma field_kept_try_finally [field_intros]:
  "field_kept f m \<Longrightarrow> field_kept f c \<Longrightarrow> field_kept f (try_finally m c)"
  by (auto simp: field_kept_def try_finally_def split: prod.splits sum.splits) (metis snd_conv)+

lemma field_kept_cases [field_intros]:
  "(b \<Longrightarrow> field_kept f m) \<Longrightarrow> (\<not> b \<Longrightarrow> field_kept f m') \<Longrightarrow> field_kept f (if b then m else m')"
  "field_kept f m \<Longrightarrow> (\<And>x. field_kept f (g x)) \<Longrightarrow> field_kept f (case v of None \<Rightarrow> m | Some x \<Rightarrow> g x)"
  by (simp, cases v, simp_all)

lemma next_stmt_env: "next_stmt w = (se, w1) \<Longrightarrow> w_env w1 = w_env w"
  by (auto simp: next_stmt_def split: list.splits)

lemma next_stmt_trace: "next_stmt w = (se, w1) \<Longrightarrow> w_trace w1 = w_trace w"
  by (auto simp: next_stmt_def split: list.splits)

lemma next_stmt_polls: "next_stmt w = (se, w1) \<Longrightarrow> w_polls w1 = w_polls w"
  by (auto simp: next_stmt_def split: list.splits)

lemma unpolled_basic [field_intros]:
  "unpolled (tick f)" "unpolled session_open" "unpolled session_rollback" "unpolled session_close"
  by (simp_all add: field_kept_def tick_def session_open_def session_rollback_def session_close_def)

lemma ask_kept [field_intros]: "env_kept (ask g)" "silent (ask g)" "unpolled (ask g)"
  by (simp_all add: field_kept_def ask_def)

lemma unpolled_sql [field_intros]: "unpolled (sql op)"
  by (auto simp: field_kept_def sql_def dest: next_stmt_polls split: prod.splits option.splits sum.splits)

lemma unpolled_stmts [field_intros]:
  "unpolled (query f)" "unpolled (flush h)" "unpolled session_commit"
  by (simp_all add: query_def flush_def unpolled_sql)
    (auto simp: field_kept_def session_commit_def dest: next_stmt_polls
      split: prod.splits option.splits fault.splits)

lemma env_kept_basic [field_intros]:
  "env_kept (tick f)" "env_kept session_open" "env_kept session_rollback" "env_kept session_close"
  by (simp_all add: field_kept_def tick_def session_open_def session_rollback_def session_close_def)

lemma silent_tick [field_intros]: "silent (tick f)"
  by (simp add: field_kept_def tick_def)

lemma sql_kept [field_intros]: "env_kept (sql op)" "silent (sql op)"
  by (auto simp: field_kept_def sql_def dest: next_stmt_env next_stmt_trace
      split: prod.splits option.splits sum.splits)

lemma stmts_kept [field_intros]:
  "env_kept (query f)" "silent (query f)" "env_kept (flush h)" "silent (flush h)"
  by (simp_all add: query_def flush_def sql_kept)

lemma env_kept_session_commit [field_intros]: "env_kept session_commit"
  by (auto simp: field_kept_def session_commit_def dest: next_stmt_env
      split: prod.splits option.splits fault.splits)

lemma field_kept_savepoints:
  assumes "\<And>w s. f (w\<lparr>w_savepoints := s\<rparr>) = f w" and "field_kept f (query (\<lambda>d. ()))"
  shows "field_kept f push_savepoint" "field_kept f release_savepoint"
  unfolding push_savepoint_def release_savepoint_def
  by (intro field_kept_bindE assms(2); simp add: field_kept_def assms(1))+

lemma savepoints_kept [field_intros]:
  "env_kept push_savepoint" "env_kept release_savepoint"
  "silent push_savepoint" "silent release_savepoint"
  by (rule field_kept_savepoints; simp add: stmts_kept)+

lemma rollback_to_savepoint_kept [field_intros]:
  "env_kept rollback_to_savepoint" "silent rollback_to_savepoint"
  by (simp_all add: field_kept_def rollback_to_savepoint_def split: list.splits)

lemma blocks_kept [field_intros]:
  "env_kept m \<Longrightarrow> env_kept (begin_nested m)" "silent m \<Longrightarrow> silent (begin_nested m)"
  "env_kept m \<Longrightarrow> env_kept (in_transaction m)"
  "env_kept m \<Longrightarrow> env_kept (get_session m)"
  "unpolled m \<Longrightarrow> unpolled (in_transaction m)"
  unfolding begin_nested_def in_transaction_def get_session_def by (intro field_intros; assumption)+

section \<open>What an operation adds to the trace\<close>

definition emits :: "(exc + 'a \<Rightarrow> effect list \<Rightarrow> bool) \<Rightarrow> (world, 'a) io \<Rightarrow> bool" where
  "emits P m \<longleftrightarrow> (\<forall>w r w'. m w = (r, w') \<longrightarrow> (\<exists>es. w_trace w' = w_trace w @ es \<and> P r es))"

lemma emitsD: "emits P m \<Longrightarrow> m w = (r, w') \<Longrightarrow> \<exists>es. w_trace w' = w_trace w @ es \<and> P r es"
  by (simp add: emits_def)

lemma emits_silent: "silent m \<Longrightarrow> emits (\<lambda>r es. es = []) m"
  by (auto simp: emits_def dest: silentD)

lemma emits_weaken: "emits P m \<Longrightarrow> (\<And>r es. P r es \<Longrightarrow> Q r es) \<Longrightarrow> emits Q m"
  unfolding emits_def by blast

text \<open>The trace of a transaction: opened, its body, then committed or rolled back, and closed.\<close>

definition transaction_trace :: "bool \<Rightarrow> effect list \<Rightarrow> effect list \<Rightarrow> bool" where
  "transaction_trace committed es tr \<longleftrightarrow>
     (if committed then tr = Session_open # es @ [Session_commit, Session_close]
      else tr = Session_open # es @ [Session_rollback, Session_close] \<or>
           tr = Session_open # es @ [Session_commit, Session_rollback, Session_close])"

lemma session_commit_trace:
  "session_commit w = (r, w') \<Longrightarrow>
   (w_trace w' = w_trace w @ [Session_commit]) \<or> (\<not> (\<exists>x. r = Inr x) \<and> w_trace w' = w_trace w)"
  by (cases "next_stmt w")
    (auto simp: session_commit_def dest: next_stmt_trace split: option.splits fault.splits)

lemma emits_in_transaction:
  assumes "emits P m"
  shows "emits (\<lambda>r tr. \<exists>es r1. P r1 es \<and> (\<forall>x. r = Inr x \<longrightarrow> r1 = r) \<and> transaction_trace (\<not> isl r) es tr)
    (in_transaction m)"
  unfolding emits_def
proof (intro allI impI)
  fix w r w' assume run: "in_transaction m w = (r, w')"
  let ?w0 = "emit Session_open (w\<lparr>w_working := w_committed w, w_savepoints := []\<rparr>)"
  obtain r1 w1 where m: "m ?w0 = (r1, w1)" by fastforce
  obtain es where es: "w_trace w1 = w_trace w @ Session_open # es" and P: "P r1 es"
    using emitsD [OF assms m] by auto
  obtain r2 w2 where c: "session_commit w1 = (r2, w2)" by fastforce
  have "\<exists>tr. w_trace w' = w_trace w @ tr \<and> (\<forall>x. r = Inr x \<longrightarrow> r1 = r) \<and> transaction_trace (\<not> isl r) es tr"
  proof (cases r1)
    case (Inl e)
    then show ?thesis
      using run m es
      by (auto simp: in_transaction_def bindE_def try_finally_def try_except_def session_open_run
          session_rollback_run session_close_run raiseE_def transaction_trace_def)
  next
    case (Inr x)
    then show ?thesis
      using run m es c session_commit_trace [OF c]
      by (cases r2)
        (auto simp: in_transaction_def bindE_def try_finally_def try_except_def session_open_run
          session_rollback_run session_close_run raiseE_def returnE_def transaction_trace_def)
  qed
  then show "\<exists>tr. w_trace w' = w_trace w @ tr \<and>
      (\<exists>es r1. P r1 es \<and> (\<forall>x. r = Inr x \<longrightarrow> r1 = r) \<and> transaction_trace (\<not> isl r) es tr)"
    using P by blast
qed

text \<open>A committed transaction whose commit was not disturbed publishes what the body wrote.\<close>

lemma in_transaction_quiet:
  assumes "w_script w = []"
    and "m (emit Session_open (w\<lparr>w_working := w_committed w, w_savepoints := []\<rparr>)) = (r, w1)"
    and "w_script w1 = []"
  shows "in_transaction m w =
    (r, case r of
          Inr x \<Rightarrow> discard Session_close (publish w1)
        | Inl e \<Rightarrow> discard Session_close (discard Session_rollback w1))"
  using assms
  by (cases r)
    (simp_all add: in_transaction_def bindE_def try_finally_def try_except_def session_open_run
      session_rollback_run session_close_run session_commit_quiet raiseE_def returnE_def)

section \<open>Invariants of the tables\<close>

definition world_inv :: "(db \<Rightarrow> db \<Rightarrow> bool) \<Rightarrow> (db \<Rightarrow> bool) \<Rightarrow> world \<Rightarrow> bool" where
  "world_inv R I w \<longleftrightarrow>
     I (w_committed w) \<and> I (w_working w) \<and> (\<forall>d \<in> set (w_savepoints w). I d) \<and>
     (\<forall>se \<in> set (w_script w). \<forall>d. I d \<longrightarrow> R d (se_others se d) \<and> I (se_others se d))"

definition keeps :: "(db \<Rightarrow> db \<Rightarrow> bool) \<Rightarrow> (db \<Rightarrow> bool) \<Rightarrow> (world, 'a) io \<Rightarrow> bool" where
  "keeps R I m \<longleftrightarrow> (\<forall>w. world_inv R I w \<longrightarrow> world_inv R I (snd (m w)))"

lemma keepsD: "keeps R I m \<Longrightarrow> world_inv R I w \<Longrightarrow> world_inv R I (snd (m w))"
  by (simp add: keeps_def)

lemma keeps_run: "keeps R I m \<Longrightarrow> world_inv R I w \<Longrightarrow> m w = (r, w1) \<Longrightarrow> world_inv R I w1"
  using keepsD [of R I m w] by simp

lemma keeps_iff_triple:
  "keeps R I m \<longleftrightarrow> triple (world_inv R I) m (\<lambda>_. world_inv R I) (\<lambda>_. world_inv R I)"
proof
  assume "keeps R I m"
  then show "triple (world_inv R I) m (\<lambda>_. world_inv R I) (\<lambda>_. world_inv R I)"
    by (auto intro!: tripleI dest: keeps_run)
next
  assume t: "triple (world_inv R I) m (\<lambda>_. world_inv R I) (\<lambda>_. world_inv R I)"
  have "world_inv R I (snd (m w))" if w: "world_inv R I w" for w
  proof (cases "m w")
    case (Pair r w1)
    then show ?thesis
      using tripleD_Inr [OF t w, of _ w1] tripleD_Inl [OF t w, of _ w1] by (cases r) simp_all
  qed
  then show "keeps R I m" by (simp add: keeps_def)
qed

lemma keeps_returnE [keeps_intros]: "keeps R I (returnE x)"
  by (simp add: keeps_def returnE_def)

lemma keeps_raiseE [keeps_intros]: "keeps R I (raiseE e)"
  by (simp add: keeps_def raiseE_def)

lemma keeps_liftE [keeps_intros]: "keeps R I (liftE r)"
  by (simp add: keeps_def liftE_def)

lemma keeps_tick [keeps_intros]: "keeps R I (tick f)"
  by (simp add: keeps_def tick_def world_inv_def)

lemma keeps_bindE [keeps_intros]:
  "keeps R I m \<Longrightarrow> (\<And>x. keeps R I (f x)) \<Longrightarrow> keeps R I (bindE m f)"
  unfolding keeps_iff_triple by (rule triple_bindE)

lemma keeps_try_except [keeps_intros]:
  "keeps R I m \<Longrightarrow> (\<And>e. keeps R I (h e)) \<Longrightarrow> keeps R I (try_except m h)"
  unfolding keeps_iff_triple by (rule triple_try_except)

lemma keeps_try_finally [keeps_intros]:
  "keeps R I m \<Longrightarrow> keeps R I f \<Longrightarrow> keeps R I (try_finally m f)"
  unfolding keeps_iff_triple by (rule triple_try_finally)

lemma world_inv_next_stmt:
  "world_inv R I w \<Longrightarrow> next_stmt w = (se, w1) \<Longrightarrow> world_inv R I w1"
  by (auto simp: world_inv_def next_stmt_def split: list.splits)

lemma next_stmt_rely:
  "world_inv R I w \<Longrightarrow> next_stmt w = (se, w1) \<Longrightarrow> w1 = w \<or> R (w_working w) (w_working w1)"
  by (cases "w_script w") (auto simp: world_inv_def next_stmt_def)

text \<open>What a statement sees: a fault, or some tables that satisfy the invariant.\<close>

lemma sql_cases:
  assumes "world_inv R I w" and "sql op w = (r, w')"
  obtains (fault) "r = Inl OperationalError" "w_env w' = w_env w"
  | (raises) locked e where "r = Inl e" "op (w_env w) locked (w_working w') = Inl e"
      "I (w_working w')" "w_working w' = w_working w \<or> R (w_working w) (w_working w')"
      "w_env w' = w_env w"
  | (ok) locked d x where "r = Inr x" "op (w_env w) locked d = Inr (x, w_working w')"
      "I d" "d = w_working w \<or> R (w_working w) d" "w_env w' = w_env w"
proof -
  obtain se w1 where n: "next_stmt w = (se, w1)" by fastforce
  have I: "I (w_working w1)"
    using world_inv_next_stmt [OF assms(1) n] by (simp add: world_inv_def)
  have R: "w_working w1 = w_working w \<or> R (w_working w) (w_working w1)"
    using next_stmt_rely [OF assms(1) n] by auto
  have env: "w_env w1 = w_env w" by (rule next_stmt_env [OF n])
  have run: "(case se_fault se of Some _ \<Rightarrow> (Inl OperationalError, w1)
        | None \<Rightarrow> (case op (w_env w1) (se_locked se) (w_working w1) of
               Inl e \<Rightarrow> (Inl e, w1)
             | Inr (x, d) \<Rightarrow> (Inr x, w1\<lparr>w_working := d\<rparr>))) = (r, w')"
    using assms(2) by (simp add: sql_def n)
  show thesis
  proof (cases "se_fault se")
    case (Some f)
    with run env show thesis by (auto intro: fault)
  next
    case None
    show thesis
    proof (cases "op (w_env w1) (se_locked se) (w_working w1)")
      case (Inl e)
      with run None have "r = Inl e" "w' = w1" by simp_all
      with Inl env I R show thesis by (auto intro: raises)
    next
      case (Inr xd)
      obtain x d where xd: "xd = (x, d)" by (cases xd)
      with run None Inr have "r = Inr x" "w' = w1\<lparr>w_working := d\<rparr>" by simp_all
      with Inr env I R xd show thesis by (auto intro: ok)
    qed
  qed
qed

lemma query_cases:
  assumes "world_inv R I w" and "query f w = (r, w')"
  obtains (fault) "r = Inl OperationalError" "w_env w' = w_env w"
  | (ok) "r = Inr (f (w_working w'))" "I (w_working w')"
      "w_working w' = w_working w \<or> R (w_working w) (w_working w')" "w_env w' = w_env w"
  using assms(1) assms(2) [unfolded query_def]
  by (cases rule: sql_cases) auto

lemma flush_cases:
  assumes "world_inv R I w" and "flush f w = (r, w')"
  obtains (fault) "r = Inl OperationalError"
  | (raises) e where "r = Inl e" "f (w_working w') = Inl e"
  | (ok) d where "r = Inr ()" "f d = Inr (w_working w')" "I d" "d = w_working w \<or> R (w_working w) d"
  using assms(1) assms(2) [unfolded flush_def]
  by (cases rule: sql_cases) (auto simp: bindR_eq_Inr bindR_eq_Inl)

lemma triple_tick:
  "(\<And>w n. P w \<Longrightarrow> P (w\<lparr>w_ticks := n\<rparr>)) \<Longrightarrow> triple P (tick f) (\<lambda>_. P) E"
  by (simp add: triple_def tick_def)

lemma world_inv_ticks [simp]: "world_inv R I (w\<lparr>w_ticks := n\<rparr>) = world_inv R I w"
  by (simp add: world_inv_def)

lemma keeps_sql:
  assumes "\<And>e locked d x d'. I d \<Longrightarrow> op e locked d = Inr (x, d') \<Longrightarrow> I d'"
  shows "keeps R I (sql op)"
proof -
  have "world_inv R I (snd (sql op w))" if w: "world_inv R I w" for w
  proof -
    obtain se w1 where n: "next_stmt w = (se, w1)" by fastforce
    have "world_inv R I w1" by (rule world_inv_next_stmt [OF w n])
    then show ?thesis
      using n assms by (auto simp: sql_def world_inv_def split: option.splits sum.splits)
  qed
  then show ?thesis by (simp add: keeps_def)
qed

lemma keeps_query [keeps_intros]: "keeps R I (query f)"
  by (auto simp: query_def intro: keeps_sql)

lemma keeps_flush: "(\<And>d d'. I d \<Longrightarrow> f d = Inr d' \<Longrightarrow> I d') \<Longrightarrow> keeps R I (flush f)"
  by (auto simp: flush_def bindR_eq_Inr intro!: keeps_sql)

lemma keeps_ask [keeps_intros]: "keeps R I (ask f)"
  by (simp add: keeps_def ask_def)

lemma keeps_session_open [keeps_intros]: "keeps R I session_open"
  by (simp add: keeps_def session_open_def world_inv_def)

lemma keeps_session_rollback [keeps_intros]: "keeps R I session_rollback"
  by (simp add: keeps_def session_rollback_def world_inv_def)

lemma keeps_session_close [keeps_intros]: "keeps R I session_close"
  by (simp add: keeps_def session_close_def world_inv_def)

lemma keeps_session_commit [keeps_intros]: "keeps R I session_commit"
proof -
  have "world_inv R I (snd (session_commit w))" if w: "world_inv R I w" for w
  proof -
    obtain se w1 where n: "next_stmt w = (se, w1)" by fastforce
    have "world_inv R I w1" by (rule world_inv_next_stmt [OF w n])
    then show ?thesis
      using n by (auto simp: session_commit_def world_inv_def split: option.splits fault.splits)
  qed
  then show ?thesis by (simp add: keeps_def)
qed

lemma keeps_push_savepoint [keeps_intros]: "keeps R I push_savepoint"
  unfolding push_savepoint_def
  by (intro keeps_bindE keeps_query) (simp add: keeps_def world_inv_def)

lemma in_set_tlD: "x \<in> set (tl xs) \<Longrightarrow> x \<in> set xs"
  by (cases xs) auto

lemma keeps_release_savepoint [keeps_intros]: "keeps R I release_savepoint"
  unfolding release_savepoint_def
  by (intro keeps_bindE keeps_query)
    (auto simp: keeps_def world_inv_def dest: in_set_tlD)

lemma keeps_rollback_to_savepoint [keeps_intros]: "keeps R I rollback_to_savepoint"
  by (auto simp: keeps_def rollback_to_savepoint_def world_inv_def split: list.splits)

lemma keeps_begin_nested [keeps_intros]: "keeps R I m \<Longrightarrow> keeps R I (begin_nested m)"
  unfolding begin_nested_def by (intro keeps_intros)

lemma keeps_in_transaction [keeps_intros]: "keeps R I m \<Longrightarrow> keeps R I (in_transaction m)"
  unfolding in_transaction_def by (intro keeps_intros)

lemma keeps_get_session [keeps_intros]: "keeps R I m \<Longrightarrow> keeps R I (get_session m)"
  unfolding get_session_def by (intro keeps_intros)

lemma keeps_if [keeps_intros]:
  "(b \<Longrightarrow> keeps R I m) \<Longrightarrow> (\<not> b \<Longrightarrow> keeps R I m') \<Longrightarrow> keeps R I (if b then m else m')"
  by simp

lemma keeps_case_option [keeps_intros]:
  "keeps R I m \<Longrightarrow> (\<And>x. keeps R I (f x)) \<Longrightarrow> keeps R I (case v of None \<Rightarrow> m | Some x \<Rightarrow> f x)"
  by (cases v) simp_all

lemma keeps_case_prod [keeps_intros]:
  "(\<And>x y. keeps R I (f x y)) \<Longrightarrow> keeps R I (case p of (x, y) \<Rightarrow> f x y)"
  by (cases p) simp

section \<open>Only the others write\<close>

text \<open>
  From one world to a later one every view of the tables went through the same changes of the other
  transactions and through nothing else: the computation in between wrote nothing that stayed.
\<close>

definition only_others :: "world \<Rightarrow> world \<Rightarrow> bool" where
  "only_others w w' \<longleftrightarrow>
     (\<exists>s. w_script w = s @ w_script w' \<and>
        w_committed w' = fold se_others s (w_committed w) \<and>
        w_working w' = fold se_others s (w_working w) \<and>
        w_savepoints w' = map (fold se_others s) (w_savepoints w))"

lemma only_others_refl [simp]: "only_others w w"
  by (auto simp: only_others_def intro: exI [of _ "[]"])

lemma only_others_trans: "only_others w w1 \<Longrightarrow> only_others w1 w2 \<Longrightarrow> only_others w w2"
  unfolding only_others_def
proof (elim exE conjE)
  fix s t
  assume "w_script w = s @ w_script w1" "w_committed w1 = fold se_others s (w_committed w)"
    "w_working w1 = fold se_others s (w_working w)" "w_savepoints w1 = map (fold se_others s) (w_savepoints w)"
    "w_script w1 = t @ w_script w2" "w_committed w2 = fold se_others t (w_committed w1)"
    "w_working w2 = fold se_others t (w_working w1)" "w_savepoints w2 = map (fold se_others t) (w_savepoints w1)"
  then show "\<exists>s. w_script w = s @ w_script w2 \<and> w_committed w2 = fold se_others s (w_committed w) \<and>
      w_working w2 = fold se_others s (w_working w) \<and> w_savepoints w2 = map (fold se_others s) (w_savepoints w)"
    by (intro exI [of _ "s @ t"]) simp
qed

lemma only_others_next_stmt: "next_stmt w = (se, w1) \<Longrightarrow> only_others w w1"
proof (cases "w_script w")
  case (Cons a s)
  assume "next_stmt w = (se, w1)"
  then show ?thesis
    by (auto simp: only_others_def next_stmt_def Cons intro!: exI [of _ "[a]"])
qed (simp add: next_stmt_def)

lemma only_others_quiet: "only_others w w' \<Longrightarrow> w_script w = [] \<Longrightarrow>
    w_working w' = w_working w \<and> w_committed w' = w_committed w"
  by (auto simp: only_others_def)

lemma fold_others_inv:
  "(\<And>se d. se \<in> set s \<Longrightarrow> I d \<Longrightarrow> I (se_others se d)) \<Longrightarrow> I d \<Longrightarrow> I (fold se_others s d)"
  by (induction s arbitrary: d) auto

lemma world_inv_only_others: "world_inv R I w \<Longrightarrow> only_others w w' \<Longrightarrow> world_inv R I w'"
  unfolding only_others_def world_inv_def by (auto intro!: fold_others_inv [where I = I])

definition reads :: "(world, 'a) io \<Rightarrow> bool" where
  "reads m \<longleftrightarrow> (\<forall>w. only_others w (snd (m w)))"

lemma reads_run: "reads m \<Longrightarrow> m w = (r, w1) \<Longrightarrow> only_others w w1"
  unfolding reads_def by (metis snd_conv)

lemma reads_basic [reads_intros]:
  "reads (returnE x)" "reads (raiseE e)" "reads (liftE r)" "reads (ask g)" "reads (tick h)"
  by (auto simp: reads_def returnE_def raiseE_def liftE_def ask_def tick_def only_others_def
      intro: exI [of _ "[]"])

lemma reads_bindE [reads_intros]: "reads m \<Longrightarrow> (\<And>x. reads (f x)) \<Longrightarrow> reads (bindE m f)"
  unfolding reads_def bindE_def
  by (auto split: prod.split sum.split) (metis only_others_trans snd_conv)+

lemma only_others_sql_raise: "sql op w = (Inl e, w1) \<Longrightarrow> only_others w w1"
  by (auto simp: sql_def dest: only_others_next_stmt split: prod.splits option.splits sum.splits)

lemma reads_sql:
  assumes "\<And>e locked d x d'. op e locked d = Inr (x, d') \<Longrightarrow> d' = d"
  shows "reads (sql op)"
proof -
  have "only_others w (snd (sql op w))" for w
  proof -
    obtain se w1 where n: "next_stmt w = (se, w1)" by fastforce
    have "snd (sql op w) = w1"
      by (auto simp: sql_def n dest: assms split: option.split sum.split)
    then show ?thesis using only_others_next_stmt [OF n] by simp
  qed
  then show ?thesis by (simp add: reads_def)
qed

lemma reads_query [reads_intros]: "reads (query f)"
  unfolding query_def by (rule reads_sql) simp

text \<open>Rolling back to a savepoint that nothing was written after changes nothing.\<close>

lemma only_others_rollback_to_savepoint:
  assumes "only_others (w\<lparr>w_savepoints := w_working w # w_savepoints w\<rparr>) w1"
    and "rollback_to_savepoint w1 = (r, w2)"
  shows "only_others w w2"
  using assms by (auto simp: only_others_def rollback_to_savepoint_def)

lemma flush_raises: "flush f w = (Inl e, w1) \<Longrightarrow> e = OperationalError \<or> f (w_working w1) = Inl e"
  by (auto simp: flush_def sql_def bindR_eq_Inl bindR_eq_Inr split: prod.splits option.splits sum.splits)

lemma query_raises: "query f w = (Inl e, w1) \<Longrightarrow> e = OperationalError"
  by (auto simp: query_def sql_def split: prod.splits option.splits)

lemma reads_case_option [reads_intros]:
  "reads m \<Longrightarrow> (\<And>x. reads (f x)) \<Longrightarrow> reads (case v of None \<Rightarrow> m | Some x \<Rightarrow> f x)"
  by (cases v) simp_all

section \<open>The interface between the tables and the services\<close>

text \<open>
  The laws a service needs from the tables: each kind of write keeps the invariant. The services that
  work on existing jobs need the law of job updates; the one that records events also those of the
  inserts. The inserts of attempts come separately, because an invariant may constrain which attempts
  are inserted.
\<close>

locale job_invariant =
  fixes R :: "db \<Rightarrow> db \<Rightarrow> bool" and I :: "db \<Rightarrow> bool"
  assumes update_job_inv: "I d \<Longrightarrow> update_job old new d = Inr d' \<Longrightarrow> I d'"
begin

lemma update_jobs_inv: "I d \<Longrightarrow> update_jobs ps d = Inr d' \<Longrightarrow> I d'"
  by (induction ps d rule: update_jobs.induct) (auto simp: bindR_eq_Inr intro: update_job_inv)

lemma keeps_flush_update_job: "keeps R I (flush (update_job old new))"
  by (rule keeps_flush) (rule update_job_inv)

lemma keeps_flush_update_jobs: "keeps R I (flush (update_jobs ps))"
  by (rule keeps_flush) (rule update_jobs_inv)

lemmas keeps_updates = keeps_flush_update_job keeps_flush_update_jobs

end

locale table_invariant = job_invariant R I for R I +
  assumes insert_endpoint_inv: "I d \<Longrightarrow> insert_endpoint ep d = Inr d' \<Longrightarrow> I d'"
    and insert_event_inv: "I d \<Longrightarrow> insert_event ev d = Inr d' \<Longrightarrow> I d'"
    and insert_job_inv: "I d \<Longrightarrow> insert_job j d = Inr d' \<Longrightarrow> I d'"
begin

lemma keeps_flush_endpoint: "keeps R I (flush (insert_endpoint ep))"
  by (rule keeps_flush) (rule insert_endpoint_inv)

lemma keeps_flush_event: "keeps R I (flush (insert_event ev))"
  by (rule keeps_flush) (rule insert_event_inv)

lemma keeps_flush_job: "keeps R I (flush (insert_job j))"
  by (rule keeps_flush) (rule insert_job_inv)

lemmas keeps_inserts = keeps_flush_endpoint keeps_flush_event keeps_flush_job

end

locale store_invariant = table_invariant R I for R I +
  assumes insert_attempt_inv: "I d \<Longrightarrow> insert_attempt a d = Inr d' \<Longrightarrow> I d'"
begin

lemma keeps_flush_attempt: "keeps R I (flush (insert_attempt a))"
  by (rule keeps_flush) (rule insert_attempt_inv)

end

end
