(* ===== verification/Schema.thy ===== *)
theory Schema
  imports Session_Rules
begin

text \<open>
  The two invariants every write keeps, as interpretations of \<open>store_invariant\<close>: the schema's
  constraints (\<open>schema_ok\<close>), and the append-only history (\<open>history_kept\<close>: no endpoint, event or
  attempt ever recorded changes or disappears, and no job changes identity).
\<close>

section \<open>The schema\<close>

lemma map_update_by_same:
  "(\<And>x. x \<in> set rows \<Longrightarrow> key x = key r \<Longrightarrow> f x = f r) \<Longrightarrow> map f (update_by key r rows) = map f rows"
  by (auto simp: update_by_def)

lemma patch_job_sel [simp]:
  "job_id (patch_job old new cur) = job_id cur"
  "job_event_id (patch_job old new cur) = job_event_id cur"
  "job_created_at (patch_job old new cur) = job_created_at cur"
  by (simp_all add: patch_job_def)

lemma patch_job_same [simp]: "job_id new = job_id old \<Longrightarrow> job_event_id new = job_event_id old \<Longrightarrow>
   job_created_at new = job_created_at old \<Longrightarrow> patch_job old new old = new"
  by (simp add: patch_job_def)

text \<open>A successful update: what it wrote and where.\<close>

lemma update_job_InrE:
  assumes "update_job old new d = Inr d'"
  obtains "new = old" "d' = d"
  | cur where "new \<noteq> old" "lookup_by job_id (job_id old) (jobs d) = Some cur"
      "job_data_ok (patch_job old new cur)" "job_check (patch_job old new cur) = None"
      "d' = d\<lparr>jobs := update_by job_id (patch_job old new cur) (jobs d)\<rparr>"
  using assms by (auto simp: update_job_def Let_def split: if_splits option.splits)

lemma insert_endpoint_Inr:
  "insert_endpoint r d = Inr d' \<longleftrightarrow>
     endpoint_data_ok r \<and> ep_id r \<notin> ep_id ` set (endpoints d) \<and> d' = d\<lparr>endpoints := endpoints d @ [r]\<rparr>"
  by (auto simp: insert_endpoint_def)

lemma insert_event_Inr:
  "insert_event r d = Inr d' \<longleftrightarrow>
     event_data_ok r \<and> ev_id r \<notin> ev_id ` set (events d) \<and>
     (\<forall>r' \<in> set (events d). \<not> same_scoped_key r r') \<and>
     ev_endpoint_id r \<in> ep_id ` set (endpoints d) \<and> d' = d\<lparr>events := events d @ [r]\<rparr>"
  by (auto simp: insert_event_def)

lemma insert_job_Inr:
  "insert_job r d = Inr d' \<longleftrightarrow>
     job_data_ok r \<and> job_check r = None \<and> job_id r \<notin> job_id ` set (jobs d) \<and>
     job_event_id r \<notin> job_event_id ` set (jobs d) \<and> job_event_id r \<in> ev_id ` set (events d) \<and>
     d' = d\<lparr>jobs := jobs d @ [r]\<rparr>"
  by (auto simp: insert_job_def split: option.splits)

lemma insert_attempt_Inr:
  "insert_attempt r d = Inr d' \<longleftrightarrow>
     attempt_data_ok r \<and> attempt_check r = None \<and> at_id r \<notin> at_id ` set (attempts d) \<and>
     attempt_key r \<notin> attempt_key ` set (attempts d) \<and> at_event_id r \<in> ev_id ` set (events d) \<and>
     d' = d\<lparr>attempts := attempts d @ [r]\<rparr>"
  by (auto simp: insert_attempt_def split: option.splits)

lemmas insert_Inr = insert_endpoint_Inr insert_event_Inr insert_job_Inr insert_attempt_Inr

lemma same_scoped_key_sym: "same_scoped_key r r' \<Longrightarrow> same_scoped_key r' r"
  unfolding same_scoped_key_def by metis

lemma schema_ok_insert_endpoint: "schema_ok d \<Longrightarrow> insert_endpoint r d = Inr d' \<Longrightarrow> schema_ok d'"
  by (auto simp: schema_ok_def insert_endpoint_Inr)

lemma schema_ok_insert_event: "schema_ok d \<Longrightarrow> insert_event r d = Inr d' \<Longrightarrow> schema_ok d'"
  by (auto simp: schema_ok_def insert_event_Inr dest: same_scoped_key_sym)

lemma schema_ok_insert_job: "schema_ok d \<Longrightarrow> insert_job r d = Inr d' \<Longrightarrow> schema_ok d'"
  by (auto simp: schema_ok_def insert_job_Inr)

lemma schema_ok_insert_attempt: "schema_ok d \<Longrightarrow> insert_attempt r d = Inr d' \<Longrightarrow> schema_ok d'"
  by (auto simp: schema_ok_def insert_attempt_Inr)

lemma schema_ok_job_distinct: "schema_ok d \<Longrightarrow> distinct (map job_id (jobs d))"
  by (simp add: schema_ok_def)

lemma schema_ok_same_job:
  "schema_ok d \<Longrightarrow> x \<in> set (jobs d) \<Longrightarrow> y \<in> set (jobs d) \<Longrightarrow> job_id x = job_id y \<Longrightarrow> x = y"
  by (auto dest: schema_ok_job_distinct simp: distinct_map inj_on_def)

lemma schema_ok_update_job:
  assumes "schema_ok d" and "update_job old new d = Inr d'"
  shows "schema_ok d'"
  using assms(2)
proof (cases rule: update_job_InrE)
  case (2 cur)
  let ?r = "patch_job old new cur"
  have cur: "cur \<in> set (jobs d)" using "2"(2) by (auto dest: lookup_by_Some)
  have ids: "map job_event_id (update_by job_id ?r (jobs d)) = map job_event_id (jobs d)"
    by (rule map_update_by_same) (auto dest: schema_ok_same_job [OF assms(1) _ cur])
  have "job_event_id ?r \<in> ev_id ` set (events d)"
    using assms(1) cur by (auto simp: schema_ok_def)
  then show ?thesis
    using assms(1) "2"(3,4,5) ids set_update_by_subset [of job_id ?r "jobs d"]
    by (auto simp: schema_ok_def)
qed (use assms(1) in simp)

interpretation schema: store_invariant R schema_ok for R
  by unfold_locales
    (auto intro: schema_ok_insert_endpoint schema_ok_insert_event schema_ok_insert_job
      schema_ok_insert_attempt schema_ok_update_job)

section \<open>The history\<close>

text \<open>What identifies a job for good: its key, its event and its creation time.\<close>

definition job_identity :: "job_row \<Rightarrow> uuid \<times> uuid \<times> instant" where
  "job_identity j = (job_id j, job_event_id j, job_created_at j)"

definition history_kept :: "db \<Rightarrow> db \<Rightarrow> bool" where
  "history_kept d0 d \<longleftrightarrow>
     set (endpoints d0) \<subseteq> set (endpoints d) \<and> set (events d0) \<subseteq> set (events d) \<and>
     set (attempts d0) \<subseteq> set (attempts d) \<and>
     job_identity ` set (jobs d0) \<subseteq> job_identity ` set (jobs d)"

definition history_inv :: "db \<Rightarrow> db \<Rightarrow> bool" where
  "history_inv d0 d \<longleftrightarrow> schema_ok d \<and> history_kept d0 d"

lemma history_kept_refl [simp]: "history_kept d d"
  by (simp add: history_kept_def)

lemma history_kept_trans: "history_kept a b \<Longrightarrow> history_kept b c \<Longrightarrow> history_kept a c"
  unfolding history_kept_def by (elim conjE, intro conjI; erule (1) order_trans)

lemma job_identity_update:
  assumes "schema_ok d" and "lookup_by job_id (job_id old) (jobs d) = Some cur"
  shows "map job_identity (update_by job_id (patch_job old new cur) (jobs d)) = map job_identity (jobs d)"
proof (rule map_update_by_same)
  fix x assume "x \<in> set (jobs d)" and "job_id x = job_id (patch_job old new cur)"
  moreover have "cur \<in> set (jobs d)" using assms(2) by (auto dest: lookup_by_Some)
  ultimately have "x = cur" using schema_ok_same_job [OF assms(1)] by auto
  then show "job_identity x = job_identity (patch_job old new cur)"
    by (simp add: job_identity_def)
qed

lemma history_kept_update_job:
  assumes "schema_ok d" and "update_job old new d = Inr d'"
  shows "history_kept d d'"
  using assms(2)
proof (cases rule: update_job_InrE)
  case (2 cur)
  then have "job_identity ` set (jobs d') = job_identity ` set (jobs d)"
    using job_identity_update [OF assms(1) "2"(2), of new] by (simp flip: set_map)
  with 2 show ?thesis by (simp add: history_kept_def)
qed simp

lemma history_kept_insert:
  "insert_endpoint ep d = Inr d' \<Longrightarrow> history_kept d d'"
  "insert_event ev d = Inr d' \<Longrightarrow> history_kept d d'"
  "insert_job j d = Inr d' \<Longrightarrow> history_kept d d'"
  "insert_attempt a d = Inr d' \<Longrightarrow> history_kept d d'"
  by (auto simp: insert_Inr history_kept_def)

interpretation history: store_invariant R "history_inv d0" for R d0
  by unfold_locales
    (auto simp: history_inv_def
      intro: schema_ok_insert_endpoint schema_ok_insert_event schema_ok_insert_job
        schema_ok_insert_attempt schema_ok_update_job history_kept_trans
        history_kept_insert history_kept_update_job)

end
