(* ===== verification/Event_Service.thy ===== *)
theory Event_Service
  imports Schema
begin

text \<open>
  \<open>event_service.py\<close>: the idempotency key, the creation of an event with its delivery job, and the
  resolution of a repeated key before and after the unique constraint speaks. The lemmas give the
  effect of one creation, and what holds of it whatever other transactions commit meanwhile.
\<close>

section \<open>The idempotency key\<close>

text \<open>\<open>str.isspace\<close> on the code points U+0000 to U+00FF.\<close>

definition py_space :: "char \<Rightarrow> bool" where
  "py_space c \<longleftrightarrow>
     (let n = of_char c :: nat in
      (9 \<le> n \<and> n \<le> 13) \<or> (28 \<le> n \<and> n \<le> 32) \<or> n = 133 \<or> n = 160)"

definition strip :: "string \<Rightarrow> string" where
  "strip s = rev (dropWhile py_space (rev (dropWhile py_space s)))"

definition normalize_webhook_idempotency_key :: "string option \<Rightarrow> exc + string option" where
  "normalize_webhook_idempotency_key idempotency_key =
     (case idempotency_key of
        None \<Rightarrow> Inr None
      | Some k \<Rightarrow>
          (let normalized_key = strip k in
           if normalized_key = ''''
             then Inl (WebhookIdempotencyKeyValidationError ''Idempotency key must not be empty'')
           else if length normalized_key > 255
             then Inl (WebhookIdempotencyKeyValidationError
                         ''Idempotency key must not exceed 255 characters'')
           else Inr (Some normalized_key)))"

section \<open>Creation\<close>

definition create_event_with_delivery_job ::
    "uuid \<Rightarrow> string \<Rightarrow> json \<Rightarrow> string option \<Rightarrow> (world, event_row) io" where
  "create_event_with_delivery_job endpoint_id event_type payload idempotency_key =
     bindE (tick e_uuid4) (\<lambda>event_id.
     bindE (tick e_db_now) (\<lambda>event_created_at.
     (let event = \<lparr>ev_id = event_id, ev_endpoint_id = endpoint_id, ev_event_type = event_type,
                    ev_payload = payload, ev_idempotency_key = idempotency_key,
                    ev_created_at = event_created_at\<rparr> in
      bindE (flush (insert_event event)) (\<lambda>_.
      bindE (tick e_uuid4) (\<lambda>new_job_id.
      bindE (tick e_db_now) (\<lambda>job_now.
      (let job = \<lparr>job_id = new_job_id, job_event_id = ev_id event, job_status = ''pending'',
                   job_next_attempt_at = Some (ev_created_at event), job_attempt_count = 0,
                   job_created_at = job_now, job_updated_at = job_now\<rparr> in
       bindE (flush (insert_job job)) (\<lambda>_. returnE event))))))))"

text \<open>\<open>session.scalars(...).one_or_none()\<close>\<close>

definition one_or_none :: "'a list \<Rightarrow> exc + 'a option" where
  "one_or_none rows =
     (case rows of [] \<Rightarrow> Inr None | [r] \<Rightarrow> Inr (Some r) | _ \<Rightarrow> Inl MultipleResultsFound)"

definition scoped_rows :: "uuid \<Rightarrow> string \<Rightarrow> db \<Rightarrow> event_row list" where
  "scoped_rows endpoint_id idempotency_key d =
     filter (\<lambda>r. ev_endpoint_id r = endpoint_id \<and> ev_idempotency_key r = Some idempotency_key) (events d)"

definition equivalent_row :: "env \<Rightarrow> string \<Rightarrow> json \<Rightarrow> event_row \<Rightarrow> bool" where
  "equivalent_row e event_type payload r \<longleftrightarrow>
     ev_event_type r = event_type \<and> e_jsonb_eq e (ev_payload r) payload"

text \<open>A parameter the server cannot take as text or JSONB is refused with a data error.\<close>

definition bad_parameter :: exc where
  "bad_parameter = DataError ''webhook_events''"

definition find_equivalent_webhook_event ::
    "uuid \<Rightarrow> string \<Rightarrow> json \<Rightarrow> string \<Rightarrow> (world, event_row option) io" where
  "find_equivalent_webhook_event endpoint_id event_type payload idempotency_key =
     sql (\<lambda>e locked d.
       if \<not> (text_ok idempotency_key \<and> text_ok event_type \<and> jsonb_ok payload) then Inl bad_parameter
       else
         bindR (one_or_none (filter (equivalent_row e event_type payload)
                               (scoped_rows endpoint_id idempotency_key d)))
           (\<lambda>r. Inr (r, d)))"

definition find_webhook_event_by_scoped_key ::
    "uuid \<Rightarrow> string \<Rightarrow> (world, event_row option) io" where
  "find_webhook_event_by_scoped_key endpoint_id idempotency_key =
     sql (\<lambda>e locked d.
       if \<not> text_ok idempotency_key then Inl bad_parameter
       else bindR (one_or_none (scoped_rows endpoint_id idempotency_key d)) (\<lambda>r. Inr (r, d)))"

text \<open>The creation result: the event and whether it was created.\<close>

type_synonym creation_result = "event_row \<times> bool"

definition resolve_existing_idempotent_event ::
    "uuid \<Rightarrow> string \<Rightarrow> json \<Rightarrow> string \<Rightarrow> (world, creation_result option) io" where
  "resolve_existing_idempotent_event endpoint_id event_type payload idempotency_key =
     bindE (find_equivalent_webhook_event endpoint_id event_type payload idempotency_key)
       (\<lambda>equivalent_event.
     (case equivalent_event of
        Some event \<Rightarrow> returnE (Some (event, False))
      | None \<Rightarrow>
          bindE (find_webhook_event_by_scoped_key endpoint_id idempotency_key) (\<lambda>scoped_event.
          (case scoped_event of
             Some _ \<Rightarrow> raiseE WebhookEventIdempotencyConflictError
           | None \<Rightarrow> returnE None))))"

definition idempotency_unique_constraint :: string where
  "idempotency_unique_constraint = ''uq_webhook_events_endpoint_id_idempotency_key''"

text \<open>The handler of the nested creation's IntegrityError.\<close>

definition integrity_error_constraint_name :: "exc \<Rightarrow> string option" where
  "integrity_error_constraint_name error =
     (case error of IntegrityError constraint_name \<Rightarrow> Some constraint_name | _ \<Rightarrow> None)"

lemma integrity_error_constraint_name_simp [simp]: "integrity_error_constraint_name (IntegrityError c) = Some c"
  by (simp add: integrity_error_constraint_name_def)

definition resolve_after_conflict ::
    "uuid \<Rightarrow> string \<Rightarrow> json \<Rightarrow> string \<Rightarrow> exc \<Rightarrow> (world, creation_result) io" where
  "resolve_after_conflict endpoint_id event_type payload key error =
     (case error of
        IntegrityError _ \<Rightarrow>
          if integrity_error_constraint_name error \<noteq> Some idempotency_unique_constraint then raiseE error
          else
            bindE (resolve_existing_idempotent_event endpoint_id event_type payload key)
              (\<lambda>existing_result.
            (case existing_result of None \<Rightarrow> raiseE error | Some r \<Rightarrow> returnE r))
      | _ \<Rightarrow> raiseE error)"

definition create_keyed_event ::
    "uuid \<Rightarrow> string \<Rightarrow> json \<Rightarrow> string \<Rightarrow> (world, creation_result) io" where
  "create_keyed_event endpoint_id event_type payload key =
     bindE (resolve_existing_idempotent_event endpoint_id event_type payload key) (\<lambda>existing_result.
     (case existing_result of
        Some r \<Rightarrow> returnE r
      | None \<Rightarrow>
          try_except
            (bindE (begin_nested (create_event_with_delivery_job endpoint_id event_type payload (Some key)))
               (\<lambda>event. returnE (event, True)))
            (resolve_after_conflict endpoint_id event_type payload key)))"

definition create_idempotent_webhook_event_with_delivery_job ::
    "uuid \<Rightarrow> string \<Rightarrow> json \<Rightarrow> string option \<Rightarrow> (world, creation_result) io" where
  "create_idempotent_webhook_event_with_delivery_job endpoint_id event_type payload idempotency_key =
     bindE (liftE (normalize_webhook_idempotency_key idempotency_key)) (\<lambda>normalized_key.
     bindE (query (lookup_by ep_id endpoint_id \<circ> endpoints)) (\<lambda>endpoint.
     (case endpoint of
        None \<Rightarrow> raiseE EventWebhookEndpointNotFoundError
      | Some _ \<Rightarrow>
          (case normalized_key of
             None \<Rightarrow>
               bindE (create_event_with_delivery_job endpoint_id event_type payload None)
                 (\<lambda>event. returnE (event, True))
           | Some key \<Rightarrow> create_keyed_event endpoint_id event_type payload key))))"

definition create_webhook_event_with_delivery_job ::
    "uuid \<Rightarrow> string \<Rightarrow> json \<Rightarrow> (world, event_row) io" where
  "create_webhook_event_with_delivery_job endpoint_id event_type payload =
     bindE (create_idempotent_webhook_event_with_delivery_job endpoint_id event_type payload None)
       (\<lambda>result. returnE (fst result))"

section \<open>The key\<close>

lemma strip_strip [simp]: "strip (strip s) = strip s"
proof -
  have ends: "dropWhile py_space (dropWhile py_space t) = dropWhile py_space t" for t
    by (induction t) auto
  have drop: "dropWhile py_space (rev (dropWhile py_space (rev t))) = rev (dropWhile py_space (rev t))"
    if "dropWhile py_space t = t" for t
  proof (cases t)
    case (Cons c t')
    then have c: "\<not> py_space c" using that length_dropWhile_le [of py_space t']
      by (cases "py_space c") auto
    have "\<exists>u. rev (dropWhile py_space (rev t)) = c # u"
      by (rule exI [of _ "rev (dropWhile py_space (rev t'))"]) (simp add: Cons c dropWhile_append3)
    then show ?thesis using c by auto
  qed simp
  show ?thesis
    unfolding strip_def using drop [OF ends [of s]] by (simp add: ends)
qed

lemma normalize_key_Some:
  "normalize_webhook_idempotency_key raw = Inr (Some k) \<longleftrightarrow>
     (\<exists>s. raw = Some s \<and> k = strip s \<and> k \<noteq> '''' \<and> length k \<le> 255)"
  by (auto simp: normalize_webhook_idempotency_key_def Let_def split: option.splits)

lemma normalize_key_None: "normalize_webhook_idempotency_key raw = Inr None \<longleftrightarrow> raw = None"
  by (auto simp: normalize_webhook_idempotency_key_def Let_def split: option.splits)

section \<open>A key that is taken\<close>

lemma filter_unique:
  "distinct xs \<Longrightarrow> x \<in> set xs \<Longrightarrow> (\<And>y. y \<in> set xs \<Longrightarrow> P y \<longleftrightarrow> y = x) \<Longrightarrow> filter P xs = [x]"
proof (induction xs)
  case (Cons a xs)
  show ?case
  proof (cases "a = x")
    case True
    then have "filter P xs = []" using Cons.prems by (auto simp: filter_empty_conv)
    then show ?thesis using True Cons.prems by simp
  next
    case False
    then show ?thesis using Cons.prems by (auto intro: Cons.IH)
  qed
qed simp

definition scoped_by :: "uuid \<Rightarrow> string \<Rightarrow> event_row \<Rightarrow> bool" where
  "scoped_by endpoint_id k ev \<longleftrightarrow> ev_endpoint_id ev = endpoint_id \<and> ev_idempotency_key ev = Some k"

lemma schema_ok_distinct_events: "schema_ok d \<Longrightarrow> distinct (events d)"
  by (simp add: schema_ok_def distinct_map)

lemma schema_ok_scoped_unique:
  "schema_ok d \<Longrightarrow> r \<in> set (events d) \<Longrightarrow> r' \<in> set (events d) \<Longrightarrow>
   scoped_by ep k r \<Longrightarrow> scoped_by ep k r' \<Longrightarrow> r = r'"
  unfolding schema_ok_def scoped_by_def same_scoped_key_def by simp

lemma scoped_rows_taken:
  "schema_ok d \<Longrightarrow> ev \<in> set (events d) \<Longrightarrow> scoped_by ep k ev \<Longrightarrow> scoped_rows ep k d = [ev]"
  unfolding scoped_rows_def
  by (rule filter_unique)
    (auto simp flip: scoped_by_def intro: schema_ok_distinct_events schema_ok_scoped_unique)

lemma scoped_rows_free:
  "\<not> (\<exists>ev \<in> set (events d). scoped_by ep k ev) \<Longrightarrow> scoped_rows ep k d = []"
  by (auto simp: scoped_rows_def scoped_by_def filter_empty_conv)

lemma scoped_rows_cases:
  assumes "schema_ok d"
  obtains "scoped_rows ep k d = []" "\<not> (\<exists>ev \<in> set (events d). scoped_by ep k ev)"
  | ev where "scoped_rows ep k d = [ev]" "ev \<in> set (events d)" "scoped_by ep k ev"
  using scoped_rows_free scoped_rows_taken [OF assms] by blast

lemma one_or_none_simps [simp]:
  "one_or_none [] = Inr None" "one_or_none [r] = Inr (Some r)"
  by (simp_all add: one_or_none_def)

lemma find_equivalent_schema:
  assumes "schema_ok d"
  shows "one_or_none (filter (equivalent_row e ty p) (scoped_rows ep k d)) =
    Inr (case scoped_rows ep k d of [] \<Rightarrow> None | r # _ \<Rightarrow> if equivalent_row e ty p r then Some r else None)"
  by (rule scoped_rows_cases [OF assms, of ep k]) auto

lemma find_scoped_schema:
  assumes "schema_ok d"
  shows "one_or_none (scoped_rows ep k d) = Inr (case scoped_rows ep k d of [] \<Rightarrow> None | r # _ \<Rightarrow> Some r)"
  by (rule scoped_rows_cases [OF assms, of ep k]) auto

text \<open>
  Both lookups, whatever others commit meanwhile: a connection error, or the answer for the
  tables seen, which are left alone.
\<close>

lemma find_equivalent_cases:
  assumes "I \<le> schema_ok" and "world_inv R I w"
    and "find_equivalent_webhook_event ep ty p k w = (r, w')"
  obtains (fault) "r = Inl OperationalError" "w_env w' = w_env w"
  | (refused) "r = Inl bad_parameter" "\<not> (text_ok k \<and> text_ok ty \<and> jsonb_ok p)" "w_env w' = w_env w"
  | (ok) "text_ok k \<and> text_ok ty \<and> jsonb_ok p"
      "r = Inr (case scoped_rows ep k (w_working w') of [] \<Rightarrow> None
              | r # _ \<Rightarrow> if equivalent_row (w_env w) ty p r then Some r else None)"
      "I (w_working w')" "w_working w' = w_working w \<or> R (w_working w) (w_working w')"
      "w_env w' = w_env w"
  using assms(2) assms(3) [unfolded find_equivalent_webhook_event_def]
  by (cases rule: sql_cases) (auto simp: find_equivalent_schema predicate1D [OF assms(1)] split: if_split_asm)

lemma find_scoped_cases:
  assumes "I \<le> schema_ok" and "world_inv R I w"
    and "find_webhook_event_by_scoped_key ep k w = (r, w')"
  obtains (fault) "r = Inl OperationalError" "w_env w' = w_env w"
  | (refused) "r = Inl bad_parameter" "\<not> text_ok k" "w_env w' = w_env w"
  | (ok) "r = Inr (case scoped_rows ep k (w_working w') of [] \<Rightarrow> None | r # _ \<Rightarrow> Some r)"
      "I (w_working w')" "w_working w' = w_working w \<or> R (w_working w) (w_working w')"
      "w_env w' = w_env w"
  using assms(2) assms(3) [unfolded find_webhook_event_by_scoped_key_def]
  by (cases rule: sql_cases) (auto simp: find_scoped_schema predicate1D [OF assms(1)] split: if_split_asm)

lemma keeps_find_equivalent [keeps_intros]: "keeps R I (find_equivalent_webhook_event ep ty p k)"
  unfolding find_equivalent_webhook_event_def by (rule keeps_sql) (auto simp: bindR_eq_Inr split: if_split_asm)

lemma keeps_find_scoped [keeps_intros]: "keeps R I (find_webhook_event_by_scoped_key ep k)"
  unfolding find_webhook_event_by_scoped_key_def by (rule keeps_sql) (auto simp: bindR_eq_Inr split: if_split_asm)

lemma keeps_resolve_existing [keeps_intros]:
  "keeps R I (resolve_existing_idempotent_event ep ty p k)"
  unfolding resolve_existing_idempotent_event_def by (intro keeps_intros)

lemma reads_resolve_existing: "reads (resolve_existing_idempotent_event ep ty p k)"
  unfolding resolve_existing_idempotent_event_def find_equivalent_webhook_event_def
    find_webhook_event_by_scoped_key_def
  by (intro reads_intros reads_sql) (auto simp: bindR_eq_Inr split: if_split_asm)

context table_invariant
begin

lemma keeps_create_event: "keeps R I (create_event_with_delivery_job ep ty p k)"
  unfolding create_event_with_delivery_job_def Let_def by (intro keeps_intros keeps_inserts)

lemma keeps_resolve_after_conflict: "keeps R I (resolve_after_conflict ep ty p k e)"
  unfolding resolve_after_conflict_def
  by (cases e) (auto intro!: keeps_intros simp del: not_None_eq)

lemma keeps_create_idempotent: "keeps R I (create_idempotent_webhook_event_with_delivery_job ep ty p raw)"
  unfolding create_idempotent_webhook_event_with_delivery_job_def create_keyed_event_def
  by (intro keeps_intros keeps_create_event keeps_resolve_after_conflict)

end

text \<open>Resolution when the event of the key is known to have been recorded.\<close>

definition repeat_answer :: "env \<Rightarrow> string \<Rightarrow> json \<Rightarrow> event_row \<Rightarrow> exc + creation_result" where
  "repeat_answer e ty p ev =
     (if \<not> (text_ok ty \<and> jsonb_ok p) then Inl bad_parameter
      else if ev_event_type ev = ty \<and> e_jsonb_eq e (ev_payload ev) p then Inr (ev, False)
      else Inl WebhookEventIdempotencyConflictError)"

lemma resolve_taken:
  assumes W: "world_inv R (history_inv d0) w" and ev: "ev \<in> set (events d0)" "scoped_by ep k ev"
    and run: "resolve_existing_idempotent_event ep ty p k w = (r, w')"
  shows "r = Inl OperationalError \<or> r = bindR (repeat_answer (w_env w) ty p ev) (\<lambda>x. Inr (Some x))"
proof -
  have schema: "history_inv d0 \<le> schema_ok" by (auto simp: history_inv_def)
  have rows: "scoped_rows ep k d = [ev]" if "history_inv d0 d" for d
    using that ev by (auto simp: history_inv_def history_kept_def intro: scoped_rows_taken)
  have "history_inv d0 (w_working w)" using W by (simp add: world_inv_def)
  then have "event_data_ok ev"
    using ev(1) by (auto simp: history_inv_def history_kept_def schema_ok_def)
  then have k: "text_ok k" using ev(2) by (auto simp: event_data_ok_def varchar_def scoped_by_def)
  obtain r1 w1 where run1: "find_equivalent_webhook_event ep ty p k w = (r1, w1)" by fastforce
  have W1: "world_inv R (history_inv d0) w1" by (rule keeps_run [OF keeps_find_equivalent W run1])
  obtain r2 w2 where run2: "find_webhook_event_by_scoped_key ep k w1 = (r2, w2)" by fastforce
  have r1: "r1 = Inl OperationalError \<or> (\<not> (text_ok ty \<and> jsonb_ok p) \<and> r1 = Inl bad_parameter) \<or>
      (text_ok ty \<and> jsonb_ok p \<and> r1 = Inr (if equivalent_row (w_env w) ty p ev then Some ev else None))"
    using schema W run1 by (cases rule: find_equivalent_cases) (auto simp: rows k)
  have r2: "r2 = Inl OperationalError \<or> r2 = Inr (Some ev)"
    using schema W1 run2 by (cases rule: find_scoped_cases) (auto simp: rows k)
  have body: "(r, w') = (case r1 of Inl e \<Rightarrow> (Inl e, w1)
      | Inr None \<Rightarrow> (case r2 of Inl e \<Rightarrow> (Inl e, w2) | Inr None \<Rightarrow> (Inr None, w2)
          | Inr (Some _) \<Rightarrow> (Inl WebhookEventIdempotencyConflictError, w2))
      | Inr (Some x) \<Rightarrow> (Inr (Some (x, False)), w1))"
    using run run1 run2
    by (simp add: resolve_existing_idempotent_event_def bindE_def returnE_def raiseE_def
        split: sum.splits option.splits)
  show ?thesis
  proof (cases "r1 = Inl OperationalError")
    case True
    then show ?thesis using body by simp
  next
    case False
    then show ?thesis
      using r1 r2 body by (auto simp: repeat_answer_def equivalent_row_def split: if_splits)
  qed
qed

text \<open>
  C3: Idempotency under any interleaving. Once an event with the endpoint and key is recorded,
  every later request with the same key (before or after stripping) returns that very event when
  its type and payload match, and the conflict error when they do not; the only other outcomes are
  the data error of a type or payload that the server cannot store at all, and a lost database
  connection. It writes nothing: whatever other transactions commit in between, as long as recorded
  events stay, the tables of the request are exactly what those transactions make of them.
\<close>

theorem idempotent_repeat:
  assumes "world_inv R (history_inv d0) w" and "ev \<in> set (events d0)"
    and "ev_endpoint_id ev = ep" and "ev_idempotency_key ev = Some k"
    and "normalize_webhook_idempotency_key raw = Inr (Some k)"
    and "create_idempotent_webhook_event_with_delivery_job ep ty p raw w = (r, w')"
  shows "(r = Inl OperationalError \<or> r = repeat_answer (w_env w) ty p ev) \<and> only_others w w'"
proof -
  let ?find = "query (lookup_by ep_id ep \<circ> endpoints)"
  obtain r1 w1 where run1: "?find w = (r1, w1)" by fastforce
  have W1: "world_inv R (history_inv d0) w1" by (rule keeps_run [OF keeps_query assms(1) run1])
  have found: "\<exists>x. lookup_by ep_id ep (endpoints d) = Some x" if "history_inv d0 d" for d
    using that assms(2,3) by (intro lookup_by_ex) (auto simp: history_inv_def history_kept_def schema_ok_def)
  have r1: "(r1 = Inl OperationalError \<or> (\<exists>x. r1 = Inr (Some x))) \<and> w_env w1 = w_env w"
    using assms(1) run1 by (cases rule: query_cases) (auto dest: found)
  obtain r2 w2 where run2: "resolve_existing_idempotent_event ep ty p k w1 = (r2, w2)" by fastforce
  have r2: "r2 = Inl OperationalError \<or> r2 = bindR (repeat_answer (w_env w) ty p ev) (\<lambda>x. Inr (Some x))"
    using resolve_taken [OF W1 assms(2) _ run2] assms(3,4) r1 by (simp add: scoped_by_def)
  have only: "only_others w w1" "only_others w w2"
    using reads_run [OF reads_query run1] reads_run [OF reads_resolve_existing run2] only_others_trans by auto
  have body: "(r, w') = (case r1 of Inl e \<Rightarrow> (Inl e, w1) | Inr _ \<Rightarrow>
      (case r2 of Inl e \<Rightarrow> (Inl e, w2) | Inr (Some x) \<Rightarrow> (Inr x, w2) | Inr None \<Rightarrow> (r, w')))"
    using assms(5,6) r1 run1 run2
    by (auto simp: create_idempotent_webhook_event_with_delivery_job_def create_keyed_event_def
        bindE_def liftE_def returnE_def raiseE_def split: sum.split option.split)
  show ?thesis
    using body r1 r2 only by (cases "repeat_answer (w_env w) ty p ev") auto
qed

section \<open>Creation under interference\<close>

abbreviation growing :: "world \<Rightarrow> bool" where
  "growing \<equiv> world_inv history_kept schema_ok"

abbreviation key_conflict :: exc where
  "key_conflict \<equiv> IntegrityError idempotency_unique_constraint"

text \<open>The savepoint just set holds the tables the transaction sees.\<close>

definition saved :: "world \<Rightarrow> bool" where
  "saved w \<longleftrightarrow> (\<exists>ds. w_savepoints w = w_working w # ds)"

definition has_job :: "event_row \<Rightarrow> db \<Rightarrow> bool" where
  "has_job ev d \<longleftrightarrow> (\<exists>j \<in> set (jobs d). job_event_id j = ev_id ev)"

definition scope_taken :: "uuid \<Rightarrow> string \<Rightarrow> db \<Rightarrow> bool" where
  "scope_taken ep k d \<longleftrightarrow> (\<exists>ev \<in> set (events d). scoped_by ep k ev)"

lemma has_job_history: "has_job ev d \<Longrightarrow> history_kept d d' \<Longrightarrow> has_job ev d'"
proof -
  assume "has_job ev d" and h: "history_kept d d'"
  then obtain j where j: "j \<in> set (jobs d)" "job_event_id j = ev_id ev" by (auto simp: has_job_def)
  then have "job_identity j \<in> job_identity ` set (jobs d')" using h by (auto simp: history_kept_def)
  then show ?thesis using j by (auto simp: has_job_def job_identity_def)
qed

lemma scope_taken_history: "scope_taken ep k d \<Longrightarrow> history_kept d d' \<Longrightarrow> scope_taken ep k d'"
  by (auto simp: scope_taken_def history_kept_def)

lemma event_history: "ev \<in> set (events d) \<Longrightarrow> history_kept d d' \<Longrightarrow> ev \<in> set (events d')"
  by (auto simp: history_kept_def)

lemma insert_event_conflict:
  assumes "insert_event ev d = Inl key_conflict" and "ev_idempotency_key ev = Some k"
  shows "scope_taken (ev_endpoint_id ev) k d"
proof -
  from assms(1) obtain r where "r \<in> set (events d)" "same_scoped_key ev r"
    by (auto simp: insert_event_def idempotency_unique_constraint_def split: if_splits)
  then show ?thesis using assms(2) by (auto simp: scope_taken_def scoped_by_def same_scoped_key_def)
qed

lemma insert_job_no_conflict: "insert_job j d \<noteq> Inl key_conflict"
  by (auto simp: insert_job_def job_check_def idempotency_unique_constraint_def split: option.splits)

lemma insert_event_no_conflict: "ev_idempotency_key ev = None \<Longrightarrow> insert_event ev d \<noteq> Inl key_conflict"
  by (auto simp: insert_event_def same_scoped_key_def idempotency_unique_constraint_def)

lemma saved_next_stmt: "saved w \<Longrightarrow> next_stmt w = (se, w1) \<Longrightarrow> saved w1"
  by (auto simp: saved_def next_stmt_def split: list.splits)

lemma saved_sql_raise: "saved w \<Longrightarrow> sql op w = (Inl e, w') \<Longrightarrow> saved w'"
  using saved_next_stmt [of w "fst (next_stmt w)" "snd (next_stmt w)"]
  by (auto simp: sql_def split: prod.splits option.splits sum.splits)

lemma saved_ticks [simp]: "saved (w\<lparr>w_ticks := n\<rparr>) = saved w"
  by (simp add: saved_def)

text \<open>
  The body of the savepoint: a conflict on the key leaves the conflicting event in the tables the
  savepoint restores.
\<close>

definition conflict_seen :: "bool \<Rightarrow> uuid \<Rightarrow> string option \<Rightarrow> exc \<Rightarrow> world \<Rightarrow> bool" where
  "conflict_seen b ep k e w \<longleftrightarrow>
     growing w \<and> (e = key_conflict \<longrightarrow>
       (\<exists>k'. k = Some k' \<and> scope_taken ep k' (w_working w) \<and> (b \<longrightarrow> saved w)))"

definition event_created :: "uuid \<Rightarrow> string \<Rightarrow> json \<Rightarrow> string option \<Rightarrow> event_row \<Rightarrow> db \<Rightarrow> bool" where
  "event_created ep ty p k ev d \<longleftrightarrow>
     ev \<in> set (events d) \<and> ev_endpoint_id ev = ep \<and> ev_event_type ev = ty \<and> ev_payload ev = p \<and>
     ev_idempotency_key ev = k \<and> has_job ev d"

lemma event_created_history: "event_created ep ty p k ev d \<Longrightarrow> history_kept d d' \<Longrightarrow> event_created ep ty p k ev d'"
  by (auto simp: event_created_def dest: has_job_history event_history)

lemma triple_flush_event:
  assumes "ev_endpoint_id ev = ep" and "ev_idempotency_key ev = k"
  shows "triple (\<lambda>w. growing w \<and> (b \<longrightarrow> saved w)) (flush (insert_event ev))
    (\<lambda>_ w. growing w \<and> ev \<in> set (events (w_working w))) (conflict_seen b ep k)"
proof (rule tripleI)
  fix w and x :: unit and w1
  assume "growing w \<and> (b \<longrightarrow> saved w)" and run: "flush (insert_event ev) w = (Inr x, w1)"
  then have w: "growing w" by simp
  have "growing w1" by (rule keeps_run [OF schema.keeps_flush_event w run])
  moreover have "ev \<in> set (events (w_working w1))"
    using w run by (cases rule: flush_cases) (auto simp: insert_event_Inr)
  ultimately show "growing w1 \<and> ev \<in> set (events (w_working w1))" by simp
next
  fix w e w1
  assume P: "growing w \<and> (b \<longrightarrow> saved w)" and run: "flush (insert_event ev) w = (Inl e, w1)"
  then have w: "growing w" by simp
  have "b \<longrightarrow> saved w1" using P saved_sql_raise [OF _ run [unfolded flush_def]] by simp
  moreover have "growing w1" by (rule keeps_run [OF schema.keeps_flush_event w run])
  moreover have "\<exists>k'. k = Some k' \<and> scope_taken ep k' (w_working w1)" if "e = key_conflict"
    using w run that insert_event_no_conflict [of ev] insert_event_conflict [of ev] assms
    by (cases rule: flush_cases; cases k) (auto dest: insert_event_conflict)
  ultimately show "conflict_seen b ep k e w1"
    by (simp add: conflict_seen_def)
qed

lemma triple_flush_job:
  assumes "job_event_id j = ev_id ev"
  shows "triple (\<lambda>w. growing w \<and> ev \<in> set (events (w_working w))) (flush (insert_job j))
    (\<lambda>_ w. growing w \<and> ev \<in> set (events (w_working w)) \<and> has_job ev (w_working w)) (conflict_seen b ep k)"
proof (rule tripleI)
  fix w and x :: unit and w1
  assume w: "growing w \<and> ev \<in> set (events (w_working w))" and run: "flush (insert_job j) w = (Inr x, w1)"
  have "growing w1" using w by (auto intro: keeps_run [OF schema.keeps_flush_job _ run])
  moreover have "ev \<in> set (events (w_working w1)) \<and> has_job ev (w_working w1)"
    using w [THEN conjunct1] run
  proof (cases rule: flush_cases)
    case (ok d)
    then have "ev \<in> set (events d)" using w by (auto dest: event_history)
    then show ?thesis using ok assms by (auto simp: insert_job_Inr has_job_def)
  qed auto
  ultimately show "growing w1 \<and> ev \<in> set (events (w_working w1)) \<and> has_job ev (w_working w1)" by simp
next
  fix w e w1
  assume w: "growing w \<and> ev \<in> set (events (w_working w))" and run: "flush (insert_job j) w = (Inl e, w1)"
  have "growing w1" using w by (auto intro: keeps_run [OF schema.keeps_flush_job _ run])
  moreover have "e \<noteq> key_conflict"
    using w [THEN conjunct1] run by (cases rule: flush_cases) (auto simp: insert_job_no_conflict)
  ultimately show "conflict_seen b ep k e w1" by (simp add: conflict_seen_def)
qed

lemma triple_create_event:
  "triple (\<lambda>w. growing w \<and> (b \<longrightarrow> saved w)) (create_event_with_delivery_job ep ty p k)
     (\<lambda>ev w. growing w \<and> event_created ep ty p k ev (w_working w)) (conflict_seen b ep k)"
  unfolding create_event_with_delivery_job_def Let_def
  apply (rule triple_bindE [OF triple_tick], simp)
  apply (rule triple_bindE [OF triple_tick], simp)
  apply (rule triple_bindE [OF triple_flush_event], simp, simp)
  apply (rule triple_bindE [OF triple_tick], simp)
  apply (rule triple_bindE [OF triple_tick], simp)
  apply (rule triple_bindE [OF triple_flush_job], simp)
  apply (rule triple_returnE, simp add: event_created_def)
  done

lemma triple_rollback_to_savepoint:
  "triple (\<lambda>w. saved w \<and> Q (w_working w) \<and> world_inv R I w) rollback_to_savepoint
     (\<lambda>_ w. Q (w_working w) \<and> world_inv R I w) E"
  by (auto simp: triple_def rollback_to_savepoint_def saved_def world_inv_def)

lemma triple_rollback_growing: "triple (world_inv R I) rollback_to_savepoint (\<lambda>_. world_inv R I) E"
  by (auto simp: triple_def rollback_to_savepoint_def world_inv_def split: list.splits)

lemma triple_push_savepoint:
  "triple growing push_savepoint (\<lambda>_ w. growing w \<and> saved w) (\<lambda>e w. growing w \<and> e \<noteq> key_conflict)"
proof (rule tripleI)
  fix w and x :: unit and w1 assume w: "growing w" and run: "push_savepoint w = (Inr x, w1)"
  show "growing w1 \<and> saved w1"
    using keeps_run [OF keeps_push_savepoint w run] run
    by (auto simp: push_savepoint_def bindE_Inr saved_def)
next
  fix w e w1 assume w: "growing w" and run: "push_savepoint w = (Inl e, w1)"
  then have q: "query (\<lambda>d. ()) w = (Inl e, w1)" by (auto simp: push_savepoint_def bindE_Inl)
  have "growing w1" by (rule keeps_run [OF keeps_push_savepoint w run])
  moreover have "e \<noteq> key_conflict" using w q by (cases rule: query_cases) auto
  ultimately show "growing w1 \<and> e \<noteq> key_conflict" by simp
qed

text \<open>A query with nothing to remember but what every history keeps.\<close>

lemma triple_query_history:
  assumes "\<And>d d'. Q d \<Longrightarrow> history_kept d d' \<Longrightarrow> Q d'"
  shows "triple (\<lambda>w. growing w \<and> Q (w_working w)) (query f)
    (\<lambda>x w. growing w \<and> Q (w_working w) \<and> x = f (w_working w))
    (\<lambda>e w. growing w \<and> Q (w_working w) \<and> e \<noteq> key_conflict)"
proof -
  have result: "growing w1 \<and> (r = Inl OperationalError \<or> r = Inr (f (w_working w1))) \<and> Q (w_working w1)"
    if w: "growing w \<and> Q (w_working w)" and run: "query f w = (r, w1)" for w r w1
  proof -
    have g: "growing w1" using w by (auto intro: keeps_run [OF keeps_query _ run])
    obtain se w2 where n: "next_stmt w = (se, w2)" by fastforce
    have "Q (w_working w2)"
      using next_stmt_rely [OF w [THEN conjunct1] n] w assms by auto
    moreover have "w1 = w2"
      using run n by (auto simp: query_def sql_def split: option.splits)
    ultimately show ?thesis using g w [THEN conjunct1] run by (auto elim: query_cases)
  qed
  show ?thesis by (rule tripleI; drule (1) result; simp)
qed

lemma triple_release_savepoint:
  assumes "\<And>d d'. Q d \<Longrightarrow> history_kept d d' \<Longrightarrow> Q d'"
  shows "triple (\<lambda>w. growing w \<and> Q (w_working w)) release_savepoint
    (\<lambda>x w. growing w \<and> Q (w_working w)) (\<lambda>e w. growing w \<and> e \<noteq> key_conflict)"
  unfolding release_savepoint_def
proof (rule triple_bindE)
  show "triple (\<lambda>w. growing w \<and> Q (w_working w)) (query (\<lambda>d. ()))
      (\<lambda>x w. growing w \<and> Q (w_working w)) (\<lambda>e w. growing w \<and> e \<noteq> key_conflict)"
    by (rule triple_weaken [OF triple_query_history [OF assms]]) auto
  show "triple (\<lambda>w. growing w \<and> Q (w_working w)) (\<lambda>w. (Inr (), w\<lparr>w_savepoints := tl (w_savepoints w)\<rparr>))
      (\<lambda>x w. growing w \<and> Q (w_working w)) (\<lambda>e w. growing w \<and> e \<noteq> key_conflict)" for x :: unit
    by (auto simp: triple_def world_inv_def dest: in_set_tlD)
qed

text \<open>The nested creation: a key conflict is rolled back, and the conflicting event is visible.\<close>

lemma triple_undo_creation:
  "triple (conflict_seen True ep (Some k) e) (bindE rollback_to_savepoint (\<lambda>_. raiseE e))
     Q (\<lambda>e w. growing w \<and> (e = key_conflict \<longrightarrow> scope_taken ep k (w_working w)))"
proof (cases "e = key_conflict")
  case True
  have "triple (\<lambda>w. saved w \<and> scope_taken ep k (w_working w) \<and> growing w)
      (bindE rollback_to_savepoint (\<lambda>_. raiseE e)) Q
      (\<lambda>e w. growing w \<and> (e = key_conflict \<longrightarrow> scope_taken ep k (w_working w)))"
    by (rule triple_bindE [OF triple_rollback_to_savepoint], rule triple_raiseE) simp
  then show ?thesis
    by (rule triple_weaken) (auto simp: conflict_seen_def True)
next
  case False
  have "triple growing (bindE rollback_to_savepoint (\<lambda>_. raiseE e)) Q
      (\<lambda>e w. growing w \<and> (e = key_conflict \<longrightarrow> scope_taken ep k (w_working w)))"
    by (rule triple_bindE [OF triple_rollback_growing], rule triple_raiseE) (simp add: False)
  then show ?thesis
    by (rule triple_weaken) (auto simp: conflict_seen_def)
qed

lemma triple_nested_creation:
  "triple growing (begin_nested (create_event_with_delivery_job ep ty p (Some k)))
     (\<lambda>ev w. growing w \<and> event_created ep ty p (Some k) ev (w_working w))
     (\<lambda>e w. growing w \<and> (e = key_conflict \<longrightarrow> scope_taken ep k (w_working w)))"
  unfolding begin_nested_def
proof (rule triple_bindE)
  show "triple growing push_savepoint (\<lambda>_ w. growing w \<and> saved w)
      (\<lambda>e w. growing w \<and> (e = key_conflict \<longrightarrow> scope_taken ep k (w_working w)))"
    by (rule triple_weaken [OF triple_push_savepoint]) auto
next
  fix x :: unit
  have body: "triple (\<lambda>w. growing w \<and> saved w) (create_event_with_delivery_job ep ty p (Some k))
      (\<lambda>ev w. growing w \<and> event_created ep ty p (Some k) ev (w_working w)) (conflict_seen True ep (Some k))"
    by (rule triple_weaken [OF triple_create_event [of True]]) auto
  have release: "triple (\<lambda>w. growing w \<and> event_created ep ty p (Some k) ev (w_working w)) release_savepoint
      (\<lambda>_ w. growing w \<and> event_created ep ty p (Some k) ev (w_working w))
      (\<lambda>e w. growing w \<and> (e = key_conflict \<longrightarrow> scope_taken ep k (w_working w)))" for ev
    by (rule triple_weaken [OF triple_release_savepoint [OF event_created_history]]) auto
  show "triple (\<lambda>w. growing w \<and> saved w)
     (bindE (try_except (create_event_with_delivery_job ep ty p (Some k))
              (\<lambda>e. bindE rollback_to_savepoint (\<lambda>_. raiseE e)))
       (\<lambda>x. bindE release_savepoint (\<lambda>_. returnE x)))
     (\<lambda>ev w. growing w \<and> event_created ep ty p (Some k) ev (w_working w))
     (\<lambda>e w. growing w \<and> (e = key_conflict \<longrightarrow> scope_taken ep k (w_working w)))"
    by (rule triple_bindE, rule triple_try_except [OF body triple_undo_creation],
        rule triple_bindE [OF release], rule triple_returnE)
qed

section \<open>The outcome of a creation\<close>

text \<open>What a resolution tells about the tables it leaves behind.\<close>

fun resolution_sound ::
    "env \<Rightarrow> uuid \<Rightarrow> string \<Rightarrow> json \<Rightarrow> string \<Rightarrow> exc + creation_result option \<Rightarrow> db \<Rightarrow> bool" where
  "resolution_sound env ep ty p k (Inl e) d = (e \<noteq> key_conflict)"
| "resolution_sound env ep ty p k (Inr None) d = (\<not> scope_taken ep k d)"
| "resolution_sound env ep ty p k (Inr (Some (ev, c))) d =
     (\<not> c \<and> ev \<in> set (events d) \<and> scoped_by ep k ev \<and> equivalent_row env ty p ev)"

lemma resolve_sound:
  assumes w: "growing w" and run: "resolve_existing_idempotent_event ep ty p k w = (r, w')"
  shows "resolution_sound (w_env w) ep ty p k r (w_working w')"
proof -
  obtain r1 w1 where run1: "find_equivalent_webhook_event ep ty p k w = (r1, w1)" by fastforce
  have w1: "growing w1" by (rule keeps_run [OF keeps_find_equivalent w run1])
  obtain r2 w2 where run2: "find_webhook_event_by_scoped_key ep k w1 = (r2, w2)" by fastforce
  have w2: "growing w2" by (rule keeps_run [OF keeps_find_scoped w1 run2])
  have s1: "schema_ok (w_working w1)" and s2: "schema_ok (w_working w2)"
    using w1 w2 by (simp_all add: world_inv_def)
  have r1: "r1 = Inl OperationalError \<or> r1 = Inl bad_parameter \<or> r1 = Inr None \<or>
      (\<exists>ev. r1 = Inr (Some ev) \<and> ev \<in> set (events (w_working w1)) \<and> scoped_by ep k ev \<and>
         equivalent_row (w_env w) ty p ev)"
    using order_refl w run1
  proof (cases rule: find_equivalent_cases)
    case ok
    show ?thesis
      by (rule scoped_rows_cases [OF s1, of ep k]) (simp_all add: ok(2))
  qed auto
  have r2: "r2 = Inl OperationalError \<or> r2 = Inl bad_parameter \<or> (r2 = Inr None \<and> \<not> scope_taken ep k (w_working w2)) \<or>
      (\<exists>ev. r2 = Inr (Some ev))"
    using order_refl w1 run2
  proof (cases rule: find_scoped_cases)
    case ok
    show ?thesis
      by (rule scoped_rows_cases [OF s2, of ep k]) (simp_all add: ok(1) scope_taken_def)
  qed auto
  show ?thesis
    using run run1 run2 r1 r2
    by (auto simp: resolve_existing_idempotent_event_def bindE_def returnE_def raiseE_def bad_parameter_def)
qed

text \<open>When the key was seen to be taken, the resolution cannot find nothing.\<close>

lemma resolve_not_none:
  assumes w: "growing w" "scope_taken ep k (w_working w)"
    and run: "resolve_existing_idempotent_event ep ty p k w = (r, w')"
  shows "r \<noteq> Inr None"
proof
  assume "r = Inr None"
  with run obtain w1 where run1: "find_equivalent_webhook_event ep ty p k w = (Inr None, w1)"
    and run2: "find_webhook_event_by_scoped_key ep k w1 = (Inr None, w')"
    by (auto simp: resolve_existing_idempotent_event_def bindE_Inr returnE_def raiseE_def split: option.splits)
  have w1: "growing w1" by (rule keeps_run [OF keeps_find_equivalent w(1) run1])
  have "scope_taken ep k (w_working w1)"
    using order_refl w(1) run1 by (cases rule: find_equivalent_cases) (auto intro: scope_taken_history w(2))
  note taken = this
  have "scope_taken ep k (w_working w')"
    using order_refl w1 run2 by (cases rule: find_scoped_cases) (auto intro: scope_taken_history taken)
  then show False
    using resolve_sound [OF w(1) run] \<open>r = Inr None\<close> by simp
qed

fun creation_sound ::
    "env \<Rightarrow> uuid \<Rightarrow> string \<Rightarrow> json \<Rightarrow> string option \<Rightarrow> exc + creation_result \<Rightarrow> db \<Rightarrow> bool" where
  "creation_sound env ep ty p k (Inl e) d = (e \<noteq> key_conflict)"
| "creation_sound env ep ty p k (Inr (ev, c)) d =
     (if c then event_created ep ty p k ev d
      else ev \<in> set (events d) \<and> ev_endpoint_id ev = ep \<and> k \<noteq> None \<and> ev_idempotency_key ev = k \<and>
           ev_event_type ev = ty \<and> e_jsonb_eq env (ev_payload ev) p)"

lemma resolution_creation:
  "resolution_sound env ep ty p k (Inr (Some r)) d \<Longrightarrow> creation_sound env ep ty p (Some k) (Inr r) d"
  by (cases r) (simp add: scoped_by_def equivalent_row_def)

lemma resolve_after_conflict_sound:
  assumes w: "growing w" "e = key_conflict \<longrightarrow> scope_taken ep k (w_working w)"
    and run: "resolve_after_conflict ep ty p k e w = (r, w')"
  shows "creation_sound (w_env w) ep ty p (Some k) r (w_working w')"
proof (cases "e = key_conflict")
  case True
  obtain r1 w1 where run1: "resolve_existing_idempotent_event ep ty p k w = (r1, w1)" by fastforce
  have "resolution_sound (w_env w) ep ty p k r1 (w_working w1)" by (rule resolve_sound [OF w(1) run1])
  moreover have "r1 \<noteq> Inr None" using resolve_not_none [OF w(1) _ run1] w(2) True by simp
  moreover have "(case r1 of Inl e' \<Rightarrow> (Inl e', w1) | Inr None \<Rightarrow> (Inl e, w1) | Inr (Some x) \<Rightarrow> (Inr x, w1)) = (r, w')"
    using run run1
    by (auto simp: True resolve_after_conflict_def bindE_def returnE_def raiseE_def split: sum.splits option.splits)
  ultimately show ?thesis
    by (auto split: sum.splits option.splits intro: resolution_creation)
next
  case False
  then have "r = Inl e" using run
    by (auto simp: resolve_after_conflict_def raiseE_def split: exc.splits if_splits)
  then show ?thesis using False by simp
qed

text \<open>A creation that ends in a reuse has written nothing: its insertion was the statement that failed.\<close>

lemma creation_conflict_reads:
  assumes "create_event_with_delivery_job ep ty p k w = (Inl key_conflict, w')"
  shows "only_others w w'"
proof -
  let ?ticks = "\<lambda>w. w\<lparr>w_ticks := Suc (Suc (w_ticks w))\<rparr>"
  have job: "flush (insert_job j) w1 \<noteq> (Inl key_conflict, w2)" for j w1 w2
    using flush_raises [of "insert_job j" w1 key_conflict w2] insert_job_no_conflict by auto
  obtain ev where "flush (insert_event ev) (?ticks w) = (Inl key_conflict, w')"
    using assms job
    by (auto simp: create_event_with_delivery_job_def Let_def tick_def returnE_def bindE_Inl bindE_Inr)
  then have "only_others (?ticks w) w'" unfolding flush_def by (rule only_others_sql_raise)
  then show ?thesis by (simp add: only_others_def)
qed

lemma nested_conflict_reads:
  assumes "begin_nested (create_event_with_delivery_job ep ty p k) w = (Inl key_conflict, w')"
  shows "only_others w w'"
proof -
  let ?push = "\<lambda>w. w\<lparr>w_savepoints := w_working w # w_savepoints w\<rparr>"
  have q: "query (\<lambda>d. ()) w1 \<noteq> (Inl key_conflict, w2)" for w1 w2
    using query_raises [of "\<lambda>d. ()" w1 key_conflict w2] by auto
  obtain x w1 w2 u where "query (\<lambda>d. ()) w = (Inr x, w1)"
    and create: "create_event_with_delivery_job ep ty p k (?push w1) = (Inl key_conflict, w2)"
    and undo: "rollback_to_savepoint w2 = (Inr u, w')"
    using assms q
    by (auto simp: begin_nested_def push_savepoint_def release_savepoint_def returnE_def raiseE_def
        rollback_to_savepoint_def bindE_Inl bindE_Inr try_except_Inl)
  then have "only_others w w1" by (auto intro: reads_run [OF reads_query])
  moreover have "only_others w1 w'"
    by (rule only_others_rollback_to_savepoint [OF creation_conflict_reads [OF create] undo])
  ultimately show ?thesis by (rule only_others_trans)
qed

lemma reuse_writes_nothing:
  assumes "create_idempotent_webhook_event_with_delivery_job ep ty p raw w = (Inr (ev, False), w')"
  shows "only_others w w'"
proof -
  obtain x w1 k where run: "query (lookup_by ep_id ep \<circ> endpoints) w = (Inr x, w1)"
      "create_keyed_event ep ty p k w1 = (Inr (ev, False), w')"
    using assms
    by (auto simp: create_idempotent_webhook_event_with_delivery_job_def bindE_Inr liftE_def returnE_def
        raiseE_def split: option.splits)
  then obtain res w2 where resolve: "resolve_existing_idempotent_event ep ty p k w1 = (Inr res, w2)"
    and rest: "res = Some (ev, False) \<and> w' = w2 \<or>
      (\<exists>e w3. begin_nested (create_event_with_delivery_job ep ty p (Some k)) w2 = (Inl e, w3) \<and>
         resolve_after_conflict ep ty p k e w3 = (Inr (ev, False), w'))"
    by (auto simp: create_keyed_event_def bindE_Inr bindE_Inl try_except_Inr returnE_def split: option.splits)
  have only: "only_others w w2"
    using only_others_trans [OF reads_run [OF reads_query run(1)] reads_run [OF reads_resolve_existing resolve]] .
  from rest show ?thesis
  proof
    assume "res = Some (ev, False) \<and> w' = w2"
    with only show ?thesis by simp
  next
    assume "\<exists>e w3. begin_nested (create_event_with_delivery_job ep ty p (Some k)) w2 = (Inl e, w3) \<and>
         resolve_after_conflict ep ty p k e w3 = (Inr (ev, False), w')"
    then obtain e w3 where nested: "begin_nested (create_event_with_delivery_job ep ty p (Some k)) w2 = (Inl e, w3)"
      and handler: "resolve_after_conflict ep ty p k e w3 = (Inr (ev, False), w')" by blast
    then have "e = key_conflict" and "reads (resolve_after_conflict ep ty p k e)"
      by (auto simp: resolve_after_conflict_def raiseE_def split: exc.splits if_splits
          intro!: reads_intros reads_resolve_existing)
    then show ?thesis
      using only_others_trans [OF only only_others_trans [OF nested_conflict_reads
            reads_run [where m = "resolve_after_conflict ep ty p k e"]]] nested handler by simp
  qed
qed

lemma env_kept_create [field_intros]: "env_kept (create_event_with_delivery_job ep ty p k)"
  unfolding create_event_with_delivery_job_def Let_def by (intro field_intros)

lemma env_kept_resolve [field_intros]: "env_kept (resolve_existing_idempotent_event ep ty p k)"
  unfolding resolve_existing_idempotent_event_def find_equivalent_webhook_event_def
    find_webhook_event_by_scoped_key_def
  by (intro field_intros)

lemma create_keyed_sound:
  assumes w: "growing w" and run: "create_keyed_event ep ty p k w = (r, w')"
  shows "creation_sound (w_env w) ep ty p (Some k) r (w_working w')"
proof -
  let ?create = "begin_nested (create_event_with_delivery_job ep ty p (Some k))"
  obtain r1 w1 where run1: "resolve_existing_idempotent_event ep ty p k w = (r1, w1)" by fastforce
  have w1: "growing w1" by (rule keeps_run [OF keeps_resolve_existing w run1])
  have s1: "resolution_sound (w_env w) ep ty p k r1 (w_working w1)" by (rule resolve_sound [OF w run1])
  obtain r2 w2 where run2: "?create w1 = (r2, w2)" by fastforce
  have env: "w_env w2 = w_env w"
    using env_keptD [OF env_kept_resolve run1] env_keptD [OF blocks_kept(1) [OF env_kept_create] run2] by simp
  show ?thesis
  proof (cases r1)
    case (Inl e)
    with run run1 have "r = Inl e" by (simp add: create_keyed_event_def bindE_def)
    with s1 Inl show ?thesis by simp
  next
    case (Inr res)
    show ?thesis
    proof (cases res)
      case (Some x)
      with run run1 s1 Inr have "r = Inr x" "w' = w1"
        by (simp_all add: create_keyed_event_def bindE_def returnE_def)
      with s1 Inr Some show ?thesis by (auto intro: resolution_creation)
    next
      case None
      show ?thesis
      proof (cases r2)
        case (Inl e)
        then have "resolve_after_conflict ep ty p k e w2 = (r, w')"
          using run run1 run2 \<open>r1 = Inr res\<close> None
          by (simp add: create_keyed_event_def bindE_def try_except_def)
        moreover have "growing w2" "e = key_conflict \<longrightarrow> scope_taken ep k (w_working w2)"
          using tripleD_Inl [OF triple_nested_creation w1 run2 [unfolded Inl]] by auto
        ultimately show ?thesis using resolve_after_conflict_sound env by metis
      next
        case (Inr ev)
        then have "r = Inr (ev, True)" "w' = w2"
          using run run1 run2 \<open>r1 = Inr res\<close> None
          by (simp_all add: create_keyed_event_def bindE_def try_except_def returnE_def)
        moreover have "event_created ep ty p (Some k) ev (w_working w2)"
          using tripleD_Inr [OF triple_nested_creation w1 run2 [unfolded Inr]] by simp
        ultimately show ?thesis by simp
      qed
    qed
  qed
qed

lemma creation_sound_run:
  assumes "growing w"
    and "normalize_webhook_idempotency_key raw = Inr key"
    and "create_idempotent_webhook_event_with_delivery_job ep ty p raw w = (r, w')"
  shows "growing w' \<and> creation_sound (w_env w) ep ty p key r (w_working w')"
proof
  show "growing w'" by (rule keeps_run [OF schema.keeps_create_idempotent assms(1,3)])
  let ?find = "query (lookup_by ep_id ep \<circ> endpoints)"
  obtain r1 w1 where run1: "?find w = (r1, w1)" by fastforce
  have w1: "growing w1" by (rule keeps_run [OF keeps_query assms(1) run1])
  have env: "w_env w1 = w_env w" by (rule env_keptD [OF stmts_kept(1) run1])
  have e1: "\<exists>x. r1 = Inl OperationalError \<or> r1 = Inr x"
    using assms(1) run1 by (cases rule: query_cases) auto
  consider (early) "(\<exists>e. r = Inl e \<and> e \<noteq> key_conflict)"
    | (plain) "key = None" "bindE (create_event_with_delivery_job ep ty p None) (\<lambda>event. returnE (event, True)) w1 = (r, w')"
    | (keyed) k where "key = Some k" "create_keyed_event ep ty p k w1 = (r, w')"
    using assms(2,3) run1 e1
    by (auto simp: create_idempotent_webhook_event_with_delivery_job_def bindE_def liftE_def raiseE_def
        split: option.splits)
  then show "creation_sound (w_env w) ep ty p key r (w_working w')"
  proof cases
    case plain
    obtain r2 w2 where run2: "create_event_with_delivery_job ep ty p None w1 = (r2, w2)" by fastforce
    show ?thesis
    proof (cases r2)
      case (Inl e)
      with plain run2 tripleD_Inl [OF triple_create_event [of False] _ run2 [unfolded Inl]] w1
      show ?thesis by (auto simp: bindE_def conflict_seen_def)
    next
      case (Inr ev)
      with plain run2 tripleD_Inr [OF triple_create_event [of False] _ run2 [unfolded Inr]] w1
      show ?thesis by (auto simp: bindE_def returnE_def)
    qed
  next
    case keyed
    then show ?thesis using create_keyed_sound [OF w1] env by metis
  qed auto
qed

text \<open>
  C4: What a creation request promises under any interleaving with transactions that only add
  to the history. A created event is in the transaction's tables with the request's endpoint, type,
  payload and normalized key, together with its delivery job; a reused event has the same endpoint,
  key and type and an equal payload, and is only ever returned for a keyed request. The unique
  violation of a concurrent request with the same key never reaches the caller: it always
  becomes a reuse or the conflict error.
\<close>

theorem creation_outcome:
  assumes "growing w"
    and "normalize_webhook_idempotency_key raw = Inr key"
    and "create_idempotent_webhook_event_with_delivery_job ep ty p raw w = (r, w')"
  shows "growing w' \<and> creation_sound (w_env w) ep ty p key r (w_working w')"
  by (rule creation_sound_run [OF assms])

end
