(* ===== verification/Delivery_Http.thy ===== *)
theory Delivery_Http
  imports Session_Rules
begin

text \<open>
  \<open>delivery_http.py\<close>: the transport interface the delivery service calls and the adapter over the
  third-party HTTP client. The client itself is \<open>e_http\<close>, an arbitrary function of the time of the
  call, the URL and the payload, whose result is a response, a timeout, another request error
  (both with the exception's class name) or any other exception. The interface is the locale
  \<open>webhook_http_client\<close>; the adapter is its interpretation.
\<close>

section \<open>Error identifiers\<close>

definition ascii_letter :: "char \<Rightarrow> bool" where
  "ascii_letter c \<longleftrightarrow>
     (let n = of_char c :: nat in (65 \<le> n \<and> n \<le> 90) \<or> (97 \<le> n \<and> n \<le> 122))"

definition identifier_char :: "char \<Rightarrow> bool" where
  "identifier_char c \<longleftrightarrow>
     ascii_letter c \<or> (let n = of_char c :: nat in (48 \<le> n \<and> n \<le> 57) \<or> n = 95)"

text \<open>A full match of the pattern \<open>[A-Za-z][A-Za-z0-9_]{0,63}\<close>.\<close>

definition error_type_name_pattern :: "string \<Rightarrow> bool" where
  "error_type_name_pattern s \<longleftrightarrow>
     (case s of [] \<Rightarrow> False
      | c # cs \<Rightarrow> ascii_letter c \<and> list_all identifier_char cs \<and> length cs \<le> 63)"

text \<open>The checks of the constructor of \<open>WebhookTransportError\<close>: the stored identifier.\<close>

definition webhook_transport_error_init :: "string \<Rightarrow> exc + string" where
  "webhook_transport_error_init error_type_name =
     (if \<not> error_type_name_pattern error_type_name
      then Inl (ValueError
        ''error_type_name must be a 1-64 character ASCII identifier starting with a letter'')
      else Inr error_type_name)"

section \<open>The adapter\<close>

text \<open>\<open>timeout_seconds <= 0 or not math.isfinite(timeout_seconds)\<close>\<close>

definition timeout_msg :: string where
  "timeout_msg = ''timeout_seconds must be a finite positive number''"

definition check_post_timeout :: "pyval \<Rightarrow> exc + unit" where
  "check_post_timeout timeout_seconds =
     (case timeout_seconds of
        VBool b \<Rightarrow> if b then Inr () else Inl (ValueError timeout_msg)
      | VInt n \<Rightarrow>
          if n \<le> 0 then Inl (ValueError timeout_msg)
          else bindR (float_of_int n) (\<lambda>_. Inr ())
      | VFloat (Fin x) \<Rightarrow> if x \<le> 0 then Inl (ValueError timeout_msg) else Inr ()
      | VFloat _ \<Rightarrow> Inl (ValueError timeout_msg)
      | _ \<Rightarrow> Inl (TypeError ''not supported between instances''))"

text \<open>The call of the third-party client.\<close>

definition client_post :: "string \<Rightarrow> json \<Rightarrow> pyval \<Rightarrow> (world, httpx_result) io" where
  "client_post target_url payload timeout_seconds w =
     tick (\<lambda>e n. e_http e n target_url payload) (emit (Http_post target_url payload timeout_seconds) w)"

definition httpx2_post_json :: "string \<Rightarrow> json \<Rightarrow> pyval \<Rightarrow> (world, int) io" where
  "httpx2_post_json target_url payload timeout_seconds =
     bindE (liftE (check_post_timeout timeout_seconds)) (\<lambda>_.
     bindE (client_post target_url payload timeout_seconds) (\<lambda>response.
     (case response of
        Httpx_response status_code \<Rightarrow> returnE status_code
      | Httpx_timeout name \<Rightarrow>
          liftE (bindR (webhook_transport_error_init name) (\<lambda>n. Inl (WebhookTimeoutError n)))
      | Httpx_request_error name \<Rightarrow>
          liftE (bindR (webhook_transport_error_init name) (\<lambda>n. Inl (WebhookTransportError n)))
      | Httpx_other name \<Rightarrow> raiseE (HttpClientError name))))"

section \<open>The interface\<close>

text \<open>Everything of the world but the trace and the clock.\<close>

definition same_store :: "world \<Rightarrow> world \<Rightarrow> bool" where
  "same_store w w' \<longleftrightarrow>
     w_env w' = w_env w \<and> w_committed w' = w_committed w \<and> w_working w' = w_working w \<and>
     w_savepoints w' = w_savepoints w \<and> w_script w' = w_script w \<and> w_polls w' = w_polls w"

lemma same_store_refl [simp]: "same_store w w"
  by (simp add: same_store_def)

lemma same_store_trans: "same_store a b \<Longrightarrow> same_store b c \<Longrightarrow> same_store a c"
  by (simp add: same_store_def)

lemma same_store_ticks [simp]: "same_store w (w\<lparr>w_ticks := n\<rparr>)"
  by (simp add: same_store_def)

lemma same_store_world_inv: "same_store w w' \<Longrightarrow> world_inv R I w' = world_inv R I w"
  by (simp add: same_store_def world_inv_def)

text \<open>
  What the delivery service relies on: a post touches neither the tables nor the script, sends
  the request at most once and exactly once when it returns a response or one of the two expected
  transport errors, and the expected errors carry a safe identifier.
\<close>

locale webhook_http_client =
  fixes post_json :: "string \<Rightarrow> json \<Rightarrow> pyval \<Rightarrow> (world, int) io"
  assumes post_store: "post_json u p t w = (r, w') \<Longrightarrow> same_store w w'"
    and post_trace: "post_json u p t w = (r, w') \<Longrightarrow>
      w_trace w' = w_trace w \<or> w_trace w' = w_trace w @ [Http_post u p t]"
    and post_response: "post_json u p t w = (Inr s, w') \<Longrightarrow> w_trace w' = w_trace w @ [Http_post u p t]"
    and post_timeout: "post_json u p t w = (Inl (WebhookTimeoutError n), w') \<Longrightarrow>
      w_trace w' = w_trace w @ [Http_post u p t] \<and> error_type_name_pattern n"
    and post_transport: "post_json u p t w = (Inl (WebhookTransportError n), w') \<Longrightarrow>
      w_trace w' = w_trace w @ [Http_post u p t] \<and> error_type_name_pattern n"

context webhook_http_client
begin

lemma keeps_post_json: "keeps R I (post_json u p t)"
proof -
  have "world_inv R I (snd (post_json u p t w))" if "world_inv R I w" for w
    using that post_store [of u p t w "fst (post_json u p t w)" "snd (post_json u p t w)"]
    by (simp add: same_store_world_inv)
  then show ?thesis by (simp add: keeps_def)
qed

end

lemma client_post_run:
  "client_post u p t w =
     (Inr (e_http (w_env w) (w_ticks w) u p),
      (emit (Http_post u p t) w)\<lparr>w_ticks := Suc (w_ticks w)\<rparr>)"
  by (simp add: client_post_def tick_def)

lemma httpx2_post_json_run:
  "httpx2_post_json u p t w =
     (case check_post_timeout t of
        Inl e \<Rightarrow> (Inl e, w)
      | Inr _ \<Rightarrow>
          ((case e_http (w_env w) (w_ticks w) u p of
              Httpx_response s \<Rightarrow> Inr s
            | Httpx_timeout n \<Rightarrow>
                if error_type_name_pattern n then Inl (WebhookTimeoutError n)
                else Inl (ValueError
                  ''error_type_name must be a 1-64 character ASCII identifier starting with a letter'')
            | Httpx_request_error n \<Rightarrow>
                if error_type_name_pattern n then Inl (WebhookTransportError n)
                else Inl (ValueError
                  ''error_type_name must be a 1-64 character ASCII identifier starting with a letter'')
            | Httpx_other n \<Rightarrow> Inl (HttpClientError n)),
           (emit (Http_post u p t) w)\<lparr>w_ticks := Suc (w_ticks w)\<rparr>))"
  by (simp add: httpx2_post_json_def bindE_def liftE_def returnE_def raiseE_def client_post_run
      webhook_transport_error_init_def split: sum.splits httpx_result.splits)

lemma check_post_timeout_Inl:
  "check_post_timeout t = Inl e \<Longrightarrow> (\<exists>m. e = ValueError m) \<or> (\<exists>m. e = TypeError m) \<or> (\<exists>m. e = OverflowError m)"
  by (auto simp: check_post_timeout_def float_of_int_def bindR_eq_Inl
      split: pyval.splits pyfloat.splits if_splits)

interpretation httpx2: webhook_http_client httpx2_post_json
  by unfold_locales
    (auto simp: httpx2_post_json_run same_store_def dest: check_post_timeout_Inl
      split: sum.splits httpx_result.splits if_splits)

end
