(* ===== verification/Delivery_Service.thy ===== *)
theory Delivery_Service
  imports Schema Delivery_Http
begin

text \<open>
  \<open>delivery_service.py\<close>: preparing one delivery (event, active endpoint, next attempt number),
  performing one HTTP request through the transport interface, classifying its result, and
  recording the completed attempt in the caller's transaction.
\<close>

section \<open>Preparation\<close>

record prepared_delivery =
  pd_event_id :: uuid
  pd_target_url :: string
  pd_payload :: json
  pd_attempt_number :: int

definition get_event :: "uuid \<Rightarrow> db \<Rightarrow> event_row option" where
  "get_event i d = lookup_by ev_id i (events d)"

definition get_endpoint :: "uuid \<Rightarrow> db \<Rightarrow> endpoint_row option" where
  "get_endpoint i d = lookup_by ep_id i (endpoints d)"

text \<open>\<open>select(func.max(attempt_number)).where(event_id == ...)\<close>\<close>

definition attempt_numbers :: "uuid \<Rightarrow> db \<Rightarrow> int list" where
  "attempt_numbers i d = map at_attempt_number (filter (\<lambda>a. at_event_id a = i) (attempts d))"

definition max_attempt_number :: "uuid \<Rightarrow> db \<Rightarrow> int option" where
  "max_attempt_number i d =
     (case attempt_numbers i d of [] \<Rightarrow> None | n # ns \<Rightarrow> Some (fold max ns n))"

definition next_attempt_number :: "int option \<Rightarrow> int" where
  "next_attempt_number maximum_attempt_number =
     (case maximum_attempt_number of None \<Rightarrow> 1 | Some n \<Rightarrow> n + 1)"

definition prepared_for :: "event_row \<Rightarrow> endpoint_row \<Rightarrow> int option \<Rightarrow> prepared_delivery" where
  "prepared_for event endpoint maximum_attempt_number =
     \<lparr>pd_event_id = ev_id event,
      pd_target_url = ep_target_url endpoint,
      pd_payload = ev_payload event,
      pd_attempt_number = next_attempt_number maximum_attempt_number\<rparr>"

definition prepare_webhook_delivery :: "uuid \<Rightarrow> (world, prepared_delivery) io" where
  "prepare_webhook_delivery event_id =
     bindE (query (get_event event_id)) (\<lambda>ev.
     (case ev of None \<Rightarrow> raiseE WebhookEventNotFoundError
      | Some event \<Rightarrow>
     bindE (query (get_endpoint (ev_endpoint_id event))) (\<lambda>ep.
     (case ep of None \<Rightarrow> raiseE WebhookEndpointNotFoundError
      | Some endpoint \<Rightarrow>
     if \<not> ep_is_active endpoint then raiseE InactiveWebhookEndpointError
     else
     bindE (query (max_attempt_number event_id)) (\<lambda>maximum_attempt_number.
     returnE (prepared_for event endpoint maximum_attempt_number))))))"

section \<open>One attempt\<close>

text \<open>How the request ended, for the three branches of the \<open>try\<close>.\<close>

datatype post_outcome =
    Responded int
  | Timed_out
  | Transport_failed string

definition try_post :: "(world, int) io \<Rightarrow> (world, post_outcome) io" where
  "try_post m =
     try_except (bindE m (\<lambda>status_code. returnE (Responded status_code)))
       (\<lambda>e. case e of
          WebhookTimeoutError _ \<Rightarrow> returnE Timed_out
        | WebhookTransportError error_type_name \<Rightarrow> returnE (Transport_failed error_type_name)
        | _ \<Rightarrow> raiseE e)"

text \<open>Outcome, response status and error message of the attempt.\<close>

fun classify :: "post_outcome \<Rightarrow> string \<times> int option \<times> string option" where
  "classify (Responded s) =
     (if 200 \<le> s \<and> s \<le> 299 then (''succeeded'', Some s, None)
      else (''failed'', Some s, Some (''HTTP response returned status '' @ show_int s)))"
| "classify Timed_out = (''failed'', None, Some ''Webhook request timed out'')"
| "classify (Transport_failed n) = (''failed'', None, Some (''Webhook request failed: '' @ n))"

definition completed_attempt ::
    "uuid \<Rightarrow> prepared_delivery \<Rightarrow> instant \<Rightarrow> int \<Rightarrow> int \<Rightarrow> post_outcome \<Rightarrow> attempt_row" where
  "completed_attempt i prepared attempted_at started_ns finished_ns res =
     (case classify res of (outcome, response_status_code, error_message) \<Rightarrow>
       \<lparr>at_id = i,
        at_event_id = pd_event_id prepared,
        at_attempt_number = pd_attempt_number prepared,
        at_outcome = outcome,
        at_target_url = pd_target_url prepared,
        at_response_status_code = response_status_code,
        at_error_message = error_message,
        at_duration_ms = max 0 ((finished_ns - started_ns) div 1000000),
        at_attempted_at = attempted_at\<rparr>)"

text \<open>From the start of the request to the flush of the attempt.\<close>

definition deliver_prepared ::
    "(string \<Rightarrow> json \<Rightarrow> pyval \<Rightarrow> (world, int) io) \<Rightarrow> prepared_delivery \<Rightarrow> pyval \<Rightarrow> instant
     \<Rightarrow> (world, attempt_row) io" where
  "deliver_prepared post_json prepared timeout_seconds attempted_at =
     bindE (tick e_monotonic_ns) (\<lambda>started_ns.
     bindE (try_post (post_json (pd_target_url prepared) (pd_payload prepared) timeout_seconds)) (\<lambda>res.
     bindE (tick e_monotonic_ns) (\<lambda>finished_ns.
     bindE (tick e_uuid4) (\<lambda>attempt_id.
     (let attempt = completed_attempt attempt_id prepared attempted_at started_ns finished_ns res in
      bindE (flush (insert_attempt attempt)) (\<lambda>_. returnE attempt))))))"

definition execute_webhook_delivery ::
    "(string \<Rightarrow> json \<Rightarrow> pyval \<Rightarrow> (world, int) io) \<Rightarrow> uuid \<Rightarrow> pyval \<Rightarrow> (world, attempt_row) io" where
  "execute_webhook_delivery post_json event_id timeout_seconds =
     bindE (prepare_webhook_delivery event_id) (\<lambda>prepared.
     bindE (tick e_utc_now) (\<lambda>attempted_at.
     (case dt_tz attempted_at of
        Tz_offset off \<Rightarrow>
          deliver_prepared post_json prepared timeout_seconds (dt_local attempted_at - off)
      | _ \<Rightarrow> raiseE (ValueError ''utc_now must return a timezone-aware datetime''))))"

section \<open>Attempt numbers\<close>

lemma fold_max_eq: "fold max ns n = Max (set (n # ns))"
  by (metis Max.set_eq_fold)

lemma max_attempt_number_Some:
  "max_attempt_number i d = Some m \<Longrightarrow> m \<in> set (attempt_numbers i d) \<and> (\<forall>n \<in> set (attempt_numbers i d). n \<le> m)"
proof -
  assume "max_attempt_number i d = Some m"
  then obtain n ns where ns: "attempt_numbers i d = n # ns" and m: "m = Max (set (n # ns))"
    by (auto simp: max_attempt_number_def fold_max_eq simp del: fold.simps split: list.splits)
  show ?thesis unfolding ns m by (intro conjI ballI Max_in Max_ge) auto
qed

lemma max_attempt_number_None: "max_attempt_number i d = None \<longleftrightarrow> attempt_numbers i d = []"
  by (simp add: max_attempt_number_def split: list.splits)

section \<open>Classification\<close>

lemma classify_outcome: "fst (classify res) \<in> {''succeeded'', ''failed''}"
  by (cases res) auto

lemma classify_succeeded:
  "fst (classify res) = ''succeeded'' \<longleftrightarrow> (\<exists>s. res = Responded s \<and> 200 \<le> s \<and> s \<le> 299)"
  by (cases res) auto

lemma completed_attempt_sel [simp]:
  "at_id (completed_attempt i p t s f res) = i"
  "at_event_id (completed_attempt i p t s f res) = pd_event_id p"
  "at_attempt_number (completed_attempt i p t s f res) = pd_attempt_number p"
  "at_outcome (completed_attempt i p t s f res) = fst (classify res)"
  "at_target_url (completed_attempt i p t s f res) = pd_target_url p"
  "at_response_status_code (completed_attempt i p t s f res) = fst (snd (classify res))"
  "at_error_message (completed_attempt i p t s f res) = snd (snd (classify res))"
  "at_duration_ms (completed_attempt i p t s f res) = max 0 ((f - s) div 1000000)"
  "at_attempted_at (completed_attempt i p t s f res) = t"
  by (simp_all add: completed_attempt_def split: prod.splits)

section \<open>Keeping invariants\<close>

lemma keeps_prepare [keeps_intros]: "keeps R I (prepare_webhook_delivery i)"
  unfolding prepare_webhook_delivery_def by (intro keeps_intros)

lemma keeps_try_post: "keeps R I m \<Longrightarrow> keeps R I (try_post m)"
  unfolding try_post_def
  by (intro keeps_try_except keeps_bindE keeps_returnE)
    (auto intro: keeps_returnE keeps_raiseE split: exc.splits)

text \<open>The invariants that one delivery through the given transport keeps.\<close>

locale delivery_invariant = job_invariant R I for R I +
  fixes post_json :: "string \<Rightarrow> json \<Rightarrow> pyval \<Rightarrow> (world, int) io"
  assumes keeps_delivery: "keeps R I (execute_webhook_delivery post_json i t)"

text \<open>Any invariant of all writes is one, for every transport that meets the interface.\<close>

locale store_delivery = store_invariant R I + webhook_http_client post_json for R I post_json

sublocale store_delivery \<subseteq> delivery_invariant R I post_json
proof unfold_locales
  fix i t
  show "keeps R I (execute_webhook_delivery post_json i t)"
    unfolding execute_webhook_delivery_def deliver_prepared_def
    by (intro keeps_bindE keeps_prepare keeps_tick)
      (auto simp: Let_def intro!: keeps_bindE keeps_tick keeps_try_post keeps_post_json
        keeps_flush_attempt keeps_returnE keeps_raiseE split: pytz.splits)
qed

interpretation schema_delivery: store_delivery R schema_ok httpx2_post_json for R
  by unfold_locales

interpretation history_delivery: store_delivery R "history_inv d0" httpx2_post_json for R d0
  by unfold_locales

section \<open>Requests sent\<close>

lemma silent_prepare [field_intros]:
  "silent (prepare_webhook_delivery i)" "env_kept (prepare_webhook_delivery i)"
  "unpolled (prepare_webhook_delivery i)"
  unfolding prepare_webhook_delivery_def by (intro field_intros)+

text \<open>The requests of an operation: at most one, and one when it succeeds.\<close>

definition one_post :: "(effect \<Rightarrow> bool) \<Rightarrow> (world, 'a) io \<Rightarrow> bool" where
  "one_post P m \<longleftrightarrow>
     (\<forall>w r w'. m w = (r, w') \<longrightarrow>
        (w_trace w' = w_trace w \<and> isl r) \<or> (\<exists>e. P e \<and> w_trace w' = w_trace w @ [e]))"

lemma one_post_silent_before: "silent m \<Longrightarrow> (\<And>x. one_post P (f x)) \<Longrightarrow> one_post P (bindE m f)"
  unfolding one_post_def by (auto simp: bindE_def split: prod.splits sum.splits dest: silentD)
    (metis silentD)+

lemma one_post_silent_after: "one_post P m \<Longrightarrow> (\<And>x. silent (f x)) \<Longrightarrow> one_post P (bindE m f)"
  unfolding one_post_def by (auto simp: bindE_def split: prod.splits sum.splits dest: silentD)
    (metis silentD isl_def sum.disc(2))+

lemma one_post_raiseE: "one_post P (raiseE e)"
  by (simp add: one_post_def raiseE_def)

lemma one_post_if:
  "(b \<Longrightarrow> one_post P m) \<Longrightarrow> (\<not> b \<Longrightarrow> one_post P m') \<Longrightarrow> one_post P (if b then m else m')"
  by simp

lemma one_post_case_option:
  "one_post P m \<Longrightarrow> (\<And>x. one_post P (f x)) \<Longrightarrow> one_post P (case v of None \<Rightarrow> m | Some x \<Rightarrow> f x)"
  by (cases v) simp_all

definition is_post :: "pyval \<Rightarrow> effect \<Rightarrow> bool" where
  "is_post t e \<longleftrightarrow> (\<exists>u p. e = Http_post u p t)"

context webhook_http_client
begin

lemma post_kept: "env_kept (post_json u p t)" "unpolled (post_json u p t)"
  using post_store unfolding field_kept_def same_store_def by (metis prod.collapse)+

lemma delivery_kept:
  "env_kept (execute_webhook_delivery post_json i t)" "unpolled (execute_webhook_delivery post_json i t)"
proof -
  have "field_kept f (execute_webhook_delivery post_json i t)"
    if "\<And>p :: prepared_delivery. field_kept f (post_json (pd_target_url p) (pd_payload p) t)"
      and "field_kept f (prepare_webhook_delivery i)"
      and "\<And>g :: env \<Rightarrow> nat \<Rightarrow> int. field_kept f (tick g)"
      and "\<And>g :: env \<Rightarrow> nat \<Rightarrow> pydatetime. field_kept f (tick g)"
      and "\<And>g :: env \<Rightarrow> nat \<Rightarrow> uuid. field_kept f (tick g)"
      and "\<And>h. field_kept f (flush h)" for f :: "world \<Rightarrow> 'f"
  proof -
    have post: "field_kept f (try_post (post_json (pd_target_url p) (pd_payload p) t))" for p :: prepared_delivery
      unfolding try_post_def
      by (intro field_kept_try_except field_kept_bindE that field_kept_return)
        (auto intro: field_kept_return split: exc.splits)
    have "field_kept f (deliver_prepared post_json p t at)" for p at
      unfolding deliver_prepared_def Let_def
      by (intro field_kept_bindE post that field_kept_return)
    then show ?thesis
      unfolding execute_webhook_delivery_def
      by (intro field_kept_bindE that) (auto intro: field_kept_return split: pytz.split)
  qed
  from this [of w_env] this [of w_polls] show
    "env_kept (execute_webhook_delivery post_json i t)" "unpolled (execute_webhook_delivery post_json i t)"
    by (simp_all add: post_kept field_intros)
qed

lemma one_post_try_post: "one_post (is_post t) (try_post (post_json u p t))"
  unfolding one_post_def
proof (intro allI impI)
  fix w r w' assume run: "try_post (post_json u p t) w = (r, w')"
  obtain r1 w1 where post: "post_json u p t w = (r1, w1)" by fastforce
  have w': "w' = w1" using run post
    by (auto simp: try_post_def try_except_def bindE_def returnE_def raiseE_def
        split: sum.splits exc.splits)
  have "isl r \<or> w_trace w1 = w_trace w @ [Http_post u p t]"
  proof (cases r1)
    case (Inr s)
    then show ?thesis using post_response [OF post [unfolded Inr]] by simp
  next
    case (Inl e)
    then show ?thesis
      using run post post_timeout [of u p t w _ w1] post_transport [of u p t w _ w1]
      by (cases e) (auto simp: try_post_def try_except_def bindE_def returnE_def raiseE_def)
  qed
  then show "(w_trace w' = w_trace w \<and> isl r) \<or> (\<exists>e. is_post t e \<and> w_trace w' = w_trace w @ [e])"
    using post_trace [OF post] by (auto simp: w' is_post_def)
qed

lemma one_post_delivery: "one_post (is_post t) (execute_webhook_delivery post_json i t)"
  unfolding execute_webhook_delivery_def
proof (intro one_post_silent_before silent_prepare silent_tick)
  fix pd and now :: pydatetime
  have "one_post (is_post t) (deliver_prepared post_json pd t at)" for at
    unfolding deliver_prepared_def Let_def
    by (intro one_post_silent_before one_post_silent_after one_post_try_post silent_tick field_intros)
  then show "one_post (is_post t) (case dt_tz now of
      Tz_offset off \<Rightarrow> deliver_prepared post_json pd t (dt_local now - off)
    | _ \<Rightarrow> raiseE (ValueError ''utc_now must return a timezone-aware datetime''))"
    by (auto intro: one_post_raiseE split: pytz.split)
qed

end

lemmas one_post_execute = httpx2.one_post_delivery

text \<open>One delivery when nothing interferes: the whole run.\<close>

lemma prepare_run:
  assumes "w_script w = []" and "get_event i (w_working w) = Some ev"
    and "get_endpoint (ev_endpoint_id ev) (w_working w) = Some ep" and "ep_is_active ep"
  shows "prepare_webhook_delivery i w = (Inr (prepared_for ev ep (max_attempt_number i (w_working w))), w)"
  using assms by (simp add: prepare_webhook_delivery_def bindE_def returnE_def query_quiet)

lemma prepare_event:
  "prepare_webhook_delivery i w = (Inr p, w') \<Longrightarrow> pd_event_id p = i"
proof -
  assume run: "prepare_webhook_delivery i w = (Inr p, w')"
  from run obtain ev w1 where q: "query (get_event i) w = (Inr (Some ev), w1)"
    and p: "pd_event_id p = ev_id ev"
    by (auto simp: prepare_webhook_delivery_def bindE_Inr returnE_def raiseE_def prepared_for_def
        split: option.splits if_splits)
  from q obtain d where "get_event i d = Some ev"
    by (auto simp: query_def sql_def split: prod.splits option.splits)
  then show ?thesis by (auto simp: p get_event_def dest: lookup_by_Some)
qed

lemma deliver_prepared_event:
  "deliver_prepared post_json p t at w = (Inr a, w') \<Longrightarrow> at_event_id a = pd_event_id p"
  by (auto simp: deliver_prepared_def Let_def bindE_Inr tick_def returnE_def)

lemma delivery_event:
  assumes "execute_webhook_delivery post_json i t w = (Inr a, w')"
  shows "at_event_id a = i"
proof -
  from assms obtain p w1 w2 and now :: pydatetime where p: "prepare_webhook_delivery i w = (Inr p, w1)"
    and rest: "(case dt_tz now of
        Tz_offset off \<Rightarrow> deliver_prepared post_json p t (dt_local now - off)
      | _ \<Rightarrow> raiseE (ValueError ''utc_now must return a timezone-aware datetime'')) w2 = (Inr a, w')"
    unfolding execute_webhook_delivery_def bindE_Inr by blast
  show ?thesis
    using rest prepare_event [OF p]
    by (cases "dt_tz now") (auto simp: raiseE_def dest: deliver_prepared_event)
qed

text \<open>The result of the request as the delivery sees it, when the transport does its part.\<close>

fun outcome_of :: "httpx_result \<Rightarrow> post_outcome option" where
  "outcome_of (Httpx_response s) = Some (Responded s)"
| "outcome_of (Httpx_timeout n) = (if error_type_name_pattern n then Some Timed_out else None)"
| "outcome_of (Httpx_request_error n) =
     (if error_type_name_pattern n then Some (Transport_failed n) else None)"
| "outcome_of (Httpx_other n) = None"

text \<open>What any other end of the request raises: the client's own exception, or that of a name it cannot store.\<close>

fun unexpected_error :: "httpx_result \<Rightarrow> exc" where
  "unexpected_error (Httpx_other n) = HttpClientError n"
| "unexpected_error _ =
     ValueError ''error_type_name must be a 1-64 character ASCII identifier starting with a letter''"

lemma try_post_unexpected:
  assumes "check_post_timeout t = Inr ()" and "outcome_of (e_http (w_env w) (w_ticks w) u p) = None"
  shows "try_post (httpx2_post_json u p t) w =
    (Inl (unexpected_error (e_http (w_env w) (w_ticks w) u p)), (emit (Http_post u p t) w)\<lparr>w_ticks := Suc (w_ticks w)\<rparr>)"
  using assms
  by (cases "e_http (w_env w) (w_ticks w) u p")
    (auto simp: try_post_def try_except_def bindE_def raiseE_def httpx2_post_json_run split: if_splits)

lemma check_post_timeout_error: "check_post_timeout t = Inl e \<Longrightarrow>
    (\<exists>m. e = ValueError m) \<or> (\<exists>m. e = TypeError m) \<or> (\<exists>m. e = OverflowError m)"
  by (auto simp: check_post_timeout_def float_of_int_def bindR_eq_Inl split: pyval.splits pyfloat.splits if_splits)

lemma try_post_bad_timeout:
  assumes "check_post_timeout t = Inl e"
  shows "try_post (httpx2_post_json u p t) w = (Inl e, w)"
  using check_post_timeout_error [OF assms] assms
  by (auto simp: try_post_def try_except_def bindE_def raiseE_def httpx2_post_json_run)

lemma try_post_run:
  assumes "check_post_timeout t = Inr ()"
    and "outcome_of (e_http (w_env w) (w_ticks w) u p) = Some res"
  shows "try_post (httpx2_post_json u p t) w =
    (Inr res, (emit (Http_post u p t) w)\<lparr>w_ticks := Suc (w_ticks w)\<rparr>)"
  using assms
  by (cases "e_http (w_env w) (w_ticks w) u p")
    (auto simp: try_post_def try_except_def bindE_def returnE_def httpx2_post_json_run split: if_splits)

lemma deliver_run:
  assumes "w_script w = []" and "check_post_timeout t = Inr ()"
    and "outcome_of (e_http (w_env w) (w_ticks w + 1) (pd_target_url pd) (pd_payload pd)) = Some res"
  shows "deliver_prepared httpx2_post_json pd t at w =
    (let n = w_ticks w; e = w_env w;
         a = completed_attempt (e_uuid4 e (n + 3)) pd at (e_monotonic_ns e n) (e_monotonic_ns e (n + 2)) res;
         w1 = (emit (Http_post (pd_target_url pd) (pd_payload pd) t) w)\<lparr>w_ticks := n + 4\<rparr>
     in case insert_attempt a (w_working w) of
          Inl x \<Rightarrow> (Inl x, w1)
        | Inr d \<Rightarrow> (Inr a, w1\<lparr>w_working := d\<rparr>))"
  using assms
  by (simp add: deliver_prepared_def bindE_def tick_def try_post_run flush_quiet returnE_def Let_def
      eval_nat_numeral split: sum.splits)

text \<open>A delivery that is prepared at an aware time.\<close>

lemma execute_delivery_run:
  assumes "w_script w = []" and "get_event i (w_working w) = Some ev"
    and "get_endpoint (ev_endpoint_id ev) (w_working w) = Some ep" and "ep_is_active ep"
    and "dt_tz (e_utc_now (w_env w) (w_ticks w)) = Tz_offset off"
  shows "execute_webhook_delivery httpx2_post_json i t w =
    deliver_prepared httpx2_post_json (prepared_for ev ep (max_attempt_number i (w_working w))) t
      (dt_local (e_utc_now (w_env w) (w_ticks w)) - off) (w\<lparr>w_ticks := Suc (w_ticks w)\<rparr>)"
  using assms by (simp add: execute_webhook_delivery_def bindE_def tick_def prepare_run [OF assms(1-4)])

lemma prepared_for_sel [simp]:
  "pd_event_id (prepared_for ev ep m) = ev_id ev"
  "pd_target_url (prepared_for ev ep m) = ep_target_url ep"
  "pd_payload (prepared_for ev ep m) = ev_payload ev"
  "pd_attempt_number (prepared_for ev ep m) = next_attempt_number m"
  by (simp_all add: prepared_for_def)

lemma delivery_explicit:
  assumes "w_script w = []" and "get_event i (w_working w) = Some ev"
    and "get_endpoint (ev_endpoint_id ev) (w_working w) = Some ep" and "ep_is_active ep"
    and "dt_tz (e_utc_now (w_env w) (w_ticks w)) = Tz_offset off" and "check_post_timeout t = Inr ()"
    and "outcome_of (e_http (w_env w) (w_ticks w + 2) (ep_target_url ep) (ev_payload ev)) = Some res"
  obtains a w1 where
    "execute_webhook_delivery httpx2_post_json i t w =
      (case insert_attempt a (w_working w) of
         Inl x \<Rightarrow> (Inl x, w1) | Inr d \<Rightarrow> (Inr a, w1\<lparr>w_working := d\<rparr>))"
    "a = completed_attempt (e_uuid4 (w_env w) (w_ticks w + 4))
      (prepared_for ev ep (max_attempt_number i (w_working w)))
      (dt_local (e_utc_now (w_env w) (w_ticks w)) - off)
      (e_monotonic_ns (w_env w) (w_ticks w + 1)) (e_monotonic_ns (w_env w) (w_ticks w + 3)) res"
    "w1 = (emit (Http_post (ep_target_url ep) (ev_payload ev) t) w)\<lparr>w_ticks := w_ticks w + 5\<rparr>"
proof -
  define w0 where "w0 = w\<lparr>w_ticks := Suc (w_ticks w)\<rparr>"
  let ?pd = "prepared_for ev ep (max_attempt_number i (w_working w))"
  have w0: "w_script w0 = []" "w_env w0 = w_env w" "w_working w0 = w_working w"
    using assms(1) by (simp_all add: w0_def)
  have t: "w_ticks w0 = w_ticks w + 1" and sums: "w_ticks w + 1 + 1 = w_ticks w + 2"
    "w_ticks w + 1 + 2 = w_ticks w + 3" "w_ticks w + 1 + 3 = w_ticks w + 4" "w_ticks w + 1 + 4 = w_ticks w + 5"
    by (simp_all add: w0_def)
  have e: "(emit x w0)\<lparr>w_ticks := n\<rparr> = (emit x w)\<lparr>w_ticks := n\<rparr>" for x n
    by (simp add: w0_def emit_def)
  have http: "outcome_of (e_http (w_env w0) (w_ticks w0 + 1) (pd_target_url ?pd) (pd_payload ?pd)) = Some res"
    unfolding w0 t sums prepared_for_sel by (rule assms(7))
  note run = execute_delivery_run [OF assms(1-5), of t]
    deliver_run [OF w0(1) assms(6) http, of "dt_local (e_utc_now (w_env w) (w_ticks w)) - off"]
  show thesis
    by (rule that [OF _ refl refl])
      (simp only: run w0_def [symmetric] Let_def t sums e w0 prepared_for_sel)
qed

text \<open>The deliveries that record nothing: a rejected timeout sends nothing, an unexpected error comes after the request.\<close>

lemma delivery_unsent:
  assumes "w_script w = []" and "get_event i (w_working w) = Some ev"
    and "get_endpoint (ev_endpoint_id ev) (w_working w) = Some ep" and "ep_is_active ep"
    and "dt_tz (e_utc_now (w_env w) (w_ticks w)) = Tz_offset off" and "check_post_timeout t = Inl e"
  shows "execute_webhook_delivery httpx2_post_json i t w = (Inl e, w\<lparr>w_ticks := w_ticks w + 2\<rparr>)"
  by (simp add: execute_delivery_run [OF assms(1-5)] deliver_prepared_def bindE_def tick_def
      try_post_bad_timeout [OF assms(6)])

lemma delivery_unexpected:
  assumes "w_script w = []" and "get_event i (w_working w) = Some ev"
    and "get_endpoint (ev_endpoint_id ev) (w_working w) = Some ep" and "ep_is_active ep"
    and "dt_tz (e_utc_now (w_env w) (w_ticks w)) = Tz_offset off" and "check_post_timeout t = Inr ()"
    and "outcome_of (e_http (w_env w) (w_ticks w + 2) (ep_target_url ep) (ev_payload ev)) = None"
  shows "execute_webhook_delivery httpx2_post_json i t w =
    (Inl (unexpected_error (e_http (w_env w) (w_ticks w + 2) (ep_target_url ep) (ev_payload ev))),
     (emit (Http_post (ep_target_url ep) (ev_payload ev) t) w)\<lparr>w_ticks := w_ticks w + 3\<rparr>)"
proof -
  let ?w = "w\<lparr>w_ticks := Suc (Suc (w_ticks w))\<rparr>"
  have "try_post (httpx2_post_json (ep_target_url ep) (ev_payload ev) t) ?w =
      (Inl (unexpected_error (e_http (w_env ?w) (w_ticks ?w) (ep_target_url ep) (ev_payload ev))),
       (emit (Http_post (ep_target_url ep) (ev_payload ev) t) ?w)\<lparr>w_ticks := Suc (w_ticks ?w)\<rparr>)"
    by (rule try_post_unexpected [OF assms(6)]) (use assms(7) in simp)
  then show ?thesis
    by (simp add: execute_delivery_run [OF assms(1-5)] deliver_prepared_def bindE_def tick_def emit_def
        eval_nat_numeral)
qed

lemma max_attempt_number_pos: "schema_ok d \<Longrightarrow> max_attempt_number i d = Some m \<Longrightarrow> 1 \<le> m"
  by (drule max_attempt_number_Some)
    (auto simp: schema_ok_def attempt_numbers_def attempt_check_def split: if_splits)

lemma show_nat_text: "CHR 0x00 \<notin> set (show_nat n)"
proof (induction n rule: show_nat.induct)
  case (1 n)
  have digit: "CHR 0x00 \<noteq> char_of (48 + k)" if "k < 10" for k :: nat
  proof
    assume "CHR 0x00 = char_of (48 + k)"
    then have "(of_char (CHR 0x00) :: nat) = of_char (char_of (48 + k) :: char)" by simp
    then show False using that by simp
  qed
  show ?case
    using 1 digit [of n] digit [of "n mod 10"] by (simp add: show_nat.simps [of n])
qed

lemma text_ok_status: "CHR 0x00 \<notin> set (show_int s)"
  by (simp add: show_int_def show_nat_text)

text \<open>
  One delivery, start to end. For a recorded event with an active endpoint the service sends one
  POST of the event's payload to the endpoint's URL and records one attempt with the next attempt
  number: succeeded exactly for a 2xx status, failed with the status and its message for any other
  status, failed without a status for a timeout or another request error, with a duration that is
  never negative. A result the attempts table rejects is an error after the request was sent.
\<close>

theorem delivery_functional:
  assumes "w_script w = []" and "get_event i (w_working w) = Some ev"
    and "get_endpoint (ev_endpoint_id ev) (w_working w) = Some ep" and "ep_is_active ep"
    and "dt_tz (e_utc_now (w_env w) (w_ticks w)) = Tz_offset off" and "check_post_timeout t = Inr ()"
    and "outcome_of (e_http (w_env w) (w_ticks w + 2) (ep_target_url ep) (ev_payload ev)) = Some res"
  shows "\<exists>a w1. w_trace w1 = w_trace w @ [Http_post (ep_target_url ep) (ev_payload ev) t] \<and>
    w_working w1 = w_working w \<and> w_committed w1 = w_committed w \<and>
    execute_webhook_delivery httpx2_post_json i t w =
      (case insert_attempt a (w_working w) of
         Inl x \<Rightarrow> (Inl x, w1) | Inr d \<Rightarrow> (Inr a, w1\<lparr>w_working := d\<rparr>)) \<and>
    at_event_id a = i \<and> at_target_url a = ep_target_url ep \<and> 0 \<le> at_duration_ms a \<and>
    at_attempt_number a = (case max_attempt_number i (w_working w) of None \<Rightarrow> 1 | Some m \<Rightarrow> m + 1) \<and>
    (at_outcome a, at_response_status_code a, at_error_message a) =
      (case res of
         Responded s \<Rightarrow>
           if s \<in> {200..299} then (''succeeded'', Some s, None)
           else (''failed'', Some s, Some (''HTTP response returned status '' @ show_int s))
       | Timed_out \<Rightarrow> (''failed'', None, Some ''Webhook request timed out'')
       | Transport_failed n \<Rightarrow> (''failed'', None, Some (''Webhook request failed: '' @ n)))"
proof -
  obtain a w1 where run: "execute_webhook_delivery httpx2_post_json i t w =
      (case insert_attempt a (w_working w) of
         Inl x \<Rightarrow> (Inl x, w1) | Inr d \<Rightarrow> (Inr a, w1\<lparr>w_working := d\<rparr>))"
    and a: "a = completed_attempt (e_uuid4 (w_env w) (w_ticks w + 4))
      (prepared_for ev ep (max_attempt_number i (w_working w)))
      (dt_local (e_utc_now (w_env w) (w_ticks w)) - off)
      (e_monotonic_ns (w_env w) (w_ticks w + 1)) (e_monotonic_ns (w_env w) (w_ticks w + 3)) res"
    and w1: "w1 = (emit (Http_post (ep_target_url ep) (ev_payload ev) t) w)\<lparr>w_ticks := w_ticks w + 5\<rparr>"
    by (rule delivery_explicit [OF assms])
  have "ev_id ev = i" using assms(2) by (auto simp: get_event_def dest: lookup_by_Some)
  then have "at_event_id a = i \<and> at_target_url a = ep_target_url ep \<and> 0 \<le> at_duration_ms a \<and>
      at_attempt_number a = (case max_attempt_number i (w_working w) of None \<Rightarrow> 1 | Some m \<Rightarrow> m + 1)"
    by (simp add: a next_attempt_number_def)
  moreover have "(at_outcome a, at_response_status_code a, at_error_message a) = classify res"
    by (simp add: a)
  moreover have "w_trace w1 = w_trace w @ [Http_post (ep_target_url ep) (ev_payload ev) t] \<and>
      w_working w1 = w_working w \<and> w_committed w1 = w_committed w"
    by (simp add: w1)
  ultimately show ?thesis
    using run by (intro exI [of _ a] exI [of _ w1] conjI) (cases res; simp)+
qed

text \<open>
  C29: A response whose status code is no HTTP status (below 100 or above 599, as some servers and
  proxies send) cannot be recorded: the request has been sent, the insertion of the attempt
  violates the status-code CHECK, and the IntegrityError leaves the service, so nothing of the
  delivery is stored.
\<close>

theorem delivery_unstorable_status:
  assumes "w_script w = []" and "get_event i (w_working w) = Some ev"
    and "get_endpoint (ev_endpoint_id ev) (w_working w) = Some ep" and "ep_is_active ep"
    and "dt_tz (e_utc_now (w_env w) (w_ticks w)) = Tz_offset off" and "check_post_timeout t = Inr ()"
    and "e_http (w_env w) (w_ticks w + 2) (ep_target_url ep) (ev_payload ev) = Httpx_response s"
    and "0 \<le> s \<and> s < 100 \<or> 599 < s \<and> s < 1000"
    and "schema_ok (w_working w)" and "int4 (next_attempt_number (max_attempt_number i (w_working w)))"
    and "int4 ((e_monotonic_ns (w_env w) (w_ticks w + 3) - e_monotonic_ns (w_env w) (w_ticks w + 1)) div 1000000)"
  shows "\<exists>w1. execute_webhook_delivery httpx2_post_json i t w =
      (Inl (IntegrityError ''ck_webhook_delivery_attempts_response_status_code''), w1) \<and>
    w_trace w1 = w_trace w @ [Http_post (ep_target_url ep) (ev_payload ev) t] \<and>
    w_working w1 = w_working w"
proof -
  have http: "outcome_of (e_http (w_env w) (w_ticks w + 2) (ep_target_url ep) (ev_payload ev)) = Some (Responded s)"
    using assms(7) by simp
  obtain a w1 where run: "execute_webhook_delivery httpx2_post_json i t w =
      (case insert_attempt a (w_working w) of
         Inl x \<Rightarrow> (Inl x, w1) | Inr d \<Rightarrow> (Inr a, w1\<lparr>w_working := d\<rparr>))"
    and a: "a = completed_attempt (e_uuid4 (w_env w) (w_ticks w + 4))
      (prepared_for ev ep (max_attempt_number i (w_working w)))
      (dt_local (e_utc_now (w_env w) (w_ticks w)) - off)
      (e_monotonic_ns (w_env w) (w_ticks w + 1)) (e_monotonic_ns (w_env w) (w_ticks w + 3)) (Responded s)"
    and w1: "w1 = (emit (Http_post (ep_target_url ep) (ev_payload ev) t) w)\<lparr>w_ticks := w_ticks w + 5\<rparr>"
    by (rule delivery_explicit [OF assms(1-6) http])
  have n: "1 \<le> at_attempt_number a" "int4 (at_attempt_number a)"
    using assms(9,10) by (auto simp: a next_attempt_number_def split: option.split dest: max_attempt_number_pos)
  have u: "varchar 2048 (at_target_url a)"
    using assms(3,9) by (auto simp: a get_endpoint_def schema_ok_def endpoint_data_ok_def dest: lookup_by_Some)
  have "attempt_data_ok a"
    using n u assms(8,11) by (auto simp: attempt_data_ok_def int4_def a varchar_def text_ok_def text_ok_status)
  moreover have "attempt_check a = Some ''ck_webhook_delivery_attempts_response_status_code''"
    using n assms(8) by (auto simp: attempt_check_def a)
  ultimately have "insert_attempt a (w_working w) =
      Inl (IntegrityError ''ck_webhook_delivery_attempts_response_status_code'')"
    by (simp add: insert_attempt_def)
  then show ?thesis using run by (intro exI [of _ w1]) (simp add: w1)
qed

end
