(* ===== verification/Attempt_Numbering.thy ===== *)
theory Attempt_Numbering
  imports Delivery_Service
begin

text \<open>
  The audit sequence: the attempts of an event are numbered 1, 2, ..., k without gaps or repeats,
  in every view, for every interleaving with transactions that only add attempts and keep the
  numbering themselves. The number is computed before the HTTP request and inserted after it; the
  unique constraint on (event_id, attempt_number) is what makes this safe.
\<close>

definition contiguous :: "db \<Rightarrow> bool" where
  "contiguous d \<longleftrightarrow> (\<forall>i. \<exists>k. set (attempt_numbers i d) = {1..k})"

text \<open>What other transactions may do to the attempts: add some.\<close>

definition attempts_grow :: "db \<Rightarrow> db \<Rightarrow> bool" where
  "attempts_grow d d' \<longleftrightarrow> (\<forall>i. set (attempt_numbers i d) \<subseteq> set (attempt_numbers i d'))"

lemma contiguous_same_attempts: "attempts d' = attempts d \<Longrightarrow> contiguous d' = contiguous d"
  by (simp add: contiguous_def attempt_numbers_def)

lemma update_job_attempts: "update_job old new d = Inr d' \<Longrightarrow> attempts d' = attempts d"
  by (elim update_job_InrE) simp_all

lemma contiguous_next:
  assumes "contiguous d"
  shows "{1..<next_attempt_number (max_attempt_number i d)} \<subseteq> set (attempt_numbers i d)"
proof (cases "max_attempt_number i d")
  case (Some m)
  from assms obtain k where k: "set (attempt_numbers i d) = {1..k}"
    unfolding contiguous_def by blast
  have "m \<in> {1..k}" using max_attempt_number_Some [OF Some] k by simp
  then show ?thesis by (simp add: next_attempt_number_def Some k subset_eq)
qed (simp add: next_attempt_number_def)

lemma attempt_key_taken:
  "attempt_key a \<in> attempt_key ` set (attempts d) \<longleftrightarrow>
     at_attempt_number a \<in> set (attempt_numbers (at_event_id a) d)"
  by (auto simp: attempt_key_def attempt_numbers_def image_iff) metis+

text \<open>
  Inserting the next number after the ones already seen: if the unique constraint accepts it,
  it is the successor of the current maximum.
\<close>

lemma contiguous_insert_attempt:
  assumes c: "contiguous d" and ins: "insert_attempt a d = Inr d'"
    and seen: "{1..<at_attempt_number a} \<subseteq> set (attempt_numbers (at_event_id a) d)"
  shows "contiguous d' \<and> set (attempt_numbers (at_event_id a) d') = {1..at_attempt_number a}"
proof -
  let ?n = "at_attempt_number a" and ?i = "at_event_id a"
  have d': "d' = d\<lparr>attempts := attempts d @ [a]\<rparr>" and ck: "attempt_check a = None"
    and fresh: "?n \<notin> set (attempt_numbers ?i d)"
    using ins by (simp_all add: insert_attempt_Inr attempt_key_taken)
  have pos: "1 \<le> ?n" using ck by (simp add: attempt_check_def split: if_splits)
  from c obtain k where k: "set (attempt_numbers ?i d) = {1..k}"
    unfolding contiguous_def by blast
  have "k < ?n" using fresh pos unfolding k by simp
  moreover have "?n - 1 \<le> k \<or> ?n = 1"
  proof (cases "?n = 1")
    case False
    then have "?n - 1 \<in> {1..<?n}" using pos by simp
    then have "?n - 1 \<in> {1..k}" using seen unfolding k by blast
    then show ?thesis by simp
  qed simp
  ultimately have n: "insert ?n {1..k} = {1..?n}" using pos by auto
  have new: "set (attempt_numbers j d') =
      (if j = ?i then insert ?n (set (attempt_numbers ?i d)) else set (attempt_numbers j d))" for j
    by (simp add: d' attempt_numbers_def)
  show ?thesis
  proof
    have "\<exists>k. set (attempt_numbers j d') = {1..k}" for j
      using c n k unfolding new contiguous_def by (cases "j = ?i") auto
    then show "contiguous d'" by (simp add: contiguous_def)
    show "set (attempt_numbers ?i d') = {1..?n}" unfolding new using n k by simp
  qed
qed

abbreviation numbered :: "world \<Rightarrow> bool" where
  "numbered \<equiv> world_inv attempts_grow contiguous"

text \<open>The world between the preparation and the flush: all smaller numbers are taken.\<close>

definition number_prepared :: "prepared_delivery \<Rightarrow> world \<Rightarrow> bool" where
  "number_prepared p w \<longleftrightarrow>
     numbered w \<and> {1..<pd_attempt_number p} \<subseteq> set (attempt_numbers (pd_event_id p) (w_working w))"

lemma number_prepared_same_store: "same_store w w' \<Longrightarrow> number_prepared p w \<Longrightarrow> number_prepared p w'"
  by (auto simp: number_prepared_def same_store_world_inv) (auto simp: same_store_def)

lemma triple_same_store:
  assumes "\<And>w r w'. m w = (r, w') \<Longrightarrow> same_store w w'"
  shows "triple (number_prepared p) m (\<lambda>_. number_prepared p) (\<lambda>_. number_prepared p)"
  by (rule tripleI) (auto dest: assms intro: number_prepared_same_store)

lemma tick_same_store: "tick f w = (r, w') \<Longrightarrow> same_store w w'"
  by (auto simp: tick_def)

lemma try_post_same_store:
  assumes "\<And>w r w'. m w = (r, w') \<Longrightarrow> same_store w w'" and "try_post m w = (r, w')"
  shows "same_store w w'"
  using assms(2) assms(1) [of w "fst (m w)" "snd (m w)"]
  by (cases "m w")
    (auto simp: try_post_def try_except_def bindE_def returnE_def raiseE_def
      split: sum.splits exc.splits)

lemma triple_numbered_query:
  assumes "\<And>w. numbered w \<Longrightarrow> Q (f (w_working w)) w"
  shows "triple numbered (query f) Q (\<lambda>_. numbered)"
proof (rule tripleI)
  fix w x w1 assume w: "numbered w" and "query f w = (Inr x, w1)"
  moreover obtain se w2 where n: "next_stmt w = (se, w2)" by fastforce
  moreover have "numbered w2" by (rule world_inv_next_stmt [OF w n])
  ultimately show "Q x w1" using assms [of w2]
    by (auto simp: query_def sql_def split: option.splits)
next
  fix w e w1 assume "numbered w" and "query f w = (Inl e, w1)"
  then show "numbered w1" using keeps_run [OF keeps_query] by blast
qed

lemma triple_max_query:
  "triple numbered (query (max_attempt_number i))
     (\<lambda>m w. numbered w \<and> {1..<next_attempt_number m} \<subseteq> set (attempt_numbers i (w_working w)))
     (\<lambda>_. numbered)"
  by (rule triple_numbered_query) (auto simp: world_inv_def dest: contiguous_next)

lemma triple_prepare:
  "triple numbered (prepare_webhook_delivery i)
     (\<lambda>p w. number_prepared p w \<and> pd_event_id p = i) (\<lambda>_. numbered)"
  unfolding prepare_webhook_delivery_def
proof (rule triple_bindE)
  show "triple numbered (query (get_event i))
      (\<lambda>ev w. numbered w \<and> (\<forall>r. ev = Some r \<longrightarrow> ev_id r = i)) (\<lambda>_. numbered)"
    by (rule triple_numbered_query) (auto simp: get_event_def dest: lookup_by_Some)
next
  fix ev :: "event_row option"
  let ?P = "\<lambda>w. numbered w \<and> (\<forall>r. ev = Some r \<longrightarrow> ev_id r = i)"
  show "triple ?P (case ev of
        None \<Rightarrow> raiseE WebhookEventNotFoundError
      | Some event \<Rightarrow>
          bindE (query (get_endpoint (ev_endpoint_id event))) (\<lambda>ep. case ep of
            None \<Rightarrow> raiseE WebhookEndpointNotFoundError
          | Some endpoint \<Rightarrow>
              if \<not> ep_is_active endpoint then raiseE InactiveWebhookEndpointError
              else bindE (query (max_attempt_number i)) (\<lambda>m. returnE (prepared_for event endpoint m))))
      (\<lambda>p w. number_prepared p w \<and> pd_event_id p = i) (\<lambda>_. numbered)"
  proof (rule triple_case_option)
    fix event assume ev: "ev = Some event"
    show "triple ?P (bindE (query (get_endpoint (ev_endpoint_id event))) (\<lambda>ep. case ep of
            None \<Rightarrow> raiseE WebhookEndpointNotFoundError
          | Some endpoint \<Rightarrow>
              if \<not> ep_is_active endpoint then raiseE InactiveWebhookEndpointError
              else bindE (query (max_attempt_number i)) (\<lambda>m. returnE (prepared_for event endpoint m))))
        (\<lambda>p w. number_prepared p w \<and> pd_event_id p = i) (\<lambda>_. numbered)"
    proof (rule triple_pre [where c = "ev_id event = i"])
      assume i: "ev_id event = i"
      show ?thesis
      proof (rule triple_weaken [where P = numbered])
        show "triple numbered (bindE (query (get_endpoint (ev_endpoint_id event))) (\<lambda>ep. case ep of
            None \<Rightarrow> raiseE WebhookEndpointNotFoundError
          | Some endpoint \<Rightarrow>
              if \<not> ep_is_active endpoint then raiseE InactiveWebhookEndpointError
              else bindE (query (max_attempt_number i)) (\<lambda>m. returnE (prepared_for event endpoint m))))
          (\<lambda>p w. number_prepared p w \<and> pd_event_id p = i) (\<lambda>_. numbered)"
          by (intro triple_intros triple_bindE [OF triple_numbered_query, where R = "\<lambda>_. numbered"]
              triple_bindE [OF triple_max_query])
            (auto simp: number_prepared_def prepared_for_def i)
      qed auto
    qed (auto simp: ev)
  qed (auto intro: triple_raiseE)
qed

text \<open>The attempt just recorded is the last of its event.\<close>

definition latest_attempt :: "uuid \<Rightarrow> attempt_row \<Rightarrow> db \<Rightarrow> bool" where
  "latest_attempt i a d \<longleftrightarrow>
     a \<in> set (attempts d) \<and> at_event_id a = i \<and>
     set (attempt_numbers i d) = {1..at_attempt_number a}"

lemma triple_flush_attempt:
  assumes "at_event_id a = pd_event_id p" and "at_attempt_number a = pd_attempt_number p"
  shows "triple (number_prepared p) (flush (insert_attempt a))
    (\<lambda>_ w. numbered w \<and> latest_attempt (pd_event_id p) a (w_working w)) (\<lambda>_. numbered)"
proof (rule tripleI)
  fix w :: world and x :: unit and w1
  assume P: "number_prepared p w" and run: "flush (insert_attempt a) w = (Inr x, w1)"
  obtain se w2 where n: "next_stmt w = (se, w2)" by fastforce
  have w: "numbered w" and seen: "{1..<pd_attempt_number p} \<subseteq> set (attempt_numbers (pd_event_id p) (w_working w))"
    using P by (auto simp: number_prepared_def)
  have w2: "numbered w2" by (rule world_inv_next_stmt [OF w n])
  have "{1..<pd_attempt_number p} \<subseteq> set (attempt_numbers (pd_event_id p) (w_working w2))"
    using next_stmt_rely [OF w n] seen unfolding attempts_grow_def by blast
  moreover from run n obtain d where d: "insert_attempt a (w_working w2) = Inr d"
    and w1: "w1 = w2\<lparr>w_working := d\<rparr>"
    by (auto simp: flush_def sql_def bindR_def split: option.splits sum.splits)
  ultimately have "contiguous d \<and> set (attempt_numbers (at_event_id a) d) = {1..at_attempt_number a}"
    using w2 assms contiguous_insert_attempt [of "w_working w2" a d] by (auto simp: world_inv_def)
  then show "numbered w1 \<and> latest_attempt (pd_event_id p) a (w_working w1)"
    using w2 d assms(1) by (auto simp: w1 world_inv_def latest_attempt_def insert_attempt_Inr)
next
  fix w e w1
  assume P: "number_prepared p w" and run: "flush (insert_attempt a) w = (Inl e, w1)"
  obtain se w2 where n: "next_stmt w = (se, w2)" by fastforce
  have "numbered w2" using P by (auto simp: number_prepared_def intro: world_inv_next_stmt [OF _ n])
  then show "numbered w1"
    using run n by (auto simp: flush_def sql_def bindR_def split: option.splits sum.splits)
qed

lemma triple_delivery:
  "triple numbered (execute_webhook_delivery httpx2_post_json i t)
     (\<lambda>a w. numbered w \<and> latest_attempt i a (w_working w)) (\<lambda>_. numbered)"
  unfolding execute_webhook_delivery_def
proof (rule triple_bindE [OF triple_prepare])
  fix p
  have tick: "triple (number_prepared p) (tick f) (\<lambda>_. number_prepared p) (\<lambda>_. numbered)"
    for f :: "env \<Rightarrow> nat \<Rightarrow> 'a"
    by (rule triple_weaken [OF triple_same_store [OF tick_same_store]]) (auto simp: number_prepared_def)
  have post: "triple (number_prepared p)
      (try_post (httpx2_post_json (pd_target_url p) (pd_payload p) t))
      (\<lambda>_. number_prepared p) (\<lambda>_. numbered)"
    by (rule triple_weaken [OF triple_same_store [OF try_post_same_store [OF httpx2.post_store]]])
      (auto simp: number_prepared_def)
  let ?Q = "\<lambda>a w. numbered w \<and> latest_attempt (pd_event_id p) a (w_working w)"
  have delivery: "triple (number_prepared p) (deliver_prepared httpx2_post_json p t at) ?Q (\<lambda>_. numbered)" for at
    unfolding Let_def deliver_prepared_def
    by (rule triple_bindE [OF tick], rule triple_bindE [OF post], rule triple_bindE [OF tick],
        rule triple_bindE [OF tick], rule triple_bindE [OF triple_flush_attempt],
        simp, simp, rule triple_returnE)
  have naive: "triple (number_prepared p) (raiseE e) ?Q (\<lambda>_. numbered)" for e
    by (rule triple_raiseE) (simp add: number_prepared_def)
  have "triple (number_prepared p)
     (bindE (tick e_utc_now) (\<lambda>attempted_at.
       case dt_tz attempted_at of
         Tz_offset off \<Rightarrow> deliver_prepared httpx2_post_json p t (dt_local attempted_at - off)
       | _ \<Rightarrow> raiseE (ValueError ''utc_now must return a timezone-aware datetime'')))
     ?Q (\<lambda>_. numbered)"
    by (rule triple_bindE [OF tick]) (auto simp: delivery naive split: pytz.split)
  note body = this
  show "triple (\<lambda>w. number_prepared p w \<and> pd_event_id p = i)
     (bindE (tick e_utc_now) (\<lambda>attempted_at.
       case dt_tz attempted_at of
         Tz_offset off \<Rightarrow> deliver_prepared httpx2_post_json p t (dt_local attempted_at - off)
       | _ \<Rightarrow> raiseE (ValueError ''utc_now must return a timezone-aware datetime'')))
     (\<lambda>a w. numbered w \<and> latest_attempt i a (w_working w)) (\<lambda>_. numbered)"
  proof (rule triple_pre [where c = "pd_event_id p = i"])
    assume i: "pd_event_id p = i"
    show "triple (\<lambda>w. number_prepared p w \<and> pd_event_id p = i)
       (bindE (tick e_utc_now) (\<lambda>attempted_at.
         case dt_tz attempted_at of
           Tz_offset off \<Rightarrow> deliver_prepared httpx2_post_json p t (dt_local attempted_at - off)
         | _ \<Rightarrow> raiseE (ValueError ''utc_now must return a timezone-aware datetime'')))
       (\<lambda>a w. numbered w \<and> latest_attempt i a (w_working w)) (\<lambda>_. numbered)"
      using body by (rule triple_weaken) (simp_all add: i)
  qed simp
qed

lemma keeps_contiguous_delivery:
  "keeps attempts_grow contiguous (execute_webhook_delivery httpx2_post_json i t)"
  unfolding keeps_iff_triple by (rule triple_weaken [OF triple_delivery]) auto

lemma contiguous_update_job: "contiguous d \<Longrightarrow> update_job old new d = Inr d' \<Longrightarrow> contiguous d'"
  using update_job_attempts contiguous_same_attempts by blast

lemma contiguous_insert:
  "contiguous d \<Longrightarrow> insert_endpoint ep d = Inr d' \<Longrightarrow> contiguous d'"
  "contiguous d \<Longrightarrow> insert_event ev d = Inr d' \<Longrightarrow> contiguous d'"
  "contiguous d \<Longrightarrow> insert_job j d = Inr d' \<Longrightarrow> contiguous d'"
  by (simp_all add: insert_Inr contiguous_same_attempts [of "d\<lparr>endpoints := _\<rparr>" d]
      contiguous_same_attempts [of "d\<lparr>events := _\<rparr>" d] contiguous_same_attempts [of "d\<lparr>jobs := _\<rparr>" d])

interpretation numbered_tables: table_invariant attempts_grow contiguous
  by unfold_locales (erule (1) contiguous_update_job contiguous_insert)+

interpretation numbering: delivery_invariant attempts_grow contiguous httpx2_post_json
proof unfold_locales
  fix i t
  show "keeps attempts_grow contiguous (execute_webhook_delivery httpx2_post_json i t)"
    by (rule keeps_contiguous_delivery)
qed

text \<open>
  C11: Attempt numbers under any interleaving. If every event's attempts are numbered \<open>1..k\<close> and the
  other transactions keep it so and only add attempts, then a delivery that succeeds records the
  last attempt of its event and leaves the numbers \<open>1..n\<close> with its own number \<open>n\<close> last. A delivery that
  was overtaken (another worker committed an attempt of the event after this one computed its
  number) therefore never succeeds.
\<close>

theorem delivery_is_latest:
  assumes "world_inv attempts_grow contiguous w"
    and "execute_webhook_delivery httpx2_post_json i t w = (Inr a, w')"
  shows "world_inv attempts_grow contiguous w' \<and> a \<in> set (attempts (w_working w')) \<and> at_event_id a = i \<and>
    set (attempt_numbers i (w_working w')) = {1..at_attempt_number a}"
  using tripleD_Inr [OF triple_delivery assms] by (simp add: latest_attempt_def)

end
