(* ===== verification/Job_Batch.thy ===== *)
theory Job_Batch
  imports Schema
begin

text \<open>
  What claiming and recovering have in common: lock the first \<open>limit\<close> eligible job rows in an order
  by two instants and the id, skipping rows others have locked, and write a changed copy of each.
  The locale \<open>job_batch\<close> states the contract of an eligibility, an order and a change, and proves
  once what a batch does to the tables and how two concurrent batches share the queue. It is
  interpreted by \<open>Job_Service\<close> and \<open>Recovery\<close>.
\<close>

section \<open>The order of the queue\<close>

text \<open>\<open>ORDER BY first, second, id\<close>, ids compared as the server compares uuids.\<close>

datatype queue_key = Queue_key instant instant uuid

fun queue_triple :: "queue_key \<Rightarrow> instant \<times> instant \<times> uuid" where
  "queue_triple (Queue_key a b i) = (a, b, i)"

instantiation queue_key :: linorder
begin

fun less_eq_queue_key :: "queue_key \<Rightarrow> queue_key \<Rightarrow> bool" where
  "less_eq_queue_key (Queue_key a b i) (Queue_key a' b' i') \<longleftrightarrow>
     a < a' \<or> (a = a' \<and> (b < b' \<or> (b = b' \<and> i \<le> i')))"

definition less_queue_key :: "queue_key \<Rightarrow> queue_key \<Rightarrow> bool" where
  "less_queue_key k k' \<longleftrightarrow> k \<le> k' \<and> \<not> k' \<le> k"

instance
proof
  fix x y z :: queue_key
  show "x < y \<longleftrightarrow> x \<le> y \<and> \<not> y \<le> x" by (rule less_queue_key_def)
  show "x \<le> x" by (cases x) simp
  show "x \<le> y \<Longrightarrow> y \<le> z \<Longrightarrow> x \<le> z" by (cases x; cases y; cases z) auto
  show "x \<le> y \<Longrightarrow> y \<le> x \<Longrightarrow> x = y" by (cases x; cases y) auto
  show "x \<le> y \<or> y \<le> x" by (cases x; cases y) auto
qed

end

text \<open>A LIMIT is a bigint of the server.\<close>

definition limit_ok :: "int \<Rightarrow> bool" where
  "limit_ok n \<longleftrightarrow> n < 2 ^ 63"

section \<open>Writing a batch\<close>

definition touch_jobs :: "(job_row \<Rightarrow> job_row) \<Rightarrow> job_row list \<Rightarrow> (job_row \<times> job_row) list" where
  "touch_jobs touch js = map (\<lambda>j. (j, touch j)) js"

lemma touch_jobs_simps [simp]:
  "touch_jobs touch [] = []"
  "touch_jobs touch (j # js) = (j, touch j) # touch_jobs touch js"
  by (simp_all add: touch_jobs_def)

definition touched :: "(job_row \<Rightarrow> job_row) \<Rightarrow> job_row set \<Rightarrow> db \<Rightarrow> db" where
  "touched touch S d = d\<lparr>jobs := map (\<lambda>j. if j \<in> S then touch j else j) (jobs d)\<rparr>"

lemma touched_empty [simp]: "touched touch {} d = d"
  by (simp add: touched_def)

locale job_batch =
  fixes key :: "job_row \<Rightarrow> queue_key"
    and eligible :: "job_row \<Rightarrow> bool"
    and touch :: "job_row \<Rightarrow> job_row"
  assumes touch_identity: "job_identity (touch j) = job_identity j"
    and touch_valid: "job_data_ok j \<Longrightarrow> job_check j = None \<Longrightarrow> eligible j \<Longrightarrow>
      job_data_ok (touch j) \<and> job_check (touch j) = None"
    and touch_done: "eligible j \<Longrightarrow> \<not> eligible (touch j)"
begin

definition batch :: "nat \<Rightarrow> uuid list \<Rightarrow> db \<Rightarrow> job_row list" where
  "batch n locked d = select_ordered key n (\<lambda>j. eligible j \<and> job_id j \<notin> set locked) (jobs d)"

lemma touch_ids [simp]:
  "job_id (touch j) = job_id j" "job_event_id (touch j) = job_event_id j"
  "job_created_at (touch j) = job_created_at j"
  using touch_identity [of j] by (simp_all add: job_identity_def)

lemma batch_sat: "j \<in> set (batch n locked d) \<Longrightarrow> j \<in> set (jobs d) \<and> eligible j \<and> job_id j \<notin> set locked"
  unfolding batch_def by (auto dest: select_ordered_sat)

lemma batch_length: "length (batch n locked d) \<le> n"
  by (simp add: batch_def select_ordered_length)

lemma batch_sorted: "sorted (map key (batch n locked d))"
  by (simp add: batch_def select_ordered_sorted)

lemma batch_distinct: "schema_ok d \<Longrightarrow> distinct (map job_id (batch n locked d))"
  unfolding batch_def by (rule select_ordered_distinct) (rule schema_ok_job_distinct)

lemma batch_all:
  "length (batch n locked d) < n \<Longrightarrow> j \<in> set (jobs d) \<Longrightarrow> eligible j \<Longrightarrow> job_id j \<notin> set locked \<Longrightarrow>
   j \<in> set (batch n locked d)"
  unfolding batch_def by (rule select_ordered_all) auto

lemma batch_least:
  "j \<in> set (jobs d) \<Longrightarrow> eligible j \<Longrightarrow> job_id j \<notin> set locked \<Longrightarrow> j \<notin> set (batch n locked d) \<Longrightarrow>
   s \<in> set (batch n locked d) \<Longrightarrow> key s \<le> key j"
  unfolding batch_def by (rule select_ordered_least) auto

text \<open>
  Two batches, the second skipping the rows the first has locked: together they are the batch
  of the summed limit.
\<close>

lemma batch_concurrent:
  assumes "schema_ok d"
  shows "batch n [] d @ batch m (map job_id (batch n [] d)) d = batch (n + m) [] d"
proof -
  let ?q = "sort_key key (filter eligible (jobs d))"
  have dq: "distinct (map job_id ?q)"
    using schema_ok_job_distinct [OF assms] by (simp add: distinct_map inj_on_def)
  have first: "batch n [] d = take n ?q" by (simp add: batch_def select_ordered_def)
  have split: "?q = take n ?q @ drop n ?q" by simp
  have "filter (\<lambda>j. job_id j \<notin> job_id ` set (take n ?q)) (take n ?q @ drop n ?q) = drop n ?q"
  proof -
    have "distinct (map job_id (take n ?q @ drop n ?q))" using dq by (simp del: map_append)
    then have "job_id j \<notin> job_id ` set (take n ?q)" if "j \<in> set (drop n ?q)" for j
      using that unfolding map_append distinct_append set_map by blast
    then have "filter (\<lambda>j. job_id j \<notin> job_id ` set (take n ?q)) (drop n ?q) = drop n ?q"
      unfolding filter_id_conv by (rule ballI)
    moreover have "filter (\<lambda>j. job_id j \<notin> job_id ` set (take n ?q)) (take n ?q) = []"
      by (simp add: filter_empty_conv)
    ultimately show ?thesis by (simp only: filter_append append_Nil)
  qed
  then have "filter (\<lambda>j. job_id j \<notin> job_id ` set (take n ?q)) ?q = drop n ?q" by simp
  then have "sort_key key (filter (\<lambda>j. eligible j \<and> job_id j \<notin> set (map job_id (take n ?q))) (jobs d)) = drop n ?q"
    by (simp add: filter_sort filter_filter conj_commute)
  then have "batch m (map job_id (batch n [] d)) d = take m (drop n ?q)"
    by (simp add: batch_def [of m] select_ordered_def first)
  then show ?thesis
    by (simp add: first batch_def [of "n + m"] select_ordered_def take_add)
qed

lemma update_touched:
  assumes "schema_ok d" and "j \<in> set (jobs d)" and "eligible j"
  shows "update_job j (touch j) d = Inr (touched touch {j} d)"
proof -
  have look: "lookup_by job_id (job_id j) (jobs d) = Some j"
    using assms(2) by (rule lookup_by_in_distinct [OF schema_ok_job_distinct [OF assms(1)]])
  have neq: "touch j \<noteq> j" using touch_done [OF assms(3)] assms(3) by auto
  have valid: "job_data_ok (touch j) \<and> job_check (touch j) = None"
    using assms by (intro touch_valid) (auto simp: schema_ok_def)
  have "update_by job_id (touch j) (jobs d) = map (\<lambda>x. if x = j then touch j else x) (jobs d)"
    unfolding update_by_def using assms(2) by (auto dest: schema_ok_same_job [OF assms(1)])
  then show ?thesis
    using look neq valid
    by (simp add: update_job_def touched_def)
qed

lemma touched_touched:
  assumes "eligible j" and "\<And>x. x \<in> S \<Longrightarrow> eligible x"
  shows "touched touch S (touched touch {j} d) = touched touch (insert j S) d"
proof -
  have "touch j \<notin> S" using assms touch_done [of j] by auto
  then have "(\<lambda>x. if x \<in> S then touch x else x) \<circ> (\<lambda>x. if x = j then touch x else x) =
      (\<lambda>x. if x = j \<or> x \<in> S then touch x else x)"
    by (auto simp: fun_eq_iff)
  then show ?thesis by (simp add: touched_def)
qed

lemma update_jobs_touched:
  assumes "schema_ok d" and "set js \<subseteq> set (jobs d)" and "distinct js" and "\<forall>j \<in> set js. eligible j"
  shows "update_jobs (touch_jobs touch js) d = Inr (touched touch (set js) d)"
  using assms
proof (induction js arbitrary: d)
  case (Cons j js)
  let ?d = "touched touch {j} d"
  have step: "update_job j (touch j) d = Inr ?d" using Cons.prems by (intro update_touched) auto
  have "schema_ok ?d" by (rule schema_ok_update_job [OF Cons.prems(1) step])
  moreover have "set js \<subseteq> set (jobs ?d)" using Cons.prems by (auto simp: touched_def image_iff)
  ultimately have "update_jobs (touch_jobs touch js) ?d = Inr (touched touch (set js) ?d)"
    using Cons.prems by (intro Cons.IH) auto
  also have "touched touch (set js) ?d = touched touch (insert j (set js)) d"
    using Cons.prems by (intro touched_touched) auto
  finally show ?case using step by simp
qed simp

lemma update_batch:
  assumes "schema_ok d"
  shows "update_jobs (touch_jobs touch (batch n locked d)) d = Inr (touched touch (set (batch n locked d)) d)"
  using batch_distinct [OF assms, of n locked]
  by (intro update_jobs_touched assms) (auto dest: batch_sat simp: distinct_map)

text \<open>After the first batch is written, the next one is what it would have been with its rows locked.\<close>

lemma batch_after:
  assumes "schema_ok d"
  shows "batch m [] (touched touch (set (batch n [] d)) d) = batch m (map job_id (batch n [] d)) d"
proof -
  let ?B = "set (batch n [] d)"
  have in_batch: "j \<in> ?B \<longleftrightarrow> job_id j \<in> job_id ` ?B" if "j \<in> set (jobs d)" for j
  proof
    assume "job_id j \<in> job_id ` ?B"
    then obtain x where "x \<in> ?B" "job_id x = job_id j" by auto
    moreover have "x \<in> set (jobs d)" using batch_sat \<open>x \<in> ?B\<close> by blast
    ultimately show "j \<in> ?B" using schema_ok_same_job [OF assms _ that] by metis
  qed simp
  have "filter eligible (map (\<lambda>j. if j \<in> ?B then touch j else j) js) =
      filter (\<lambda>j. eligible j \<and> job_id j \<notin> job_id ` ?B) js" if "set js \<subseteq> set (jobs d)" for js
    using that
  proof (induction js)
    case (Cons j js)
    have IH: "filter eligible (map (\<lambda>j. if j \<in> ?B then touch j else j) js) =
        filter (\<lambda>j. eligible j \<and> job_id j \<notin> job_id ` ?B) js"
      using Cons.prems by (intro Cons.IH) simp
    have j: "j \<in> ?B \<longleftrightarrow> job_id j \<in> job_id ` ?B" using Cons.prems by (intro in_batch) simp
    show ?case
    proof (cases "j \<in> ?B")
      case True
      then have "eligible j" by (blast dest: batch_sat)
      then show ?thesis using True j IH touch_done [of j] by (simp del: map_map)
    next
      case False
      then show ?thesis using j IH by simp
    qed
  qed simp
  then have "filter eligible (jobs (touched touch ?B d)) =
      filter (\<lambda>j. eligible j \<and> job_id j \<notin> set (map job_id (batch n [] d))) (jobs d)"
    by (simp add: touched_def)
  then show ?thesis
    by (simp only: batch_def [of m] select_ordered_def set_map set_simps empty_iff not_False_eq_True simp_thms)
qed

end

end
