(* ===== verification/Job_Service.thy ===== *)
theory Job_Service
  imports Job_Batch
begin

text \<open>
  \<open>delivery_job_service.py\<close>: claiming due delivery jobs. The claim is the \<open>job_batch\<close> of the due
  jobs in the order of their due time, creation time and id, each marked as processing.
\<close>

section \<open>Claiming\<close>

definition claim_limit_msg :: string where
  "claim_limit_msg = ''limit must be an integer greater than or equal to 1''"

definition claimed_at_msg :: string where
  "claimed_at_msg = ''claimed_at must be a timezone-aware datetime''"

definition validate_claim_limit :: "pyval \<Rightarrow> exc + int" where
  "validate_claim_limit limit = positive_int claim_limit_msg limit"

definition normalize_claimed_at :: "pyval \<Rightarrow> exc + instant" where
  "normalize_claimed_at claimed_at = normalize_aware claimed_at_msg claimed_at"

definition due_job :: "instant \<Rightarrow> job_row \<Rightarrow> bool" where
  "due_job t j \<longleftrightarrow>
     job_status j = ''pending'' \<and>
     (case job_next_attempt_at j of None \<Rightarrow> False | Some n \<Rightarrow> n \<le> t)"

definition due_key :: "job_row \<Rightarrow> queue_key" where
  "due_key j = Queue_key (case job_next_attempt_at j of None \<Rightarrow> 0 | Some n \<Rightarrow> n) (job_created_at j) (job_id j)"

definition select_due_jobs :: "instant \<Rightarrow> int \<Rightarrow> (world, job_row list) io" where
  "select_due_jobs t limit =
     sql (\<lambda>e locked d.
       if \<not> limit_ok limit then Inl (DataError ''limit'')
       else Inr (select_ordered due_key (nat limit)
                   (\<lambda>j. due_job t j \<and> job_id j \<notin> set locked) (jobs d), d))"

definition mark_processing :: "instant \<Rightarrow> job_row \<Rightarrow> job_row" where
  "mark_processing t j = j\<lparr>job_status := ''processing'', job_updated_at := t\<rparr>"

definition claim_due_webhook_delivery_jobs :: "pyval \<Rightarrow> pyval \<Rightarrow> (world, job_row list) io" where
  "claim_due_webhook_delivery_jobs claimed_at limit =
     bindE (liftE (validate_claim_limit limit)) (\<lambda>n.
     bindE (liftE (normalize_claimed_at claimed_at)) (\<lambda>t.
     bindE (select_due_jobs t n) (\<lambda>js.
     if js = [] then returnE []
     else
       bindE (flush (update_jobs (touch_jobs (mark_processing t) js))) (\<lambda>_.
       returnE (map (mark_processing t) js)))))"

section \<open>The claim as a batch\<close>

interpretation claiming: job_batch due_key "due_job t" "mark_processing t" for t
proof unfold_locales
  fix j
  show "job_identity (mark_processing t j) = job_identity j"
    by (simp add: job_identity_def mark_processing_def)
  show "job_data_ok (mark_processing t j) \<and> job_check (mark_processing t j) = None"
    if "job_data_ok j" "job_check j = None" "due_job t j"
    using that
    by (simp add: job_data_ok_def job_check_def mark_processing_def due_job_def varchar_def text_ok_def
        job_statuses_def split: if_splits option.splits)
  show "due_job t j \<Longrightarrow> \<not> due_job t (mark_processing t j)"
    by (simp add: due_job_def mark_processing_def)
qed

lemma select_due_jobs_eq:
  "select_due_jobs t n =
     sql (\<lambda>e locked d. if limit_ok n then Inr (claiming.batch t (nat n) locked d, d) else Inl (DataError ''limit''))"
  unfolding select_due_jobs_def claiming.batch_def by (intro arg_cong [of _ _ sql] ext) simp

lemma keeps_select_due_jobs [keeps_intros]: "keeps R I (select_due_jobs t n)"
  unfolding select_due_jobs_def by (rule keeps_sql) (auto split: if_splits)

context job_invariant
begin

lemma keeps_claim: "keeps R I (claim_due_webhook_delivery_jobs claimed_at limit)"
  unfolding claim_due_webhook_delivery_jobs_def by (intro keeps_intros keeps_updates)

end

lemma claim_kept [field_intros]:
  "env_kept (claim_due_webhook_delivery_jobs claimed_at limit)"
  "silent (claim_due_webhook_delivery_jobs claimed_at limit)"
  "unpolled (claim_due_webhook_delivery_jobs claimed_at limit)"
  unfolding claim_due_webhook_delivery_jobs_def select_due_jobs_def by (intro field_intros)+

lemma validate_claim_limit_Inr: "validate_claim_limit v = Inr n \<longleftrightarrow> v = VInt n \<and> 1 \<le> n"
  by (simp add: validate_claim_limit_def positive_int_Inr)

text \<open>A claim whose statements see the given tables and locks, without interference.\<close>

lemma claim_run:
  assumes "validate_claim_limit limit = Inr n" and "normalize_claimed_at claimed_at = Inr t"
    and "limit_ok n" and "w_script w = []" and "schema_ok (w_working w)"
  shows "claim_due_webhook_delivery_jobs claimed_at limit w =
    (let js = claiming.batch t (nat n) [] (w_working w) in
     (Inr (map (mark_processing t) js),
      w\<lparr>w_working := touched (mark_processing t) (set js) (w_working w)\<rparr>))"
  using assms claiming.update_batch [OF assms(5), of t "nat n" "[]"]
  by (simp add: claim_due_webhook_delivery_jobs_def bindE_def liftE_def returnE_def select_due_jobs_eq
      sql_quiet flush_quiet Let_def)

lemma claim_effect:
  assumes "validate_claim_limit limit = Inr n" and "normalize_claimed_at claimed_at = Inr t"
    and "limit_ok n" and "w_script w = []" and "schema_ok (w_working w)"
  shows "\<exists>js. claim_due_webhook_delivery_jobs claimed_at limit w =
      (Inr (map (mark_processing t) js),
       w\<lparr>w_working := (w_working w)\<lparr>jobs := map (\<lambda>j. if j \<in> set js then mark_processing t j else j)
                                                (jobs (w_working w))\<rparr>\<rparr>) \<and>
    length js = min (nat n) (length (filter (due_job t) (jobs (w_working w)))) \<and>
    set js \<subseteq> set (jobs (w_working w)) \<and> (\<forall>j \<in> set js. due_job t j) \<and>
    sorted (map due_key js) \<and> distinct (map job_id js) \<and>
    (\<forall>j \<in> set (jobs (w_working w)). due_job t j \<and> j \<notin> set js \<longrightarrow> (\<forall>s \<in> set js. due_key s \<le> due_key j))"
proof (intro exI conjI)
  let ?js = "claiming.batch t (nat n) [] (w_working w)"
  show "claim_due_webhook_delivery_jobs claimed_at limit w =
      (Inr (map (mark_processing t) ?js),
       w\<lparr>w_working := (w_working w)\<lparr>jobs := map (\<lambda>j. if j \<in> set ?js then mark_processing t j else j)
                                                (jobs (w_working w))\<rparr>\<rparr>)"
    using claim_run [OF assms] by (simp add: Let_def touched_def)
  show "length ?js = min (nat n) (length (filter (due_job t) (jobs (w_working w))))"
    by (simp add: claiming.batch_def select_ordered_length_eq)
  show "distinct (map job_id ?js)" by (rule claiming.batch_distinct [OF assms(5)])
  show "\<forall>j \<in> set (jobs (w_working w)). due_job t j \<and> j \<notin> set ?js \<longrightarrow> (\<forall>s \<in> set ?js. due_key s \<le> due_key j)"
    by (auto intro: claiming.batch_least [where locked = "[]"])
qed (auto dest: claiming.batch_sat intro: claiming.batch_sorted)

text \<open>Being due, claiming and handing back, spelled out.\<close>

lemma due_job_explicit:
  "due_job t = (\<lambda>j. job_status j = ''pending'' \<and> (\<exists>m \<le> t. job_next_attempt_at j = Some m))"
  by (rule ext) (auto simp: due_job_def split: option.splits)

text \<open>
  C9: A claim returns the due jobs (pending, due time at or before \<open>claimed_at\<close>) in the order of
  due time, creation time and id, at most \<open>limit\<close> of them and fewer only when every due job is
  returned; it marks exactly those rows as processing at \<open>claimed_at\<close> and changes nothing else, and
  a due job it leaves out sorts after all it takes.
\<close>

theorem claim_functional:
  assumes "validate_claim_limit limit = Inr n" and "normalize_claimed_at claimed_at = Inr t"
    and "limit_ok n" and "w_script w = []" and "schema_ok (w_working w)"
  shows "\<exists>js. claim_due_webhook_delivery_jobs claimed_at limit w =
      (Inr (map (\<lambda>j. j\<lparr>job_status := ''processing'', job_updated_at := t\<rparr>) js),
       w\<lparr>w_working := (w_working w)\<lparr>jobs := map (\<lambda>j. if j \<in> set js then j\<lparr>job_status := ''processing'', job_updated_at := t\<rparr> else j)
                                                (jobs (w_working w))\<rparr>\<rparr>) \<and>
    length js = min (nat n) (length (filter (\<lambda>j. job_status j = ''pending'' \<and> (\<exists>m \<le> t. job_next_attempt_at j = Some m))
      (jobs (w_working w)))) \<and>
    set js \<subseteq> set (jobs (w_working w)) \<and>
    (\<forall>j \<in> set js. job_status j = ''pending'' \<and> (\<exists>m \<le> t. job_next_attempt_at j = Some m)) \<and>
    sorted (map due_key js) \<and> distinct (map job_id js) \<and>
    (\<forall>j \<in> set (jobs (w_working w)). (job_status j = ''pending'' \<and> (\<exists>m \<le> t. job_next_attempt_at j = Some m)) \<and> j \<notin> set js \<longrightarrow>
       (\<forall>s \<in> set js. due_key s \<le> due_key j))"
  using claim_effect [OF assms] unfolding due_job_explicit mark_processing_def .

text \<open>Another transaction holds the rows of the given ids.\<close>

definition others_lock :: "uuid list \<Rightarrow> stmt_env" where
  "others_lock ids = \<lparr>se_others = id, se_locked = ids, se_fault = None\<rparr>"

lemma next_stmt_lock:
  "w_script w = [others_lock ids] \<Longrightarrow> next_stmt w = (others_lock ids, w\<lparr>w_script := []\<rparr>)"
  by (cases w) (simp add: next_stmt_def others_lock_def)

lemma claim_ids:
  assumes "validate_claim_limit limit = Inr n" and "normalize_claimed_at claimed_at = Inr t"
    and "limit_ok n" and "schema_ok (w_working w)"
    and "w_script w = [] \<and> locked = [] \<or> w_script w = [others_lock locked]"
  shows "\<exists>js w'. claim_due_webhook_delivery_jobs claimed_at limit w = (Inr js, w') \<and>
    map job_id js = map job_id (claiming.batch t (nat n) locked (w_working w)) \<and>
    w_working w' = touched (mark_processing t) (set (claiming.batch t (nat n) locked (w_working w))) (w_working w)"
proof -
  have sel: "select_due_jobs t n w =
      (Inr (claiming.batch t (nat n) locked (w_working w)), w\<lparr>w_script := []\<rparr>)"
    using assms(3,5)
  proof (elim disjE conjE)
    assume s: "w_script w = []" and l: "locked = []"
    have "w\<lparr>w_script := []\<rparr> = w" using s by (cases w) simp
    then show ?thesis using s l assms(3) by (simp add: select_due_jobs_eq sql_quiet)
  next
    assume "w_script w = [others_lock locked]"
    then show ?thesis using assms(3)
      by (simp add: select_due_jobs_eq sql_def next_stmt_lock) (simp add: others_lock_def)
  qed
  then show ?thesis
    using assms(1,2) claiming.update_batch [OF assms(4), of t "nat n" locked]
    by (simp add: claim_due_webhook_delivery_jobs_def bindE_def liftE_def returnE_def flush_quiet o_def
        mark_processing_def)
qed

text \<open>
  C8: Claims never overlap. Of two claims at the same instant with limits \<open>n\<close> and \<open>m\<close>, the second
  running either while the first still holds its row locks or after the first has committed, the
  second returns no job of the first, and both together return, in order, exactly the jobs one
  claim with limit \<open>n + m\<close> returns.
\<close>

theorem claims_partition:
  assumes "validate_claim_limit limit1 = Inr n" and "validate_claim_limit limit2 = Inr m"
    and "normalize_claimed_at claimed_at = Inr t" and "limit_ok (n + m)"
    and "w_script w = []" and "schema_ok (w_working w)"
    and "claim_due_webhook_delivery_jobs claimed_at limit1 w = (Inr js1, w1)"
    and "w_script w2 = [others_lock (map job_id js1)] \<and> w_working w2 = w_working w \<or>
         w_script w2 = [] \<and> w_working w2 = w_working w1"
    and "claim_due_webhook_delivery_jobs claimed_at limit2 w2 = (Inr js2, w3)"
    and "claim_due_webhook_delivery_jobs claimed_at (VInt (n + m)) w = (Inr js, w4)"
  shows "map job_id js1 @ map job_id js2 = map job_id js \<and> distinct (map job_id (js1 @ js2))"
proof -
  let ?B = "\<lambda>k l. claiming.batch t (nat k) l (w_working w)"
  have pos: "1 \<le> n" "1 \<le> m" using assms(1,2) by (simp_all add: validate_claim_limit_Inr)
  then have lim: "limit_ok n" "limit_ok m" using assms(4) by (simp_all add: limit_ok_def)
  have js1: "map job_id js1 = map job_id (?B n [])"
    and w1: "w_working w1 = touched (mark_processing t) (set (?B n [])) (w_working w)"
    using claim_ids [OF assms(1,3) lim(1) assms(6), of "[]"] assms(5,7) by auto
  have schema1: "schema_ok (w_working w1)"
    using schema.update_jobs_inv [OF assms(6) claiming.update_batch [OF assms(6)]] by (simp add: w1)
  have js2: "map job_id js2 = map job_id (?B m (map job_id (?B n [])))"
    using assms(8)
  proof (elim disjE conjE)
    assume s: "w_script w2 = [others_lock (map job_id js1)]" and "w_working w2 = w_working w"
    then show ?thesis
      using claim_ids [OF assms(2,3) lim(2), of w2 "map job_id js1"] assms(6,9) by (auto simp: js1)
  next
    assume s: "w_script w2 = []" and "w_working w2 = w_working w1"
    then show ?thesis
      using claim_ids [OF assms(2,3) lim(2), of w2 "[]"] assms(9) schema1
      by (auto simp: w1 claiming.batch_after [OF assms(6)])
  qed
  have "map job_id js = map job_id (claiming.batch t (nat n + nat m) [] (w_working w))"
    using claim_ids [OF _ assms(3,4,6), of "VInt (n + m)" "[]"] assms(5,10) pos
    by (auto simp: validate_claim_limit_Inr nat_add_distrib)
  then have eq: "map job_id js1 @ map job_id js2 = map job_id js"
    using claiming.batch_concurrent [OF assms(6), of t "nat n" "nat m"] by (simp add: js1 js2 flip: map_append)
  moreover have "distinct (map job_id js)"
    using claiming.batch_distinct [OF assms(6)] claim_ids [OF _ assms(3,4,6), of "VInt (n + m)" "[]"] assms(5,10) pos
    by (auto simp: validate_claim_limit_Inr)
  ultimately show ?thesis by (simp only: map_append)
qed

end
