(* ===== verification/Recovery.thy ===== *)
theory Recovery
  imports Job_Service
begin

text \<open>
  \<open>delivery_job_recovery_service.py\<close>: returning stale processing jobs to the queue, the second
  interpretation of \<open>job_batch\<close>. Recovery and claiming are inverse moves between the two active
  states, and neither takes the rows of the other.
\<close>

section \<open>Recovering\<close>

definition recovery_limit_msg :: string where
  "recovery_limit_msg = ''limit must be an integer greater than or equal to 1''"

definition validate_recovery_limit :: "pyval \<Rightarrow> exc + int" where
  "validate_recovery_limit limit = positive_int recovery_limit_msg limit"

definition normalize_datetime :: "pyval \<Rightarrow> string \<Rightarrow> exc + instant" where
  "normalize_datetime v name = normalize_aware (name @ '' must be a timezone-aware datetime'') v"

definition stale_job :: "instant \<Rightarrow> job_row \<Rightarrow> bool" where
  "stale_job s j \<longleftrightarrow> job_status j = ''processing'' \<and> job_updated_at j \<le> s"

definition stale_key :: "job_row \<Rightarrow> queue_key" where
  "stale_key j = Queue_key (job_updated_at j) (job_created_at j) (job_id j)"

definition select_stale_jobs :: "instant \<Rightarrow> int \<Rightarrow> (world, job_row list) io" where
  "select_stale_jobs s limit =
     sql (\<lambda>e locked d.
       if \<not> limit_ok limit then Inl (DataError ''limit'')
       else Inr (select_ordered stale_key (nat limit)
                   (\<lambda>j. stale_job s j \<and> job_id j \<notin> set locked) (jobs d), d))"

definition mark_recovered :: "instant \<Rightarrow> job_row \<Rightarrow> job_row" where
  "mark_recovered t j =
     j\<lparr>job_status := ''pending'', job_next_attempt_at := Some t, job_updated_at := t\<rparr>"

definition recover_stale_webhook_delivery_jobs :: "pyval \<Rightarrow> pyval \<Rightarrow> pyval \<Rightarrow> (world, uuid list) io" where
  "recover_stale_webhook_delivery_jobs stale_before recovered_at limit =
     bindE (liftE (validate_recovery_limit limit)) (\<lambda>n.
     bindE (liftE (normalize_datetime stale_before ''stale_before'')) (\<lambda>s.
     bindE (liftE (normalize_datetime recovered_at ''recovered_at'')) (\<lambda>t.
     if t < s then raiseE (ValueError ''recovered_at must be greater than or equal to stale_before'')
     else
       bindE (select_stale_jobs s n) (\<lambda>js.
       if js = [] then returnE []
       else
         bindE (flush (update_jobs (touch_jobs (mark_recovered t) js))) (\<lambda>_.
         returnE (map job_id js))))))"

section \<open>The recovery as a batch\<close>

interpretation recovering: job_batch stale_key "stale_job s" "mark_recovered t" for s t
proof unfold_locales
  fix j
  show "job_identity (mark_recovered t j) = job_identity j"
    by (simp add: job_identity_def mark_recovered_def)
  show "job_data_ok (mark_recovered t j) \<and> job_check (mark_recovered t j) = None"
    if "job_data_ok j" "job_check j = None" "stale_job s j"
    using that
    by (simp add: job_data_ok_def job_check_def mark_recovered_def varchar_def text_ok_def
        job_statuses_def split: if_splits)
  show "stale_job s j \<Longrightarrow> \<not> stale_job s (mark_recovered t j)"
    by (simp add: stale_job_def mark_recovered_def)
qed

lemma select_stale_jobs_eq:
  "select_stale_jobs s n =
     sql (\<lambda>e locked d. if limit_ok n then Inr (recovering.batch s (nat n) locked d, d) else Inl (DataError ''limit''))"
  unfolding select_stale_jobs_def recovering.batch_def by (intro arg_cong [of _ _ sql] ext) simp

lemma keeps_select_stale_jobs [keeps_intros]: "keeps R I (select_stale_jobs s n)"
  unfolding select_stale_jobs_def by (rule keeps_sql) (auto split: if_splits)

context job_invariant
begin

lemma keeps_recover: "keeps R I (recover_stale_webhook_delivery_jobs stale_before recovered_at limit)"
  unfolding recover_stale_webhook_delivery_jobs_def by (intro keeps_intros keeps_updates)

end

lemma recover_kept [field_intros]:
  "env_kept (recover_stale_webhook_delivery_jobs stale_before recovered_at limit)"
  "silent (recover_stale_webhook_delivery_jobs stale_before recovered_at limit)"
  "unpolled (recover_stale_webhook_delivery_jobs stale_before recovered_at limit)"
  unfolding recover_stale_webhook_delivery_jobs_def select_stale_jobs_def by (intro field_intros)+

lemma recover_run:
  assumes "validate_recovery_limit limit = Inr n" and "normalize_datetime sb ''stale_before'' = Inr s"
    and "normalize_datetime ra ''recovered_at'' = Inr t" and "s \<le> t"
    and "limit_ok n" and "w_script w = []" and "schema_ok (w_working w)"
  shows "recover_stale_webhook_delivery_jobs sb ra limit w =
    (let js = recovering.batch s (nat n) [] (w_working w) in
     (Inr (map job_id js), w\<lparr>w_working := touched (mark_recovered t) (set js) (w_working w)\<rparr>))"
  using assms recovering.update_batch [OF assms(7), of t s "nat n" "[]"]
  by (simp add: recover_stale_webhook_delivery_jobs_def bindE_def liftE_def returnE_def
      select_stale_jobs_eq sql_quiet flush_quiet Let_def)

lemma recovery_effect:
  assumes "validate_recovery_limit limit = Inr n" and "normalize_datetime sb ''stale_before'' = Inr s"
    and "normalize_datetime ra ''recovered_at'' = Inr t" and "s \<le> t"
    and "limit_ok n" and "w_script w = []" and "schema_ok (w_working w)"
  shows "\<exists>js. recover_stale_webhook_delivery_jobs sb ra limit w =
      (Inr (map job_id js),
       w\<lparr>w_working := (w_working w)\<lparr>jobs := map (\<lambda>j. if j \<in> set js then mark_recovered t j else j)
                                                (jobs (w_working w))\<rparr>\<rparr>) \<and>
    length js \<le> nat n \<and> set js \<subseteq> set (jobs (w_working w)) \<and> (\<forall>j \<in> set js. stale_job s j) \<and>
    sorted (map stale_key js) \<and> distinct (map job_id js) \<and>
    (\<forall>j \<in> set js. due_job t (mark_recovered t j) \<and>
       job_attempt_count (mark_recovered t j) = job_attempt_count j) \<and>
    (length js < nat n \<longrightarrow> (\<forall>j \<in> set (jobs (w_working w)). stale_job s j \<longrightarrow> j \<in> set js))"
proof (intro exI conjI)
  let ?js = "recovering.batch s (nat n) [] (w_working w)"
  show "recover_stale_webhook_delivery_jobs sb ra limit w =
      (Inr (map job_id ?js),
       w\<lparr>w_working := (w_working w)\<lparr>jobs := map (\<lambda>j. if j \<in> set ?js then mark_recovered t j else j)
                                                (jobs (w_working w))\<rparr>\<rparr>)"
    using recover_run [OF assms] by (simp add: Let_def touched_def)
  show "distinct (map job_id ?js)" by (rule recovering.batch_distinct [OF assms(7)])
  show "length ?js < nat n \<longrightarrow> (\<forall>j \<in> set (jobs (w_working w)). stale_job s j \<longrightarrow> j \<in> set ?js)"
    by (auto intro: recovering.batch_all)
qed (auto dest: recovering.batch_sat intro: recovering.batch_sorted recovering.batch_length
  simp: due_job_def mark_recovered_def)

text \<open>
  C10: Recovery returns to the queue, oldest first and at most \<open>limit\<close>, exactly processing jobs last
  updated at or before \<open>stale_before\<close>; each is pending and due at \<open>recovered_at\<close> with its attempt
  count kept, no other row changes, and when fewer than \<open>limit\<close> are recovered none stale is left.
\<close>

theorem recovery_functional:
  assumes "validate_recovery_limit limit = Inr n" and "normalize_datetime sb ''stale_before'' = Inr s"
    and "normalize_datetime ra ''recovered_at'' = Inr t" and "s \<le> t"
    and "limit_ok n" and "w_script w = []" and "schema_ok (w_working w)"
  shows "\<exists>js. recover_stale_webhook_delivery_jobs sb ra limit w =
      (Inr (map job_id js),
       w\<lparr>w_working := (w_working w)\<lparr>jobs :=
         map (\<lambda>j. if j \<in> set js then j\<lparr>job_status := ''pending'', job_next_attempt_at := Some t, job_updated_at := t\<rparr> else j)
             (jobs (w_working w))\<rparr>\<rparr>) \<and>
    length js \<le> nat n \<and> set js \<subseteq> set (jobs (w_working w)) \<and>
    (\<forall>j \<in> set js. job_status j = ''processing'' \<and> job_updated_at j \<le> s) \<and>
    sorted (map stale_key js) \<and> distinct (map job_id js) \<and>
    (length js < nat n \<longrightarrow>
       (\<forall>j \<in> set (jobs (w_working w)). job_status j = ''processing'' \<and> job_updated_at j \<le> s \<longrightarrow> j \<in> set js))"
  using recovery_effect [OF assms] unfolding stale_job_def mark_recovered_def by blast

end
