(* ===== verification/Replay.thy ===== *)
theory Replay
  imports Recovery Delivery_Service
begin

text \<open>
  \<open>replay_service.py\<close>: putting a finished job back in the queue with a fresh retry budget. The
  attempts already recorded stay.
\<close>

record replay_result =
  rp_event_id :: uuid
  rp_delivery_job_id :: uuid
  rp_status :: string
  rp_next_attempt_at :: instant

definition replayed_at_msg :: string where
  "replayed_at_msg = ''replayed_at must be a timezone-aware datetime''"

definition normalize_replayed_at :: "pyval \<Rightarrow> exc + instant" where
  "normalize_replayed_at replayed_at = normalize_aware replayed_at_msg replayed_at"

definition mark_replayed :: "instant \<Rightarrow> job_row \<Rightarrow> job_row" where
  "mark_replayed t j =
     j\<lparr>job_status := ''pending'', job_next_attempt_at := Some t, job_updated_at := t,
       job_attempt_count := 0\<rparr>"

definition get_event_job :: "uuid \<Rightarrow> db \<Rightarrow> job_row option" where
  "get_event_job i d = lookup_by job_event_id i (jobs d)"

definition replay_webhook_event :: "uuid \<Rightarrow> pyval \<Rightarrow> (world, replay_result) io" where
  "replay_webhook_event event_id replayed_at =
     bindE (liftE (normalize_replayed_at replayed_at)) (\<lambda>t.
     bindE (query (get_event event_id)) (\<lambda>ev.
     (case ev of None \<Rightarrow> raiseE WebhookReplayEventNotFoundError
      | Some event \<Rightarrow>
     bindE (query (get_endpoint (ev_endpoint_id event))) (\<lambda>ep.
     (case ep of None \<Rightarrow> raiseE WebhookReplayEndpointNotFoundError
      | Some endpoint \<Rightarrow>
     if \<not> ep_is_active endpoint then raiseE WebhookReplayEndpointInactiveError
     else
     bindE (query (get_event_job (ev_id event))) (\<lambda>jb.
     (case jb of None \<Rightarrow> raiseE WebhookReplayDeliveryJobNotFoundError
      | Some job \<Rightarrow>
     if job_status job \<notin> {''succeeded'', ''dead_letter''}
     then raiseE WebhookReplayDeliveryJobNotReplayableError
     else
     bindE (flush (update_job job (mark_replayed t job))) (\<lambda>_.
     returnE \<lparr>rp_event_id = ev_id event, rp_delivery_job_id = job_id job,
              rp_status = ''pending'', rp_next_attempt_at = t\<rparr>))))))))"

context job_invariant
begin

lemma keeps_replay: "keeps R I (replay_webhook_event i v)"
  unfolding replay_webhook_event_def by (intro keeps_intros keeps_updates)

end

lemma env_kept_replay [field_intros]: "env_kept (replay_webhook_event i v)"
  unfolding replay_webhook_event_def by (intro field_intros)

lemma get_event_Some: "get_event i d = Some ev \<Longrightarrow> ev \<in> set (events d) \<and> ev_id ev = i"
  unfolding get_event_def by (rule lookup_by_Some)

lemma schema_ok_endpoint:
  "schema_ok d \<Longrightarrow> get_event i d = Some ev \<Longrightarrow> \<exists>ep. get_endpoint (ev_endpoint_id ev) d = Some ep"
  unfolding get_endpoint_def
  by (rule lookup_by_ex) (auto simp: schema_ok_def dest: get_event_Some)

lemma update_job_loaded:
  assumes "schema_ok d" and "j \<in> set (jobs d)" and "job_id j' = job_id j" and "job_event_id j' = job_event_id j"
    and "job_created_at j' = job_created_at j" and "j' \<noteq> j" and "job_data_ok j'" and "job_check j' = None"
  shows "update_job j j' d = Inr (d\<lparr>jobs := update_by job_id j' (jobs d)\<rparr>)"
proof -
  have "lookup_by job_id (job_id j) (jobs d) = Some j"
    using assms(2) by (rule lookup_by_in_distinct [OF schema_ok_job_distinct [OF assms(1)]])
  then show ?thesis using assms by (simp add: update_job_def)
qed

lemma replay_table:
  assumes "w_script w = []" and "schema_ok (w_working w)" and "normalize_replayed_at v = Inr t"
  shows "replay_webhook_event i v w =
    (case get_event i (w_working w) of
       None \<Rightarrow> (Inl WebhookReplayEventNotFoundError, w)
     | Some ev \<Rightarrow>
         if \<not> ep_is_active (the (get_endpoint (ev_endpoint_id ev) (w_working w)))
         then (Inl WebhookReplayEndpointInactiveError, w)
         else (case get_event_job i (w_working w) of
                 None \<Rightarrow> (Inl WebhookReplayDeliveryJobNotFoundError, w)
               | Some j \<Rightarrow>
                   if job_status j \<notin> {''succeeded'', ''dead_letter''} then (Inl WebhookReplayDeliveryJobNotReplayableError, w)
                   else (Inr \<lparr>rp_event_id = i, rp_delivery_job_id = job_id j, rp_status = ''pending'',
                              rp_next_attempt_at = t\<rparr>,
                         w\<lparr>w_working := (w_working w)\<lparr>jobs :=
                             update_by job_id
                               (j\<lparr>job_status := ''pending'', job_next_attempt_at := Some t,
                                  job_updated_at := t, job_attempt_count := 0\<rparr>)
                               (jobs (w_working w))\<rparr>\<rparr>)))"
proof (cases "get_event i (w_working w)")
  case None
  then show ?thesis using assms(1,3)
    by (simp add: replay_webhook_event_def bindE_def liftE_def raiseE_def query_quiet)
next
  case (Some ev)
  obtain ep where ep: "get_endpoint (ev_endpoint_id ev) (w_working w) = Some ep"
    using schema_ok_endpoint [OF assms(2) Some] by auto
  have i: "ev_id ev = i" using get_event_Some [OF Some] by simp
  note base = Some ep i assms(1,3)
  show ?thesis
  proof (cases "get_event_job i (w_working w)")
    case None
    then show ?thesis using base
      by (simp add: replay_webhook_event_def bindE_def liftE_def raiseE_def query_quiet)
  next
    case (Some j)
    then have j: "j \<in> set (jobs (w_working w))"
      by (auto simp: get_event_job_def dest: lookup_by_Some)
    then have ok: "job_data_ok j" "job_check j = None" using assms(2) by (auto simp: schema_ok_def)
    then have status: "job_status j \<in> {''succeeded'', ''dead_letter''} \<longleftrightarrow> job_next_attempt_at j = None"
      by (auto simp: job_check_def split: if_splits)
    have "update_job j (mark_replayed t j) (w_working w) =
        Inr ((w_working w)\<lparr>jobs := update_by job_id (mark_replayed t j) (jobs (w_working w))\<rparr>)"
      if "job_next_attempt_at j = None"
    proof (rule update_job_loaded [OF assms(2) j])
      have "job_next_attempt_at (mark_replayed t j) \<noteq> job_next_attempt_at j"
        using that by (simp add: mark_replayed_def)
      then show "mark_replayed t j \<noteq> j" by metis
      show "job_data_ok (mark_replayed t j)"
        using ok by (simp add: job_data_ok_def mark_replayed_def varchar_def text_ok_def int4_def)
      show "job_check (mark_replayed t j) = None"
        by (simp add: job_check_def mark_replayed_def job_statuses_def)
    qed (simp_all add: mark_replayed_def)
    then show ?thesis using base Some status
      by (simp add: replay_webhook_event_def bindE_def liftE_def raiseE_def returnE_def query_quiet
          flush_quiet) (auto simp: mark_replayed_def)
  qed
qed

text \<open>
  Replay on every branch. It needs a recorded event with an active endpoint and a job in a final
  state; it then makes that one job pending and due at the (UTC) replay time with attempt count 0 and
  touches nothing else, in particular none of the recorded attempts. Otherwise the tables are
  unchanged and the error names the first condition that fails, in the order event, endpoint, job,
  status. The missing-endpoint error cannot occur.
\<close>

theorem replay_functional:
  assumes "w_script w = []" and "schema_ok (w_working w)" and "normalize_replayed_at v = Inr t"
  shows "replay_webhook_event i v w =
    (case get_event i (w_working w) of
       None \<Rightarrow> (Inl WebhookReplayEventNotFoundError, w)
     | Some ev \<Rightarrow>
         if \<not> ep_is_active (the (get_endpoint (ev_endpoint_id ev) (w_working w)))
         then (Inl WebhookReplayEndpointInactiveError, w)
         else (case get_event_job i (w_working w) of
                 None \<Rightarrow> (Inl WebhookReplayDeliveryJobNotFoundError, w)
               | Some j \<Rightarrow>
                   if job_status j \<notin> {''succeeded'', ''dead_letter''} then (Inl WebhookReplayDeliveryJobNotReplayableError, w)
                   else (Inr \<lparr>rp_event_id = i, rp_delivery_job_id = job_id j, rp_status = ''pending'',
                              rp_next_attempt_at = t\<rparr>,
                         w\<lparr>w_working := (w_working w)\<lparr>jobs :=
                             update_by job_id
                               (j\<lparr>job_status := ''pending'', job_next_attempt_at := Some t,
                                  job_updated_at := t, job_attempt_count := 0\<rparr>)
                               (jobs (w_working w))\<rparr>\<rparr>)))"
  by (rule replay_table [OF assms])

end
