(* ===== verification/Retry_Policy.thy ===== *)
theory Retry_Policy
  imports Py_Values
begin

text \<open>
  \<open>retry_policy.py\<close>: the validation of its arguments, the exponential backoff computed with
  \<open>math.ldexp\<close> on floats, and the retry decision. The lemmas show that the float computation is
  the exact \<open>min(base * 2^(n-1), max)\<close> (the overflow branch included), that every failure is a
  ValueError, and the decision table.
\<close>

section \<open>The policy\<close>

record retry_decision =
  rd_status :: string
  rd_next_attempt_at :: "instant option"

definition positive_integer_msg :: "string \<Rightarrow> string" where
  "positive_integer_msg name = name @ '' must be an integer greater than or equal to 1''"

definition delay_msg :: "string \<Rightarrow> string" where
  "delay_msg name = name @ '' must be a finite number greater than 0''"

definition quoted :: "string \<Rightarrow> string" where
  "quoted s = CHR 0x27 # s @ [CHR 0x27]"

definition validate_positive_integer :: "string \<Rightarrow> pyval \<Rightarrow> exc + int" where
  "validate_positive_integer name value = positive_int (positive_integer_msg name) value"

text \<open>The argument as a float; the result is the finite value in units of \<open>2^-1074\<close>.\<close>

definition validate_delay_seconds :: "string \<Rightarrow> pyval \<Rightarrow> exc + int" where
  "validate_delay_seconds name value =
     bindR
       (case value of
          VInt n \<Rightarrow>
            (case float_of_int n of
               Inl _ \<Rightarrow> Inl (ValueError (delay_msg name))
             | Inr f \<Rightarrow> Inr f)
        | VFloat f \<Rightarrow> Inr f
        | _ \<Rightarrow> Inl (ValueError (delay_msg name)))
       (\<lambda>normalized_value.
          (case normalized_value of
             Fin x \<Rightarrow> if x \<le> 0 then Inl (ValueError (delay_msg name)) else Inr x
           | _ \<Rightarrow> Inl (ValueError (delay_msg name))))"

definition validate_delays :: "pyval \<Rightarrow> pyval \<Rightarrow> exc + int \<times> int" where
  "validate_delays base_delay_seconds max_delay_seconds =
     bindR (validate_delay_seconds ''base_delay_seconds'' base_delay_seconds) (\<lambda>validated_base.
     bindR (validate_delay_seconds ''max_delay_seconds'' max_delay_seconds) (\<lambda>validated_max.
     if validated_base > validated_max
     then Inl (ValueError ''base_delay_seconds must be less than or equal to max_delay_seconds'')
     else Inr (validated_base, validated_max)))"

text \<open>\<open>ldexp\<close> in a \<open>try\<close> whose \<open>except OverflowError\<close> returns the maximum.\<close>

definition capped_delay :: "int \<Rightarrow> int \<Rightarrow> nat \<Rightarrow> int" where
  "capped_delay validated_base validated_max k =
     (case ldexp validated_base k of
        Inl _ \<Rightarrow> validated_max
      | Inr delay_seconds \<Rightarrow> min delay_seconds validated_max)"

definition calculate_retry_delay_seconds :: "pyval \<Rightarrow> pyval \<Rightarrow> pyval \<Rightarrow> exc + pyfloat" where
  "calculate_retry_delay_seconds attempt_number base_delay_seconds max_delay_seconds =
     bindR (validate_positive_integer ''attempt_number'' attempt_number) (\<lambda>n.
     bindR (validate_delays base_delay_seconds max_delay_seconds) (\<lambda>(validated_base, validated_max).
     Inr (Fin (capped_delay validated_base validated_max (nat (n - 1))))))"

definition aware_datetime :: "string \<Rightarrow> pyval \<Rightarrow> exc + pydatetime \<times> int" where
  "aware_datetime msg v =
     (case v of
        VDatetime d \<Rightarrow>
          (case dt_tz d of Tz_offset off \<Rightarrow> Inr (d, off) | _ \<Rightarrow> Inl (ValueError msg))
      | _ \<Rightarrow> Inl (ValueError msg))"

text \<open>
  \<open>decision_at.astimezone(UTC) + timedelta(seconds=delay_seconds)\<close>, with the OverflowError of
  either operation turned into a ValueError.
\<close>

definition retry_time :: "pydatetime \<Rightarrow> int \<Rightarrow> pyfloat \<Rightarrow> exc + instant" where
  "retry_time d off delay_seconds =
     (case bindR (astimezone_utc d off) (\<lambda>t.
           bindR (timedelta_seconds delay_seconds) (\<lambda>us. instant_add t us)) of
        Inl (OverflowError _) \<Rightarrow>
          Inl (ValueError ''retry delay exceeds the supported datetime range'')
      | Inl e \<Rightarrow> Inl e
      | Inr next_attempt_at \<Rightarrow> Inr next_attempt_at)"

definition decide_webhook_retry ::
    "string \<Rightarrow> pyval \<Rightarrow> pyval \<Rightarrow> pyval \<Rightarrow> pyval \<Rightarrow> pyval \<Rightarrow> exc + retry_decision" where
  "decide_webhook_retry outcome attempt_number decision_at max_attempts
       base_delay_seconds max_delay_seconds =
     (if outcome \<notin> {''succeeded'', ''failed''}
      then Inl (ValueError (''outcome must be either '' @ quoted ''succeeded'' @ '' or '' @ quoted ''failed''))
      else
        bindR (validate_positive_integer ''attempt_number'' attempt_number) (\<lambda>n.
        bindR (validate_positive_integer ''max_attempts'' max_attempts) (\<lambda>m.
        bindR (aware_datetime ''decision_at must be a timezone-aware datetime'' decision_at) (\<lambda>(d, off).
        bindR (validate_delays base_delay_seconds max_delay_seconds) (\<lambda>_.
        if outcome = ''succeeded''
        then Inr \<lparr>rd_status = ''succeeded'', rd_next_attempt_at = None\<rparr>
        else if n \<ge> m
        then Inr \<lparr>rd_status = ''dead_letter'', rd_next_attempt_at = None\<rparr>
        else
          bindR (calculate_retry_delay_seconds attempt_number base_delay_seconds max_delay_seconds)
            (\<lambda>delay_seconds.
          bindR (retry_time d off delay_seconds) (\<lambda>next_attempt_at.
          Inr \<lparr>rd_status = ''pending'', rd_next_attempt_at = Some next_attempt_at\<rparr>)))))))"

section \<open>Validation\<close>

lemma validate_positive_integer_VInt [simp]:
  "1 \<le> n \<Longrightarrow> validate_positive_integer name (VInt n) = Inr n"
  by (simp add: validate_positive_integer_def positive_int_def)

lemma validate_positive_integer_errors [value_errors_intros]:
  "only_value_errors (validate_positive_integer name v)"
  unfolding validate_positive_integer_def by (rule value_errors_intros)

lemma validate_positive_integer_Inr:
  "validate_positive_integer name v = Inr n \<longleftrightarrow> v = VInt n \<and> 1 \<le> n"
  by (simp add: validate_positive_integer_def positive_int_Inr)

lemma validate_delay_seconds_Inr: "validate_delay_seconds name v = Inr x \<Longrightarrow> 0 < x"
  by (auto simp: validate_delay_seconds_def bindR_eq_Inr split: pyval.splits sum.splits pyfloat.splits if_splits)

lemma validate_delay_seconds_errors [value_errors_intros]:
  "only_value_errors (validate_delay_seconds name v)"
  unfolding validate_delay_seconds_def
  by (rule only_value_errors_bindR)
    (auto simp: only_value_errors_def split: pyval.splits sum.splits pyfloat.splits)

lemma validate_delay_seconds_binary64:
  "validate_delay_seconds name v = Inr x \<Longrightarrow> wf_pyval v \<Longrightarrow> binary64 x"
  by (auto simp: validate_delay_seconds_def bindR_eq_Inr wf_pyval_def
      intro: binary64_float_of_int split: pyval.splits sum.splits pyfloat.splits if_splits)

lemma validate_delays_Inr:
  "validate_delays bd md = Inr (b, m) \<Longrightarrow> 0 < b \<and> b \<le> m"
  by (auto simp: validate_delays_def bindR_eq_Inr dest: validate_delay_seconds_Inr split: if_splits)

lemma validate_delays_errors [value_errors_intros]: "only_value_errors (validate_delays bd md)"
  unfolding validate_delays_def by (intro value_errors_intros)

lemma validate_delays_binary64:
  "validate_delays bd md = Inr (b, m) \<Longrightarrow> wf_pyval bd \<Longrightarrow> wf_pyval md \<Longrightarrow> binary64 b \<and> binary64 m"
  by (auto simp: validate_delays_def bindR_eq_Inr dest: validate_delay_seconds_binary64 split: if_splits)

lemma aware_datetime_Inr:
  "aware_datetime msg v = Inr (d, off) \<longleftrightarrow> v = VDatetime d \<and> dt_tz d = Tz_offset off"
  by (auto simp: aware_datetime_def split: pyval.splits pytz.splits)

lemma aware_datetime_errors [value_errors_intros]: "only_value_errors (aware_datetime msg v)"
  by (auto simp: only_value_errors_def aware_datetime_def split: pyval.splits pytz.splits)

lemma binary64_less: "binary64 x \<Longrightarrow> x < float_limit"
  by (simp add: binary64_def abs_less_iff)

section \<open>The backoff\<close>

definition backoff :: "int \<Rightarrow> int \<Rightarrow> int \<Rightarrow> int" where
  "backoff b m n = min (b * 2 ^ nat (n - 1)) m"

lemma calculate_eq_backoff:
  assumes "1 \<le> n" and "validate_delays bd md = Inr (b, m)" and "m < float_limit"
  shows "calculate_retry_delay_seconds (VInt n) bd md = Inr (Fin (backoff b m n))"
proof -
  have b: "0 < b" "b \<le> m" using validate_delays_Inr [OF assms(2)] by auto
  have "0 < b * 2 ^ nat (n - 1)" using b by simp
  then show ?thesis
    using assms b by (auto simp: calculate_retry_delay_seconds_def capped_delay_def ldexp_def backoff_def)
qed

lemma backoff_bounds: "0 < b \<Longrightarrow> b \<le> m \<Longrightarrow> b \<le> backoff b m n \<and> backoff b m n \<le> m"
  by (simp add: backoff_def)

lemma backoff_mono: "0 < b \<Longrightarrow> n \<le> n' \<Longrightarrow> backoff b m n \<le> backoff b m n'"
  unfolding backoff_def by (intro min.mono mult_left_mono power_increasing) auto

lemma timedelta_seconds_Fin_Inl: "timedelta_seconds (Fin x) = Inl e \<Longrightarrow> \<exists>msg. e = OverflowError msg"
  by (auto simp: timedelta_us_def split: if_splits)

lemma calculate_errors [value_errors_intros]:
  "only_value_errors (calculate_retry_delay_seconds v bd md)"
  unfolding calculate_retry_delay_seconds_def by (intro value_errors_intros)

lemma calculate_Inr_Fin: "calculate_retry_delay_seconds v bd md = Inr f \<Longrightarrow> \<exists>x. f = Fin x"
  by (auto simp: calculate_retry_delay_seconds_def bindR_eq_Inr)

text \<open>
  C26: On validated arguments the delay is exactly \<open>min(base * 2^(attempt_number - 1), max)\<close>, with
  no rounding, in every float range: the branch that catches the overflow of \<open>ldexp\<close> returns
  what the formula says, and the result is again a binary64 value between base and max.
\<close>

theorem retry_delay_formula:
  assumes "1 \<le> n" and "wf_pyval bd" and "wf_pyval md"
    and "validate_delays bd md = Inr (b, m)"
  shows "calculate_retry_delay_seconds (VInt n) bd md = Inr (Fin (min (b * 2 ^ nat (n - 1)) m)) \<and>
    binary64 (min (b * 2 ^ nat (n - 1)) m) \<and>
    b \<le> min (b * 2 ^ nat (n - 1)) m \<and> min (b * 2 ^ nat (n - 1)) m \<le> m"
proof -
  have b: "0 < b" "b \<le> m" using validate_delays_Inr [OF assms(4)] by auto
  have bin: "binary64 b" "binary64 m" using validate_delays_binary64 [OF assms(4,2,3)] by auto
  then have m: "m < float_limit" by (simp add: binary64_less)
  have "binary64 (backoff b m n)"
  proof (cases "b * 2 ^ nat (n - 1) \<le> m")
    case True
    moreover have "0 < b * 2 ^ nat (n - 1)" using b by simp
    ultimately have "ldexp b (nat (n - 1)) = Inr (b * 2 ^ nat (n - 1))"
      using m unfolding ldexp_def by simp
    then show ?thesis using binary64_ldexp [OF bin(1)] True by (simp add: backoff_def)
  qed (use bin in \<open>simp add: backoff_def\<close>)
  then show ?thesis
    using calculate_eq_backoff [OF assms(1,4) m] backoff_bounds [OF b, of n]
    by (simp add: backoff_def)
qed

section \<open>The decision\<close>

text \<open>What a failed attempt with budget left is scheduled for, when it fits the datetime range.\<close>

definition retry_instant :: "pydatetime \<Rightarrow> int \<Rightarrow> int \<Rightarrow> int \<Rightarrow> int \<Rightarrow> instant" where
  "retry_instant d off b m n = dt_local d - off + seconds_us (backoff b m n)"

definition schedulable :: "pydatetime \<Rightarrow> int \<Rightarrow> int \<Rightarrow> int \<Rightarrow> int \<Rightarrow> bool" where
  "schedulable d off b m n \<longleftrightarrow>
     datetime_in_range (dt_local d - off) \<and>
     \<bar>seconds_us (backoff b m n) div day_us\<bar> \<le> 999999999 \<and>
     datetime_in_range (retry_instant d off b m n)"

lemma retry_time_errors: "only_value_errors (retry_time d off (Fin x))"
  by (auto simp: only_value_errors_def retry_time_def astimezone_utc_def instant_add_def timedelta_us_def split: if_splits)

lemma retry_time_table:
  "retry_time d off (Fin (backoff b m n)) =
     (if schedulable d off b m n then Inr (retry_instant d off b m n)
      else Inl (ValueError ''retry delay exceeds the supported datetime range''))"
  by (auto simp: retry_time_def astimezone_utc_def instant_add_def timedelta_us_def schedulable_def
      retry_instant_def)

lemma decide_table:
  assumes "outcome = ''succeeded'' \<or> outcome = ''failed''" and "1 \<le> n" and "1 \<le> mx"
    and "dt_tz d = Tz_offset off" and "validate_delays bd md = Inr (b, m)" and "m < float_limit"
  shows "decide_webhook_retry outcome (VInt n) (VDatetime d) (VInt mx) bd md =
    (if outcome = ''succeeded'' then Inr \<lparr>rd_status = ''succeeded'', rd_next_attempt_at = None\<rparr>
     else if mx \<le> n then Inr \<lparr>rd_status = ''dead_letter'', rd_next_attempt_at = None\<rparr>
     else if schedulable d off b m n
       then Inr \<lparr>rd_status = ''pending'', rd_next_attempt_at = Some (retry_instant d off b m n)\<rparr>
     else Inl (ValueError ''retry delay exceeds the supported datetime range''))"
  using assms(1,2,3,4,5) calculate_eq_backoff [OF assms(2,5,6)]
  by (auto simp: decide_webhook_retry_def aware_datetime_def retry_time_table)

lemma decide_outcome:
  "decide_webhook_retry outcome v1 v v2 bd md = Inr r \<Longrightarrow> outcome = ''succeeded'' \<or> outcome = ''failed''"
  by (rule ccontr) (simp add: decide_webhook_retry_def)

lemma decide_Inr_cases:
  assumes "decide_webhook_retry outcome (VInt n) v (VInt mx) bd md = Inr r"
  shows "(outcome = ''succeeded'' \<and> rd_status r = ''succeeded'' \<and> rd_next_attempt_at r = None) \<or>
    (outcome = ''failed'' \<and> mx \<le> n \<and> rd_status r = ''dead_letter'' \<and> rd_next_attempt_at r = None) \<or>
    (outcome = ''failed'' \<and> n < mx \<and> rd_status r = ''pending'' \<and> (\<exists>t. rd_next_attempt_at r = Some t))"
  using decide_outcome [OF assms]
proof
  assume "outcome = ''succeeded''"
  with assms show ?thesis
    by (auto simp: decide_webhook_retry_def bindR_eq_Inr)
next
  assume o: "outcome = ''failed''"
  show ?thesis
  proof (cases "mx \<le> n")
    case True
    with assms o show ?thesis
      by (auto simp: decide_webhook_retry_def bindR_eq_Inr validate_positive_integer_Inr)
  next
    case False
    with assms o show ?thesis
      by (auto simp: decide_webhook_retry_def bindR_eq_Inr validate_positive_integer_Inr)
  qed
qed

lemma decide_Inr_valid:
  assumes "decide_webhook_retry outcome v1 v v2 bd md = Inr r"
  shows "(\<exists>n. v1 = VInt n \<and> 1 \<le> n) \<and> (\<exists>mx. v2 = VInt mx \<and> 1 \<le> mx) \<and>
    (\<exists>d off. v = VDatetime d \<and> dt_tz d = Tz_offset off) \<and> (\<exists>b m. validate_delays bd md = Inr (b, m))"
  using decide_outcome [OF assms] assms
  by (elim disjE)
    (simp_all add: decide_webhook_retry_def bindR_eq_Inr validate_positive_integer_Inr aware_datetime_Inr
      split_paired_Ex, auto)

text \<open>
  C27: The decision table. For valid arguments a successful attempt ends the job, a failed one
  at the budget dead-letters it, and a failed one below the budget is pending at the decision
  instant plus the backoff; when that instant leaves the datetime range the policy raises its
  own ValueError (never an OverflowError).
\<close>

theorem retry_decision_table:
  assumes "outcome = ''succeeded'' \<or> outcome = ''failed''" and "1 \<le> n" and "1 \<le> mx"
    and "dt_tz d = Tz_offset off" and "wf_pyval bd" and "wf_pyval md"
    and "validate_delays bd md = Inr (b, m)"
  shows "decide_webhook_retry outcome (VInt n) (VDatetime d) (VInt mx) bd md =
    (if outcome = ''succeeded'' then Inr \<lparr>rd_status = ''succeeded'', rd_next_attempt_at = None\<rparr>
     else if mx \<le> n then Inr \<lparr>rd_status = ''dead_letter'', rd_next_attempt_at = None\<rparr>
     else if schedulable d off b m n
       then Inr \<lparr>rd_status = ''pending'',
                 rd_next_attempt_at = Some (dt_local d - off + seconds_us (min (b * 2 ^ nat (n - 1)) m))\<rparr>
     else Inl (ValueError ''retry delay exceeds the supported datetime range''))"
proof -
  have "m < float_limit"
    using validate_delays_binary64 [OF assms(7,5,6)] by (simp add: binary64_less)
  from decide_table [OF assms(1-4,7) this] show ?thesis
    by (simp add: retry_instant_def backoff_def)
qed

text \<open>
  The policy fails only with ValueError, whatever Python values its arguments are.
\<close>

lemma retry_only_value_errors:
  "decide_webhook_retry outcome v1 v v2 bd md = Inl e \<Longrightarrow> \<exists>msg. e = ValueError msg"
proof -
  have "only_value_errors (decide_webhook_retry outcome v1 v v2 bd md)"
    unfolding decide_webhook_retry_def
    by (intro value_errors_intros) (auto dest!: calculate_Inr_Fin intro: retry_time_errors)
  then show "decide_webhook_retry outcome v1 v v2 bd md = Inl e \<Longrightarrow> \<exists>msg. e = ValueError msg"
    by (simp add: only_value_errors_def)
qed

text \<open>
  C28: Retries back off and stay within the configured maximum, to the microsecond: of two
  failed attempts judged at the same instant the later one is not scheduled earlier, and no
  attempt is scheduled before the decision or later than the maximum delay after it.
\<close>

theorem retry_backoff_monotone:
  assumes "decide_webhook_retry ''failed'' (VInt n) (VDatetime d) (VInt mx) bd md =
      Inr \<lparr>rd_status = ''pending'', rd_next_attempt_at = Some t\<rparr>"
    and "decide_webhook_retry ''failed'' (VInt n') (VDatetime d) (VInt mx) bd md =
      Inr \<lparr>rd_status = ''pending'', rd_next_attempt_at = Some t'\<rparr>"
    and "n \<le> n'" and "dt_tz d = Tz_offset off" and "wf_pyval bd" and "wf_pyval md"
    and "validate_delays bd md = Inr (b, m)"
  shows "dt_local d - off \<le> t \<and> t \<le> t' \<and> t' \<le> dt_local d - off + seconds_us m"
proof -
  have m: "m < float_limit"
    using validate_delays_binary64 [OF assms(7,5,6)] by (simp add: binary64_less)
  have b: "0 < b" "b \<le> m" using validate_delays_Inr [OF assms(7)] by auto
  have n: "1 \<le> n" "1 \<le> n'" "1 \<le> mx"
    using decide_Inr_valid [OF assms(1)] decide_Inr_valid [OF assms(2)] by auto
  have eq: "t = retry_instant d off b m n" "t' = retry_instant d off b m n'"
    using assms(1,2) decide_table [OF _ n(1,3) assms(4,7) m, of "''failed''"]
      decide_table [OF _ n(2,3) assms(4,7) m, of "''failed''"]
    by (auto split: if_splits)
  have "0 \<le> backoff b m n" using backoff_bounds [OF b, of n] b by simp
  then have "0 \<le> seconds_us (backoff b m n)" by (rule seconds_us_nonneg)
  moreover have "seconds_us (backoff b m n) \<le> seconds_us (backoff b m n')"
    using \<open>0 \<le> backoff b m n\<close> by (rule seconds_us_mono) (rule backoff_mono [OF b(1) assms(3)])
  moreover have "seconds_us (backoff b m n') \<le> seconds_us m"
    using backoff_bounds [OF b, of n'] b by (intro seconds_us_mono) auto
  ultimately show ?thesis by (simp add: eq retry_instant_def)
qed

end
