(* ===== verification/Job_Execution.thy ===== *)
theory Job_Execution
  imports Attempt_Numbering Replay Retry_Policy
begin

text \<open>
  \<open>delivery_job_execution_service.py\<close>: one claimed job through one delivery and the retry decision,
  in the caller's transaction. The decision's attempt number is the job's own count of this retry
  cycle, not the number of the attempt.
\<close>

section \<open>Execution\<close>

definition get_job :: "uuid \<Rightarrow> db \<Rightarrow> job_row option" where
  "get_job i d = lookup_by job_id i (jobs d)"

text \<open>\<open>decision_at.astimezone(UTC)\<close> of the datetime the policy has accepted as aware.\<close>

definition decision_instant :: "pydatetime \<Rightarrow> exc + instant" where
  "decision_instant d =
     (case dt_tz d of
        Tz_offset off \<Rightarrow> astimezone_utc d off
      | _ \<Rightarrow> Inl (ValueError ''decision_at must be a timezone-aware datetime''))"

definition decided_job :: "job_row \<Rightarrow> int \<Rightarrow> retry_decision \<Rightarrow> instant \<Rightarrow> job_row" where
  "decided_job job cycle_attempt_number decision normalized_decision_at =
     job\<lparr>job_attempt_count := cycle_attempt_number,
         job_status := rd_status decision,
         job_next_attempt_at := rd_next_attempt_at decision,
         job_updated_at := normalized_decision_at\<rparr>"

text \<open>From the completed attempt to the flush of the job.\<close>

definition settle_job ::
    "pyval \<Rightarrow> pyval \<Rightarrow> pyval \<Rightarrow> job_row \<Rightarrow> attempt_row \<Rightarrow> (world, job_row \<times> attempt_row) io" where
  "settle_job max_attempts base_delay_seconds max_delay_seconds job attempt =
     (let cycle_attempt_number = job_attempt_count job + 1 in
      bindE (tick e_decision_now) (\<lambda>decision_at.
      bindE (liftE (decide_webhook_retry (at_outcome attempt) (VInt cycle_attempt_number)
               (VDatetime decision_at) max_attempts base_delay_seconds max_delay_seconds)) (\<lambda>decision.
      bindE (liftE (decision_instant decision_at)) (\<lambda>normalized_decision_at.
      (let job' = decided_job job cycle_attempt_number decision normalized_decision_at in
       bindE (flush (update_job job job')) (\<lambda>_. returnE (job', attempt)))))))"

definition execute_webhook_delivery_job ::
    "(string \<Rightarrow> json \<Rightarrow> pyval \<Rightarrow> (world, int) io) \<Rightarrow> pyval \<Rightarrow> pyval \<Rightarrow> pyval \<Rightarrow> pyval \<Rightarrow> uuid
     \<Rightarrow> (world, job_row \<times> attempt_row) io" where
  "execute_webhook_delivery_job post_json timeout_seconds max_attempts base_delay_seconds
       max_delay_seconds i =
     bindE (query (get_job i)) (\<lambda>jb.
     (case jb of None \<Rightarrow> raiseE WebhookDeliveryJobNotFoundError
      | Some job \<Rightarrow>
     if job_status job \<noteq> ''processing'' then raiseE WebhookDeliveryJobNotProcessingError
     else
     bindE (execute_webhook_delivery post_json (job_event_id job) timeout_seconds)
       (settle_job max_attempts base_delay_seconds max_delay_seconds job)))"

section \<open>Keeping invariants\<close>

context delivery_invariant
begin

lemma keeps_settle: "keeps R I (settle_job ma bd md job a)"
  unfolding settle_job_def Let_def by (intro keeps_intros keeps_updates)

lemma keeps_execute_job: "keeps R I (execute_webhook_delivery_job post_json t ma bd md i)"
  unfolding execute_webhook_delivery_job_def
  by (intro keeps_intros keeps_settle keeps_delivery)

end

lemma silent_settle [field_intros]:
  "silent (settle_job ma bd md job a)" "env_kept (settle_job ma bd md job a)"
  "unpolled (settle_job ma bd md job a)"
  unfolding settle_job_def Let_def by (intro field_intros)+

lemma execute_job_kept [field_intros]:
  "env_kept (execute_webhook_delivery_job httpx2_post_json t ma bd md i)"
  "unpolled (execute_webhook_delivery_job httpx2_post_json t ma bd md i)"
  unfolding execute_webhook_delivery_job_def by (intro field_intros httpx2.delivery_kept)+

lemma one_post_execute_job:
  "one_post (is_post t) (execute_webhook_delivery_job httpx2_post_json t ma bd md i)"
  unfolding execute_webhook_delivery_job_def
  by (intro one_post_silent_before one_post_silent_after one_post_case_option one_post_if
      one_post_raiseE one_post_execute silent_settle stmts_kept)

section \<open>The state of the job afterwards\<close>

lemma settle_Inr:
  assumes "settle_job ma bd md job a w = (Inr (job', a'), w')"
  obtains mx t where "a' = a" "ma = VInt mx" "job_id job' = job_id job" "job_event_id job' = job_event_id job"
    "job_attempt_count job' = job_attempt_count job + 1" "job_updated_at job' = t"
    "at_outcome a = ''succeeded'' \<and> job_status job' = ''succeeded'' \<and> job_next_attempt_at job' = None \<or>
     at_outcome a = ''failed'' \<and> mx \<le> job_attempt_count job + 1 \<and>
       job_status job' = ''dead_letter'' \<and> job_next_attempt_at job' = None \<or>
     at_outcome a = ''failed'' \<and> job_attempt_count job + 1 < mx \<and>
       job_status job' = ''pending'' \<and> (\<exists>n. job_next_attempt_at job' = Some n)"
proof -
  from assms obtain d decision t w1 where
    dec: "decide_webhook_retry (at_outcome a) (VInt (job_attempt_count job + 1)) (VDatetime d) ma bd md = Inr decision"
    and job': "job' = decided_job job (job_attempt_count job + 1) decision t" and a': "a' = a"
    by (auto simp: settle_job_def Let_def bindE_Inr liftE_def tick_def returnE_def)
  obtain mx where mx: "ma = VInt mx" using decide_Inr_valid [OF dec] by auto
  show thesis
    using decide_Inr_cases [OF dec [unfolded mx]]
    by (intro that [OF a' mx]) (auto simp: job' decided_job_def)
qed

text \<open>A status and a count written by a flush are in the tables, whatever the row was meanwhile.\<close>

lemma update_job_written:
  assumes "schema_ok d" and "update_job old new d = Inr d'" and "job_status new \<noteq> job_status old"
    and "job_id new = job_id old" and "job_attempt_count new \<noteq> job_attempt_count old"
  shows "\<exists>j \<in> set (jobs d'). job_id j = job_id new \<and> job_status j = job_status new \<and>
    job_attempt_count j = job_attempt_count new"
  using assms(2)
proof (cases rule: update_job_InrE)
  case 1
  then show ?thesis using assms(3) by simp
next
  case (2 cur)
  have "cur \<in> set (jobs d)" "job_id cur = job_id old" using "2"(2) by (auto dest: lookup_by_Some)
  then have "job_id (patch_job old new cur) \<in> job_id ` set (jobs d)"
    by (auto simp flip: \<open>job_id cur = job_id old\<close>)
  then have "patch_job old new cur \<in> set (jobs d')"
    using set_update_by_distinct [OF schema_ok_job_distinct [OF assms(1)], of "patch_job old new cur"]
    by (simp add: "2"(5))
  then show ?thesis
    using assms(3-5) \<open>job_id cur = job_id old\<close>
    by (intro bexI [of _ "patch_job old new cur"]) (simp_all add: patch_job_def)
qed

lemma settle_recorded:
  assumes "world_inv R schema_ok w" and "settle_job ma bd md job a w = (Inr (job', a'), w')"
    and "job_status job = ''processing''"
  shows "\<exists>j \<in> set (jobs (w_working w')). job_id j = job_id job \<and> job_status j = job_status job' \<and>
    job_attempt_count j = job_attempt_count job'"
proof -
  have status: "job_status job' \<noteq> job_status job" "job_id job' = job_id job"
    "job_attempt_count job' \<noteq> job_attempt_count job"
    by (rule settle_Inr [OF assms(2)]; use assms(3) in auto)+
  from assms(2) obtain w1 w2 where flush: "flush (update_job job job') w1 = (Inr (), w2)"
    and w1: "w1 = w\<lparr>w_ticks := Suc (w_ticks w)\<rparr>" and w2: "w' = w2"
    by (auto simp: settle_job_def Let_def bindE_Inr liftE_def tick_def returnE_def)
  have "world_inv R schema_ok w1" using assms(1) by (simp add: w1 world_inv_def)
  then show ?thesis
    using flush by (cases rule: flush_cases) (use update_job_written [OF _ _ status] in \<open>auto simp: w2 status\<close>)
qed

text \<open>
  C12: Executing a claimed job, under any interleaving with transactions that keep the schema. When
  it returns, the job it read with its first statement was \<open>processing\<close>, it sent exactly one request, and the
  returned attempt belongs to the job's event; the retry cycle's count is one more than the count it
  read; and the job is succeeded after a successful attempt,
  dead-lettered after a failed attempt that used up \<open>max_attempts\<close>, and pending with a next attempt
  time after any other failed attempt. The new status and the new count are in the transaction's tables.
\<close>

theorem job_execution_outcome:
  assumes "world_inv R schema_ok w"
    and "execute_webhook_delivery_job httpx2_post_json t (VInt mx) bd md i w = (Inr (job', a), w')"
  shows "(\<exists>url payload. w_trace w' = w_trace w @ [Http_post url payload t]) \<and>
    job_id job' = i \<and> at_event_id a = job_event_id job' \<and> 1 \<le> job_attempt_count job' \<and>
    (\<exists>job. get_job i (w_working (snd (next_stmt w))) = Some job \<and> job_status job = ''processing'' \<and>
       job_event_id job' = job_event_id job \<and> job_attempt_count job' = job_attempt_count job + 1) \<and>
    job_status job' =
      (if at_outcome a = ''succeeded'' then ''succeeded''
       else if mx \<le> job_attempt_count job' then ''dead_letter'' else ''pending'') \<and>
    (job_next_attempt_at job' = None \<longleftrightarrow> job_status job' \<noteq> ''pending'') \<and>
    (\<exists>j \<in> set (jobs (w_working w')). job_id j = i \<and> job_status j = job_status job' \<and>
       job_attempt_count j = job_attempt_count job')"
proof -
  obtain r1 w1 where q: "query (get_job i) w = (r1, w1)" by fastforce
  obtain job w2 where r1: "r1 = Inr (Some job)" and proc: "job_status job = ''processing''"
    and del: "execute_webhook_delivery httpx2_post_json (job_event_id job) t w1 = (Inr a, w2)"
    and set': "settle_job (VInt mx) bd md job a w2 = (Inr (job', a), w')"
  proof -
    from assms(2) obtain jb w1' where "query (get_job i) w = (Inr jb, w1')"
      and "(case jb of None \<Rightarrow> raiseE WebhookDeliveryJobNotFoundError
        | Some job \<Rightarrow> if job_status job \<noteq> ''processing'' then raiseE WebhookDeliveryJobNotProcessingError
            else bindE (execute_webhook_delivery httpx2_post_json (job_event_id job) t)
              (settle_job (VInt mx) bd md job)) w1' = (Inr (job', a), w')"
      unfolding execute_webhook_delivery_job_def bindE_Inr by blast
    then show thesis
      using q that
      by (cases jb) (auto simp: raiseE_def bindE_Inr split: if_splits elim: settle_Inr)
  qed
  have W1: "world_inv R schema_ok w1" by (rule keeps_run [OF keeps_query assms(1) q])
  have W2: "world_inv R schema_ok w2" by (rule keeps_run [OF schema_delivery.keeps_delivery W1 del])
  obtain se w0 where n: "next_stmt w = (se, w0)" by fastforce
  have "w1 = w0 \<and> get_job i (w_working w0) = Some job"
    using q n by (auto simp: r1 query_def sql_def split: option.splits)
  then have read: "get_job i (w_working (snd (next_stmt w))) = Some job" by (simp add: n)
  have job: "job_id job = i" "0 \<le> job_attempt_count job"
  proof -
    have "get_job i (w_working w1) = Some job \<and> schema_ok (w_working w1)"
      using assms(1) q by (cases rule: query_cases) (auto simp: r1)
    then show "job_id job = i" "0 \<le> job_attempt_count job"
      by (auto simp: get_job_def schema_ok_def job_check_def dest!: lookup_by_Some split: if_splits)
  qed
  have "\<exists>url payload. w_trace w' = w_trace w @ [Http_post url payload t]"
    using one_post_execute_job assms(2) unfolding one_post_def is_post_def by fastforce
  moreover have "at_event_id a = job_event_id job" by (rule delivery_event [OF del])
  moreover have "\<exists>j \<in> set (jobs (w_working w')). job_id j = i \<and> job_status j = job_status job' \<and>
      job_attempt_count j = job_attempt_count job'"
    using settle_recorded [OF W2 set' proc] job by simp
  moreover have "job_id job' = i" "job_event_id job' = job_event_id job" "1 \<le> job_attempt_count job'"
    "job_attempt_count job' = job_attempt_count job + 1"
    "job_status job' =
      (if at_outcome a = ''succeeded'' then ''succeeded''
       else if mx \<le> job_attempt_count job' then ''dead_letter'' else ''pending'')"
    "job_next_attempt_at job' = None \<longleftrightarrow> job_status job' \<noteq> ''pending''"
    by (rule settle_Inr [OF set']; use job in auto)+
  ultimately show ?thesis using read proc by simp
qed

end
