(* ===== verification/Processing.thy ===== *)
theory Processing
  imports Job_Execution
begin

text \<open>
  \<open>delivery_processing_service.py\<close>: one processing cycle. The due jobs are claimed in a transaction
  of their own; each claimed job is then executed in a transaction of its own, in order, and the
  first failure ends the cycle.
\<close>

section \<open>The cycle\<close>

record processing_job_result =
  jr_job_id :: uuid
  jr_attempt_id :: uuid
  jr_status :: string
  jr_next_attempt_at :: "instant option"

record processing_cycle_result =
  cr_claimed_job_ids :: "uuid list"
  cr_completed_jobs :: "processing_job_result list"

definition claimed_count :: "processing_cycle_result \<Rightarrow> nat" where
  "claimed_count r = length (cr_claimed_job_ids r)"

definition completed_count :: "processing_cycle_result \<Rightarrow> nat" where
  "completed_count r = length (cr_completed_jobs r)"

definition validate_limit :: "pyval \<Rightarrow> exc + int" where
  "validate_limit limit = positive_int ''limit must be an integer greater than or equal to 1'' limit"

text \<open>The aware-datetime check without the conversion.\<close>

definition validate_aware :: "string \<Rightarrow> pyval \<Rightarrow> exc + unit" where
  "validate_aware msg v = bindR (aware_datetime msg v) (\<lambda>_. Inr ())"

text \<open>
  A number that is not a Boolean, finite and greater than 0. \<open>math.isfinite\<close> converts an int to a
  float first, which raises for an int beyond the float range.
\<close>

definition positive_timeout_msg :: string where
  "positive_timeout_msg = ''timeout_seconds must be a finite number greater than 0''"

definition validate_timeout_seconds :: "pyval \<Rightarrow> exc + unit" where
  "validate_timeout_seconds timeout_seconds =
     (case timeout_seconds of
        VInt n \<Rightarrow>
          bindR (float_of_int n) (\<lambda>_.
          if n \<le> 0 then Inl (ValueError positive_timeout_msg) else Inr ())
      | VFloat (Fin x) \<Rightarrow> if x \<le> 0 then Inl (ValueError positive_timeout_msg) else Inr ()
      | _ \<Rightarrow> Inl (ValueError positive_timeout_msg))"

definition job_snapshot :: "job_row \<times> attempt_row \<Rightarrow> processing_job_result" where
  "job_snapshot result =
     \<lparr>jr_job_id = job_id (fst result), jr_attempt_id = at_id (snd result),
      jr_status = job_status (fst result), jr_next_attempt_at = job_next_attempt_at (fst result)\<rparr>"

text \<open>\<open>for job_id in claimed_job_ids\<close>\<close>

fun complete_jobs ::
    "(uuid \<Rightarrow> (world, job_row \<times> attempt_row) io) \<Rightarrow> uuid list \<Rightarrow> (world, processing_job_result list) io" where
  "complete_jobs execute [] = returnE []"
| "complete_jobs execute (i # ids) =
     bindE (in_transaction (bindE (execute i) (\<lambda>result. returnE (job_snapshot result)))) (\<lambda>snapshot.
     bindE (complete_jobs execute ids) (\<lambda>rest. returnE (snapshot # rest)))"

definition run_webhook_delivery_processing_cycle ::
    "(string \<Rightarrow> json \<Rightarrow> pyval \<Rightarrow> (world, int) io) \<Rightarrow> pyval \<Rightarrow> pyval \<Rightarrow> pyval \<Rightarrow> pyval \<Rightarrow> pyval \<Rightarrow> pyval
     \<Rightarrow> (world, processing_cycle_result) io" where
  "run_webhook_delivery_processing_cycle post_json claimed_at limit timeout_seconds max_attempts
       base_delay_seconds max_delay_seconds =
     bindE (liftE (validate_limit limit)) (\<lambda>_.
     bindE (liftE (validate_aware claimed_at_msg claimed_at)) (\<lambda>_.
     bindE (liftE (validate_timeout_seconds timeout_seconds)) (\<lambda>_.
     bindE (in_transaction
              (bindE (claim_due_webhook_delivery_jobs claimed_at limit) (\<lambda>js. returnE (map job_id js))))
       (\<lambda>claimed_job_ids.
     bindE (complete_jobs
              (execute_webhook_delivery_job post_json timeout_seconds max_attempts
                 base_delay_seconds max_delay_seconds)
              claimed_job_ids)
       (\<lambda>completed_jobs.
     returnE \<lparr>cr_claimed_job_ids = claimed_job_ids, cr_completed_jobs = completed_jobs\<rparr>)))))"

section \<open>Keeping invariants\<close>

lemma keeps_complete_jobs: "(\<And>i. keeps R I (execute i)) \<Longrightarrow> keeps R I (complete_jobs execute ids)"
  by (induction ids) (auto intro!: keeps_intros)

context delivery_invariant
begin

lemma keeps_cycle: "keeps R I (run_webhook_delivery_processing_cycle post_json at n t ma bd md)"
  unfolding run_webhook_delivery_processing_cycle_def
  by (intro keeps_intros keeps_claim keeps_complete_jobs keeps_execute_job)

end

section \<open>The trace of a cycle\<close>

text \<open>The completed jobs, one committed transaction with one request each.\<close>

inductive completed_trace :: "pyval \<Rightarrow> nat \<Rightarrow> effect list \<Rightarrow> bool" for t where
  completed_nil: "completed_trace t 0 []"
| completed_job: "completed_trace t n tr \<Longrightarrow>
    completed_trace t (Suc n)
      (Session_open # Http_post url payload t # Session_commit # Session_close # tr)"

text \<open>A job whose transaction failed: at most one request, and no further job is started.\<close>

definition failed_trace :: "pyval \<Rightarrow> effect list \<Rightarrow> bool" where
  "failed_trace t tr \<longleftrightarrow>
     (\<exists>es. (es = [] \<or> (\<exists>url payload. es = [Http_post url payload t])) \<and> transaction_trace False es tr)"

lemma complete_jobs_kept [field_intros]:
  "(\<And>i. env_kept (execute i)) \<Longrightarrow> env_kept (complete_jobs execute ids)"
  "(\<And>i. unpolled (execute i)) \<Longrightarrow> unpolled (complete_jobs execute ids)"
  by (induction ids) (auto intro!: field_intros)

lemma cycle_kept [field_intros]:
  "env_kept (run_webhook_delivery_processing_cycle httpx2_post_json at n t ma bd md)"
  "unpolled (run_webhook_delivery_processing_cycle httpx2_post_json at n t ma bd md)"
  unfolding run_webhook_delivery_processing_cycle_def by (intro field_intros)+

lemma one_post_emits:
  "one_post P m = emits (\<lambda>r es. (es = [] \<and> isl r) \<or> (\<exists>e. P e \<and> es = [e])) m"
  by (fastforce simp: one_post_def emits_def)

lemma completion_trace:
  assumes "in_transaction (bindE (execute_webhook_delivery_job httpx2_post_json t ma bd md i)
      (\<lambda>result. returnE (job_snapshot result))) w = (r, w')"
  shows "\<exists>tr. w_trace w' = w_trace w @ tr \<and>
    (case r of
       Inr _ \<Rightarrow> (\<exists>url payload. tr = [Session_open, Http_post url payload t, Session_commit, Session_close])
     | Inl _ \<Rightarrow> failed_trace t tr)"
proof -
  have "one_post (is_post t) (bindE (execute_webhook_delivery_job httpx2_post_json t ma bd md i)
      (\<lambda>result. returnE (job_snapshot result)))"
    by (intro one_post_silent_after one_post_execute_job field_intros)
  note body = emits_in_transaction [OF this [unfolded one_post_emits]]
  obtain tr es r1 where tr: "w_trace w' = w_trace w @ tr" "\<forall>x. r = Inr x \<longrightarrow> r1 = r"
    "transaction_trace (\<not> isl r) es tr"
    and es: "es = [] \<and> isl r1 \<or> (\<exists>e. is_post t e \<and> es = [e])"
    using emitsD [OF body assms] by blast
  then show ?thesis
    by (cases r) (auto simp: failed_trace_def transaction_trace_def is_post_def)
qed

lemma complete_jobs_trace:
  assumes "complete_jobs (execute_webhook_delivery_job httpx2_post_json t ma bd md) ids w = (r, w')"
  shows "\<exists>n tr tr'. w_trace w' = w_trace w @ tr @ tr' \<and> completed_trace t n tr \<and>
    (case r of
       Inr rs \<Rightarrow> n = length ids \<and> tr' = [] \<and> length rs = length ids
     | Inl _ \<Rightarrow> n < length ids \<and> failed_trace t tr')"
  using assms
proof (induction ids arbitrary: w r)
  case Nil
  then show ?case
    by (intro exI [of _ 0] exI [of _ "[]"]) (auto simp: returnE_def intro: completed_nil)
next
  case (Cons i ids)
  let ?txn = "in_transaction (bindE (execute_webhook_delivery_job httpx2_post_json t ma bd md i)
      (\<lambda>result. returnE (job_snapshot result)))"
  obtain r1 w1 where run1: "?txn w = (r1, w1)" by fastforce
  obtain tr1 where tr1: "w_trace w1 = w_trace w @ tr1"
    "case r1 of
       Inr _ \<Rightarrow> (\<exists>url payload. tr1 = [Session_open, Http_post url payload t, Session_commit, Session_close])
     | Inl _ \<Rightarrow> failed_trace t tr1"
    using completion_trace [OF run1] by blast
  show ?case
  proof (cases r1)
    case (Inl e)
    then have "r = Inl e" "w' = w1" using Cons.prems run1 by (simp_all add: bindE_def)
    then show ?thesis using tr1 Inl
      by (intro exI [of _ 0] exI [of _ "[]"] exI [of _ tr1]) (simp add: completed_nil)
  next
    case (Inr x)
    let ?rest = "complete_jobs (execute_webhook_delivery_job httpx2_post_json t ma bd md) ids"
    obtain r2 w2 where run2: "?rest w1 = (r2, w2)" by fastforce
    have "bindE ?rest (\<lambda>rest. returnE (x # rest)) w1 = (r, w')"
      using Cons.prems unfolding complete_jobs.simps bindE_run [where m = ?txn and w = w, OF run1 [unfolded Inr]] .
    then have eq: "(case r2 of Inl e \<Rightarrow> (Inl e, w2) | Inr rest \<Rightarrow> returnE (x # rest) w2) = (r, w')"
      unfolding bindE_def run2 by simp
    have w': "w2 = w'" using eq by (cases r2) (auto simp: returnE_def)
    have r: "r = map_sum id (Cons x) r2" using eq by (cases r2) (auto simp: returnE_def)
    obtain n tr tr' where IH: "w_trace w' = w_trace w1 @ tr @ tr'" "completed_trace t n tr"
      "case r2 of Inr rs \<Rightarrow> n = length ids \<and> tr' = [] \<and> length rs = length ids
         | Inl _ \<Rightarrow> n < length ids \<and> failed_trace t tr'"
      using Cons.IH [OF run2 [unfolded w']] by (elim exE conjE) (rule that)
    obtain url payload where t1: "tr1 = [Session_open, Http_post url payload t, Session_commit, Session_close]"
      using tr1(2) Inr by auto
    have "completed_trace t (Suc n) (tr1 @ tr)"
      using completed_job [OF IH(2)] by (simp add: t1)
    then show ?thesis
      using tr1(1) IH(1,3) r
      by (intro exI [of _ "Suc n"] exI [of _ "tr1 @ tr"] exI [of _ tr'] conjI; cases r2; simp)
  qed
qed

lemma query_run: "query f w = (Inr x, w') \<Longrightarrow> \<exists>d. x = f d"
  by (auto simp: query_def sql_def split: prod.splits option.splits)

lemma execute_job_id:
  assumes "execute_webhook_delivery_job post_json t ma bd md i w = (Inr (job', a), w')"
  shows "job_id job' = i"
proof -
  from assms obtain jb w1 where q: "query (get_job i) w = (Inr jb, w1)"
    and rest: "(case jb of None \<Rightarrow> raiseE WebhookDeliveryJobNotFoundError
      | Some job \<Rightarrow> if job_status job \<noteq> ''processing'' then raiseE WebhookDeliveryJobNotProcessingError
          else bindE (execute_webhook_delivery post_json (job_event_id job) t)
            (settle_job ma bd md job)) w1 = (Inr (job', a), w')"
    unfolding execute_webhook_delivery_job_def bindE_Inr by blast
  obtain job where job: "jb = Some job" using rest by (cases jb) (auto simp: raiseE_def)
  have "job_id job = i" using query_run [OF q] by (auto simp: job get_job_def dest: lookup_by_Some sym)
  moreover have "job_id job' = job_id job"
    using rest by (auto simp: job raiseE_def bindE_Inr split: if_splits elim: settle_Inr)
  ultimately show ?thesis by simp
qed

lemma in_transaction_Inr:
  assumes "in_transaction m w = (Inr x, w')"
  shows "\<exists>w0 w1. m w0 = (Inr x, w1)"
  using assms unfolding in_transaction_def
  by (auto simp: bindE_Inr try_finally_Inr try_except_Inr raiseE_def returnE_def)

lemma complete_jobs_ids:
  assumes "complete_jobs (execute_webhook_delivery_job post_json t ma bd md) ids w = (Inr rs, w')"
  shows "map jr_job_id rs = ids"
  using assms
proof (induction ids arbitrary: w rs)
  case (Cons i ids)
  let ?txn = "in_transaction (bindE (execute_webhook_delivery_job post_json t ma bd md i)
      (\<lambda>result. returnE (job_snapshot result)))"
  from Cons.prems obtain x w1 rest where x: "?txn w = (Inr x, w1)"
    and rest: "complete_jobs (execute_webhook_delivery_job post_json t ma bd md) ids w1 = (Inr rest, w')"
    and rs: "rs = x # rest"
    unfolding complete_jobs.simps bindE_Inr returnE_def by auto
  from in_transaction_Inr [OF x] obtain w2 w3 r where
    "execute_webhook_delivery_job post_json t ma bd md i w2 = (Inr r, w3)" "x = job_snapshot r"
    by (auto simp: bindE_Inr returnE_def)
  then have "jr_job_id x = i"
    by (cases r) (auto simp: job_snapshot_def dest: execute_job_id)
  then show ?case using Cons.IH [OF rest] by (simp add: rs)
qed (simp add: returnE_def)

text \<open>What follows the claim.\<close>

lemma jobs_trace:
  assumes "bindE (complete_jobs (execute_webhook_delivery_job httpx2_post_json t ma bd md) ids)
      (\<lambda>completed. returnE \<lparr>cr_claimed_job_ids = ids, cr_completed_jobs = completed\<rparr>) w1 = (r, w')"
  shows "case r of
    Inr res \<Rightarrow> cr_claimed_job_ids res = ids \<and> map jr_job_id (cr_completed_jobs res) = ids \<and>
      (\<exists>tr. completed_trace t (length ids) tr \<and> w_trace w' = w_trace w1 @ tr)
  | Inl e \<Rightarrow> \<exists>n tr tr'. completed_trace t n tr \<and> failed_trace t tr' \<and> w_trace w' = w_trace w1 @ tr @ tr'"
proof -
  obtain r2 w2 where run: "complete_jobs (execute_webhook_delivery_job httpx2_post_json t ma bd md) ids w1 = (r2, w2)"
    by fastforce
  have eq: "(case r2 of Inl e \<Rightarrow> (Inl e, w2)
      | Inr cs \<Rightarrow> returnE \<lparr>cr_claimed_job_ids = ids, cr_completed_jobs = cs\<rparr> w2) = (r, w')"
    using assms run by (simp add: bindE_def)
  then have "w2 = w'" by (cases r2) (auto simp: returnE_def)
  note run = run [unfolded this]
  obtain n tr tr' where tr: "w_trace w' = w_trace w1 @ tr @ tr'" "completed_trace t n tr"
    "case r2 of Inr rs \<Rightarrow> n = length ids \<and> tr' = [] \<and> length rs = length ids
       | Inl _ \<Rightarrow> n < length ids \<and> failed_trace t tr'"
    using complete_jobs_trace [OF run] by (elim exE conjE) (rule that)
  show ?thesis
  proof (cases r2)
    case (Inl e)
    then have "r = Inl e" using eq by simp
    moreover have "failed_trace t tr'" using tr(3) Inl by simp
    ultimately show ?thesis using tr(1,2) by auto
  next
    case (Inr cs)
    then have r: "r = Inr \<lparr>cr_claimed_job_ids = ids, cr_completed_jobs = cs\<rparr>"
      using eq by (simp add: returnE_def)
    have "map jr_job_id cs = ids" using complete_jobs_ids run Inr by blast
    then show ?thesis using tr Inr by (auto simp: r)
  qed
qed

text \<open>
  C13: A cycle never holds the claim open over a request and never starts a job before the previous one
  is settled. Whatever happens outside, a cycle that returns has committed the claim first, then, for
  each claimed job in claim order, sent exactly one request in a transaction of its own and
  committed it; a cycle that raises has done so for the jobs before the failing one, sent at most one
  request in the failing transaction and rolled it back, and started no further job.
\<close>

theorem cycle_trace:
  assumes "run_webhook_delivery_processing_cycle httpx2_post_json at limit t ma bd md w = (r, w')"
  shows "case r of
    Inr res \<Rightarrow> map jr_job_id (cr_completed_jobs res) = cr_claimed_job_ids res \<and>
      (\<exists>tr. completed_trace t (length (cr_claimed_job_ids res)) tr \<and>
        w_trace w' = w_trace w @ [Session_open, Session_commit, Session_close] @ tr)
  | Inl e \<Rightarrow> w_trace w' = w_trace w \<or>
      (\<exists>tr. transaction_trace False [] tr \<and> w_trace w' = w_trace w @ tr) \<or>
      (\<exists>n tr tr'. completed_trace t n tr \<and> failed_trace t tr' \<and>
        w_trace w' = w_trace w @ [Session_open, Session_commit, Session_close] @ tr @ tr')"
proof -
  let ?claim = "in_transaction (bindE (claim_due_webhook_delivery_jobs at limit) (\<lambda>js. returnE (map job_id js)))"
  let ?rest = "\<lambda>ids. bindE (complete_jobs (execute_webhook_delivery_job httpx2_post_json t ma bd md) ids)
      (\<lambda>completed. returnE \<lparr>cr_claimed_job_ids = ids, cr_completed_jobs = completed\<rparr>)"
  consider (invalid) e where "r = Inl e" "w' = w" | (valid) "bindE ?claim ?rest w = (r, w')"
    using assms unfolding run_webhook_delivery_processing_cycle_def
    by (cases "validate_limit limit"; cases "validate_aware claimed_at_msg at"; cases "validate_timeout_seconds t")
      (auto simp: bindE_def [of "liftE _"] liftE_def)
  then show ?thesis
  proof cases
    case valid
    obtain r1 w1 where run1: "?claim w = (r1, w1)" by fastforce
    have "silent (bindE (claim_due_webhook_delivery_jobs at limit) (\<lambda>js. returnE (map job_id js)))"
      by (intro field_intros)
    then obtain tr1 where tr1: "w_trace w1 = w_trace w @ tr1" "transaction_trace (\<not> isl r1) [] tr1"
      using emitsD [OF emits_in_transaction [OF emits_silent] run1] by blast
    show ?thesis
    proof (cases r1)
      case (Inl e)
      then have "r = Inl e" "w' = w1" using valid run1 by (simp_all add: bindE_def)
      then show ?thesis using tr1 Inl by auto
    next
      case (Inr ids)
      have t1: "tr1 = [Session_open, Session_commit, Session_close]"
        using tr1(2) Inr by (simp add: transaction_trace_def)
      have "?rest ids w1 = (r, w')" using valid run1 Inr by (simp add: bindE_def [of ?claim])
      from jobs_trace [OF this] show ?thesis
        using tr1(1) t1 by (cases r) auto
    qed
  qed auto
qed

end
