(* ===== verification/Worker_Iteration.thy ===== *)
theory Worker_Iteration
  imports Processing
begin

text \<open>
  \<open>worker_iteration_service.py\<close>: one iteration of the worker, recovery in a transaction of its own
  and then a processing cycle at the same instant.
\<close>

record worker_iteration_result =
  wi_recovery :: "uuid list"
  wi_processing :: processing_cycle_result

definition recovered_count :: "worker_iteration_result \<Rightarrow> nat" where
  "recovered_count r = length (wi_recovery r)"

definition iteration_claimed_count :: "worker_iteration_result \<Rightarrow> nat" where
  "iteration_claimed_count r = claimed_count (wi_processing r)"

definition iteration_completed_count :: "worker_iteration_result \<Rightarrow> nat" where
  "iteration_completed_count r = completed_count (wi_processing r)"

lemmas iteration_counts = iteration_claimed_count_def iteration_completed_count_def

definition validate_named_limit :: "pyval \<Rightarrow> string \<Rightarrow> exc + int" where
  "validate_named_limit v name =
     positive_int (name @ '' must be an integer greater than or equal to 1'') v"

text \<open>An UTC datetime passed on as an argument.\<close>

definition utc_arg :: "instant \<Rightarrow> pyval" where
  "utc_arg t = VDatetime (utc_datetime t)"

definition run_webhook_worker_iteration ::
    "(string \<Rightarrow> json \<Rightarrow> pyval \<Rightarrow> (world, int) io) \<Rightarrow> pyval \<Rightarrow> pyval \<Rightarrow> pyval \<Rightarrow> pyval \<Rightarrow> pyval \<Rightarrow> pyval \<Rightarrow> pyval
     \<Rightarrow> pyval \<Rightarrow> (world, worker_iteration_result) io" where
  "run_webhook_worker_iteration post_json iteration_at stale_before recovery_limit processing_limit
       timeout_seconds max_attempts base_delay_seconds max_delay_seconds =
     bindE (liftE (validate_named_limit recovery_limit ''recovery_limit'')) (\<lambda>_.
     bindE (liftE (validate_named_limit processing_limit ''processing_limit'')) (\<lambda>_.
     bindE (liftE (validate_timeout_seconds timeout_seconds)) (\<lambda>_.
     bindE (liftE (normalize_datetime iteration_at ''iteration_at'')) (\<lambda>t.
     bindE (liftE (normalize_datetime stale_before ''stale_before'')) (\<lambda>s.
     if t < s then raiseE (ValueError ''iteration_at must be greater than or equal to stale_before'')
     else
       bindE (in_transaction
                (recover_stale_webhook_delivery_jobs (utc_arg s) (utc_arg t) recovery_limit)) (\<lambda>recovery.
       bindE (run_webhook_delivery_processing_cycle post_json (utc_arg t) processing_limit
                timeout_seconds max_attempts base_delay_seconds max_delay_seconds) (\<lambda>processing.
       returnE \<lparr>wi_recovery = recovery, wi_processing = processing\<rparr>)))))))"

context delivery_invariant
begin

lemma keeps_iteration: "keeps R I (run_webhook_worker_iteration post_json at sb rl pl t ma bd md)"
  unfolding run_webhook_worker_iteration_def
  by (intro keeps_intros keeps_recover keeps_cycle)

end

lemma iteration_kept [field_intros]:
  "env_kept (run_webhook_worker_iteration httpx2_post_json at sb rl pl t ma bd md)"
  "unpolled (run_webhook_worker_iteration httpx2_post_json at sb rl pl t ma bd md)"
  unfolding run_webhook_worker_iteration_def by (intro field_intros)+

text \<open>A cycle that returns has completed what it claimed.\<close>

lemma cycle_completes:
  assumes "run_webhook_delivery_processing_cycle httpx2_post_json at n t ma bd md w = (Inr r, w')"
  shows "map jr_job_id (cr_completed_jobs r) = cr_claimed_job_ids r"
proof -
  from assms obtain ids cs w1 where
    "complete_jobs (execute_webhook_delivery_job httpx2_post_json t ma bd md) ids w1 = (Inr cs, w')"
    "r = \<lparr>cr_claimed_job_ids = ids, cr_completed_jobs = cs\<rparr>"
    unfolding run_webhook_delivery_processing_cycle_def bindE_Inr returnE_def by auto
  then show ?thesis using complete_jobs_ids by auto
qed

lemma iteration_completes:
  assumes "run_webhook_worker_iteration httpx2_post_json at sb rl pl t ma bd md w = (Inr r, w')"
  shows "completed_count (wi_processing r) = claimed_count (wi_processing r)"
proof -
  from assms obtain rec p w1 at' where
    "run_webhook_delivery_processing_cycle httpx2_post_json (utc_arg at') pl t ma bd md w1 = (Inr p, w')"
    "r = \<lparr>wi_recovery = rec, wi_processing = p\<rparr>"
    unfolding run_webhook_worker_iteration_def bindE_Inr returnE_def
    by (auto simp: raiseE_def bindE_Inr split: if_splits)
  then have "map jr_job_id (cr_completed_jobs (wi_processing r)) = cr_claimed_job_ids (wi_processing r)"
    using cycle_completes by auto
  then show ?thesis unfolding completed_count_def claimed_count_def by (metis length_map)
qed

end
