(* ===== verification/Worker_Loop.thy ===== *)
theory Worker_Loop
  imports Worker_Iteration
begin

text \<open>
  \<open>worker_loop_service.py\<close>: the polling loop. \<open>stop_requested\<close> and \<open>wait\<close> read the shutdown event, an
  arbitrary function of the number of reads so far. The loop may run forever, so it is a partial
  function whose value is None when it does; it is shown to return whenever shutdown is requested
  at some future read.
\<close>

section \<open>The loop\<close>

record worker_run_result =
  wr_iterations_started :: nat
  wr_iterations_completed :: nat
  wr_total_recovered_count :: nat
  wr_total_claimed_count :: nat
  wr_total_completed_count :: nat
  wr_shutdown_requested :: bool
  wr_final_iteration :: "worker_iteration_result option"

text \<open>\<open>math.isfinite\<close> in a \<open>try\<close> whose \<open>except OverflowError\<close> means not finite.\<close>

definition finite_number_msg :: "string \<Rightarrow> string" where
  "finite_number_msg name = name @ '' must be a finite number greater than 0''"

definition validate_positive_number :: "pyval \<Rightarrow> string \<Rightarrow> exc + unit" where
  "validate_positive_number v name =
     (case v of
        VInt n \<Rightarrow>
          (case float_of_int n of
             Inl _ \<Rightarrow> Inl (ValueError (finite_number_msg name))
           | Inr _ \<Rightarrow> if n \<le> 0 then Inl (ValueError (finite_number_msg name)) else Inr ())
      | VFloat (Fin x) \<Rightarrow> if x \<le> 0 then Inl (ValueError (finite_number_msg name)) else Inr ()
      | _ \<Rightarrow> Inl (ValueError (finite_number_msg name)))"

definition iteration_now_msg :: string where
  "iteration_now_msg = ''iteration_now must return a timezone-aware datetime''"

definition normalize_iteration_at :: "pyval \<Rightarrow> exc + instant" where
  "normalize_iteration_at v = normalize_aware iteration_now_msg v"

text \<open>\<open>timedelta(seconds=...)\<close> of a number: an int exactly, a float rounded to microseconds.\<close>

definition timedelta_of :: "pyval \<Rightarrow> exc + int" where
  "timedelta_of v =
     (case v of
        VInt n \<Rightarrow> timedelta_us (n * 1000000)
      | VFloat f \<Rightarrow> timedelta_seconds f
      | _ \<Rightarrow> Inl (TypeError ''unsupported type for timedelta seconds component''))"

record worker_config =
  wc_poll_interval_seconds :: pyval
  wc_stale_processing_timeout_seconds :: pyval
  wc_recovery_limit :: pyval
  wc_processing_limit :: pyval
  wc_timeout_seconds :: pyval
  wc_max_attempts :: pyval
  wc_base_delay_seconds :: pyval
  wc_max_delay_seconds :: pyval

text \<open>The local counters of the loop.\<close>

record worker_totals =
  wt_iterations_started :: nat
  wt_iterations_completed :: nat
  wt_total_recovered :: nat
  wt_total_claimed :: nat
  wt_total_completed :: nat
  wt_final_iteration :: "worker_iteration_result option"

definition no_totals :: worker_totals where
  "no_totals = \<lparr>wt_iterations_started = 0, wt_iterations_completed = 0, wt_total_recovered = 0,
     wt_total_claimed = 0, wt_total_completed = 0, wt_final_iteration = None\<rparr>"

definition worker_result :: "worker_totals \<Rightarrow> worker_run_result" where
  "worker_result tot =
     \<lparr>wr_iterations_started = wt_iterations_started tot,
      wr_iterations_completed = wt_iterations_completed tot,
      wr_total_recovered_count = wt_total_recovered tot,
      wr_total_claimed_count = wt_total_claimed tot,
      wr_total_completed_count = wt_total_completed tot,
      wr_shutdown_requested = True,
      wr_final_iteration = wt_final_iteration tot\<rparr>"

definition add_iteration :: "worker_iteration_result \<Rightarrow> worker_totals \<Rightarrow> worker_totals" where
  "add_iteration iteration tot =
     tot\<lparr>wt_iterations_completed := wt_iterations_completed tot + 1,
         wt_total_recovered := wt_total_recovered tot + recovered_count iteration,
         wt_total_claimed := wt_total_claimed tot + iteration_claimed_count iteration,
         wt_total_completed := wt_total_completed tot + iteration_completed_count iteration,
         wt_final_iteration := Some iteration\<rparr>"

text \<open>A read of the shutdown event, by \<open>stop_requested()\<close> or by \<open>wait(...)\<close>.\<close>

definition poll_stop :: "(world, bool) io" where
  "poll_stop w = (Inr (e_stop (w_env w) (w_polls w)), w\<lparr>w_polls := Suc (w_polls w)\<rparr>)"

datatype turn = Stopped worker_run_result | Next worker_totals

text \<open>The instant of the iteration and the one before which processing jobs are stale.\<close>

definition iteration_times :: "worker_config \<Rightarrow> (world, instant \<times> instant) io" where
  "iteration_times cfg =
     bindE (tick e_iteration_now) (\<lambda>now.
     bindE (liftE (normalize_iteration_at (VDatetime now))) (\<lambda>t.
     bindE (liftE (timedelta_of (wc_stale_processing_timeout_seconds cfg))) (\<lambda>us.
     bindE (liftE (instant_add t (- us))) (\<lambda>stale_before.
     returnE (t, stale_before)))))"

text \<open>One pass through the body of \<open>while True\<close>.\<close>

definition worker_turn ::
    "(string \<Rightarrow> json \<Rightarrow> pyval \<Rightarrow> (world, int) io) \<Rightarrow> worker_config \<Rightarrow> worker_totals \<Rightarrow> (world, turn) io" where
  "worker_turn post_json cfg tot =
     bindE poll_stop (\<lambda>stop.
     if stop then returnE (Stopped (worker_result tot))
     else
       bindE (iteration_times cfg) (\<lambda>(t, stale_before).
       (let started = tot\<lparr>wt_iterations_started := wt_iterations_started tot + 1\<rparr> in
        bindE (run_webhook_worker_iteration post_json (utc_arg t) (utc_arg stale_before)
                 (wc_recovery_limit cfg) (wc_processing_limit cfg) (wc_timeout_seconds cfg)
                 (wc_max_attempts cfg) (wc_base_delay_seconds cfg) (wc_max_delay_seconds cfg)) (\<lambda>iteration.
        (let tot' = add_iteration iteration started in
         bindE poll_stop (\<lambda>stop.
         if stop then returnE (Stopped (worker_result tot'))
         else
           bindE poll_stop (\<lambda>stop.
           if stop then returnE (Stopped (worker_result tot'))
           else returnE (Next tot'))))))))"

partial_function (option) worker_loop ::
    "(string \<Rightarrow> json \<Rightarrow> pyval \<Rightarrow> (world, int) io) \<Rightarrow> worker_config \<Rightarrow> worker_totals \<Rightarrow> world
     \<Rightarrow> ((exc + worker_run_result) \<times> world) option" where
  "worker_loop post_json cfg tot w =
     (case worker_turn post_json cfg tot w of
        (Inl e, w') \<Rightarrow> Some (Inl e, w')
      | (Inr (Stopped r), w') \<Rightarrow> Some (Inr r, w')
      | (Inr (Next tot'), w') \<Rightarrow> worker_loop post_json cfg tot' w')"

declare worker_loop.simps [code]

definition validate_worker_config :: "worker_config \<Rightarrow> exc + unit" where
  "validate_worker_config cfg =
     bindR (validate_positive_number (wc_poll_interval_seconds cfg) ''poll_interval_seconds'') (\<lambda>_.
     bindR (validate_positive_number (wc_stale_processing_timeout_seconds cfg)
              ''stale_processing_timeout_seconds'') (\<lambda>_.
     bindR (validate_named_limit (wc_recovery_limit cfg) ''recovery_limit'') (\<lambda>_.
     bindR (validate_named_limit (wc_processing_limit cfg) ''processing_limit'') (\<lambda>_.
     validate_positive_number (wc_timeout_seconds cfg) ''timeout_seconds''))))"

definition run_webhook_worker ::
    "(string \<Rightarrow> json \<Rightarrow> pyval \<Rightarrow> (world, int) io) \<Rightarrow> worker_config \<Rightarrow> world
     \<Rightarrow> ((exc + worker_run_result) \<times> world) option" where
  "run_webhook_worker post_json cfg w =
     (case validate_worker_config cfg of
        Inl e \<Rightarrow> Some (Inl e, w)
      | Inr _ \<Rightarrow> worker_loop post_json cfg no_totals w)"

section \<open>Keeping invariants\<close>

lemma keeps_poll_stop [keeps_intros]: "keeps R I poll_stop"
  by (simp add: keeps_def poll_stop_def world_inv_def)

lemma keeps_iteration_times [keeps_intros]: "keeps R I (iteration_times cfg)"
  unfolding iteration_times_def by (intro keeps_intros)

lemma iteration_times_kept [field_intros]:
  "env_kept (iteration_times cfg)" "unpolled (iteration_times cfg)" "silent (iteration_times cfg)"
  unfolding iteration_times_def by (intro field_intros)+

context delivery_invariant
begin

lemma keeps_turn: "keeps R I (worker_turn post_json cfg tot)"
  unfolding worker_turn_def Let_def by (intro keeps_intros keeps_iteration)

lemma loop_keeps:
  assumes "worker_loop post_json cfg tot w = Some y" and "world_inv R I w"
  shows "world_inv R I (snd y)"
proof -
  have "p = post_json \<longrightarrow> world_inv R I w \<longrightarrow> world_inv R I (snd y)"
    if "worker_loop p cfg tot w = Some y" for p
  proof (rule worker_loop.raw_induct [OF _ that,
        where P = "\<lambda>p cfg tot w y. p = post_json \<longrightarrow> world_inv R I w \<longrightarrow> world_inv R I (snd y)"])
    fix rec p and cfg :: worker_config and tot w y
    assume IH: "\<And>p cfg tot w y. rec p cfg tot w = Some y \<Longrightarrow>
        p = post_json \<longrightarrow> world_inv R I w \<longrightarrow> world_inv R I (snd y)"
      and step: "(case worker_turn p cfg tot w of
          (Inl e, w') \<Rightarrow> Some (Inl e, w')
        | (Inr (Stopped r), w') \<Rightarrow> Some (Inr r, w')
        | (Inr (Next tot'), w') \<Rightarrow> rec p cfg tot' w') = Some y"
    show "p = post_json \<longrightarrow> world_inv R I w \<longrightarrow> world_inv R I (snd y)"
    proof (intro impI)
      assume p: "p = post_json" and w: "world_inv R I w"
      obtain r1 w1 where turn: "worker_turn post_json cfg tot w = (r1, w1)" by fastforce
      have w1: "world_inv R I w1" by (rule keeps_run [OF keeps_turn w turn])
      then show "world_inv R I (snd y)"
        using step IH turn by (auto simp: p split: sum.splits turn.splits)
    qed
  qed
  then show ?thesis using assms by simp
qed

end

section \<open>Reads of the shutdown event\<close>

lemma poll_stop_run:
  "bindE poll_stop f w = f (e_stop (w_env w) (w_polls w)) (w\<lparr>w_polls := Suc (w_polls w)\<rparr>)"
  by (simp add: bindE_def poll_stop_def)

text \<open>The totals after one more finished iteration.\<close>

definition one_more :: "worker_totals \<Rightarrow> worker_totals \<Rightarrow> bool" where
  "one_more tot t \<longleftrightarrow>
     (\<exists>it. t = add_iteration it (tot\<lparr>wt_iterations_started := wt_iterations_started tot + 1\<rparr>) \<and>
        completed_count (wi_processing it) = claimed_count (wi_processing it))"

fun turn_reads :: "env \<Rightarrow> nat \<Rightarrow> nat \<Rightarrow> worker_totals \<Rightarrow> exc + turn \<Rightarrow> bool" where
  "turn_reads env n n' tot (Inl e) = (n' = n + 1 \<and> \<not> e_stop env n)"
| "turn_reads env n n' tot (Inr (Stopped res)) =
     ((n' = n + 1 \<and> e_stop env n \<and> res = worker_result tot) \<or>
      (n' = n + 2 \<and> \<not> e_stop env n \<and> e_stop env (n + 1) \<and> (\<exists>t. one_more tot t \<and> res = worker_result t)) \<or>
      (n' = n + 3 \<and> \<not> e_stop env n \<and> \<not> e_stop env (n + 1) \<and> e_stop env (n + 2) \<and>
         (\<exists>t. one_more tot t \<and> res = worker_result t)))"
| "turn_reads env n n' tot (Inr (Next t)) =
     (n' = n + 3 \<and> \<not> e_stop env n \<and> \<not> e_stop env (n + 1) \<and> \<not> e_stop env (n + 2) \<and> one_more tot t)"

lemma worker_turn_reads:
  assumes "worker_turn httpx2_post_json cfg tot w = (r, w')"
  shows "w_env w' = w_env w \<and> turn_reads (w_env w) (w_polls w) (w_polls w') tot r"
proof (cases "e_stop (w_env w) (w_polls w)")
  case True
  then show ?thesis
    using assms by (auto simp: worker_turn_def poll_stop_run returnE_def)
next
  case False
  let ?w0 = "w\<lparr>w_polls := Suc (w_polls w)\<rparr>"
  obtain r1 w1 where times: "iteration_times cfg ?w0 = (r1, w1)" by fastforce
  have w1: "w_env w1 = w_env w" "w_polls w1 = Suc (w_polls w)"
    using env_keptD [OF iteration_times_kept(1) times] unpolledD [OF iteration_times_kept(2) times] by simp_all
  show ?thesis
  proof (cases r1)
    case (Inl e)
    then have "r = Inl e" "w' = w1"
      using assms False times by (simp_all add: worker_turn_def poll_stop_run bindE_def [of "iteration_times cfg"])
    then show ?thesis using False w1 by simp
  next
    case (Inr ts)
    obtain t s where ts: "ts = (t, s)" by (cases ts)
    let ?iter = "run_webhook_worker_iteration httpx2_post_json (utc_arg t) (utc_arg s)
                 (wc_recovery_limit cfg) (wc_processing_limit cfg) (wc_timeout_seconds cfg)
                 (wc_max_attempts cfg) (wc_base_delay_seconds cfg) (wc_max_delay_seconds cfg)"
    obtain r2 w2 where iter: "?iter w1 = (r2, w2)" by fastforce
    have w2: "w_env w2 = w_env w" "w_polls w2 = Suc (w_polls w)"
      using env_keptD [OF iteration_kept(1) iter] unpolledD [OF iteration_kept(2) iter] w1 by simp_all
    let ?tot = "\<lambda>it. add_iteration it (tot\<lparr>wt_iterations_started := Suc (wt_iterations_started tot)\<rparr>)"
    have eq: "(case r2 of Inl e \<Rightarrow> (Inl e, w2)
        | Inr it \<Rightarrow> bindE poll_stop (\<lambda>stop. if stop then returnE (Stopped (worker_result (?tot it)))
            else bindE poll_stop (\<lambda>stop. if stop then returnE (Stopped (worker_result (?tot it)))
                   else returnE (Next (?tot it)))) w2) = (r, w')"
      using assms False times iter
      by (simp add: worker_turn_def poll_stop_run bindE_def [of "iteration_times cfg"]
          bindE_def [of ?iter] Inr ts Let_def)
    show ?thesis
    proof (cases r2)
      case (Inl e)
      then show ?thesis using eq False w2 by auto
    next
      case (Inr it)
      have "one_more tot (?tot it)"
        using iteration_completes [OF iter [unfolded Inr]] by (auto simp: one_more_def)
      then show ?thesis
        using eq False w2 Inr by (auto simp: poll_stop_run returnE_def split: if_splits)
    qed
  qed
qed

section \<open>Termination\<close>

lemma worker_loop_stops:
  assumes "w_polls w \<le> k" and "e_stop (w_env w) k"
  shows "\<exists>r w'. worker_loop httpx2_post_json cfg tot w = Some (r, w') \<and> w_polls w' \<le> Suc k"
  using assms
proof (induction "k - w_polls w" arbitrary: w tot rule: less_induct)
  case less
  obtain r1 w1 where turn: "worker_turn httpx2_post_json cfg tot w = (r1, w1)" by fastforce
  have reads: "w_env w1 = w_env w" "turn_reads (w_env w) (w_polls w) (w_polls w1) tot r1"
    using worker_turn_reads [OF turn] by auto
  have past: "w_polls w + j \<le> k" if "\<forall>i < j. \<not> e_stop (w_env w) (w_polls w + i)" for j
  proof (rule ccontr)
    assume "\<not> w_polls w + j \<le> k"
    then have "k - w_polls w < j" and "w_polls w + (k - w_polls w) = k" using less.prems(1) by auto
    then show False using that less.prems(2) by metis
  qed
  show ?case
  proof (cases r1)
    case (Inl e)
    then show ?thesis using reads turn less.prems by (simp add: worker_loop.simps)
  next
    case (Inr tn)
    show ?thesis
    proof (cases tn)
      case (Stopped res)
      have "w_polls w1 \<le> Suc k"
        using reads(2) Inr Stopped past [of 0] past [of 1] past [of 2]
        by (auto simp: less_2_cases_iff)
      then show ?thesis using turn Inr Stopped by (simp add: worker_loop.simps)
    next
      case (Next t)
      have n: "w_polls w1 = w_polls w + 3" using reads(2) Inr Next by simp
      have "w_polls w + 3 \<le> k"
        using reads(2) Inr Next by (intro past) (auto simp: eval_nat_numeral less_Suc_eq)
      then have "\<exists>r w'. worker_loop httpx2_post_json cfg t w1 = Some (r, w') \<and> w_polls w' \<le> Suc k"
        using reads(1) n less.prems by (intro less.hyps) auto
      then show ?thesis using turn Inr Next by (simp add: worker_loop.simps [of _ _ tot])
    qed
  qed
qed

text \<open>
  C30: The worker stops. If the shutdown event is set at the \<open>k\<close>-th read for some \<open>k\<close> still ahead, the
  worker returns or raises, whatever the database and the endpoints do, and it never reads the
  event after that read: the running iteration is finished and no further one is started.
\<close>

theorem worker_terminates:
  assumes "w_polls w \<le> k" and "e_stop (w_env w) k"
  shows "\<exists>r w'. run_webhook_worker httpx2_post_json cfg w = Some (r, w') \<and> w_polls w' \<le> Suc k"
  using worker_loop_stops [OF assms, of cfg no_totals] assms(1)
  by (cases "validate_worker_config cfg") (auto simp: run_webhook_worker_def)

section \<open>The result\<close>

definition totals_ok :: "worker_totals \<Rightarrow> bool" where
  "totals_ok t \<longleftrightarrow>
     wt_iterations_started t = wt_iterations_completed t \<and> wt_total_claimed t = wt_total_completed t \<and>
     (wt_final_iteration t = None \<longleftrightarrow> wt_iterations_completed t = 0)"

lemma totals_ok_more: "totals_ok tot \<Longrightarrow> one_more tot t \<Longrightarrow> totals_ok t"
  by (auto simp: totals_ok_def one_more_def add_iteration_def iteration_counts)

definition result_ok :: "worker_run_result \<Rightarrow> bool" where
  "result_ok r \<longleftrightarrow>
     wr_shutdown_requested r \<and> wr_iterations_started r = wr_iterations_completed r \<and>
     wr_total_claimed_count r = wr_total_completed_count r \<and>
     (wr_final_iteration r = None \<longleftrightarrow> wr_iterations_completed r = 0)"

lemma result_ok_totals: "totals_ok t \<Longrightarrow> result_ok (worker_result t)"
  by (simp add: result_ok_def totals_ok_def worker_result_def)

text \<open>The loop ends at the first read that finds the event set.\<close>

definition first_stop :: "env \<Rightarrow> nat \<Rightarrow> nat \<Rightarrow> bool" where
  "first_stop env n n' \<longleftrightarrow>
     n < n' \<and> e_stop env (n' - 1) \<and> (\<forall>k. n \<le> k \<and> k < n' - 1 \<longrightarrow> \<not> e_stop env k)"

lemma first_stop_turn:
  "turn_reads env n n' tot (Inr (Stopped r)) \<Longrightarrow> first_stop env n n'"
  by (auto simp: first_stop_def le_Suc_eq less_Suc_eq eval_nat_numeral)

lemma first_stop_next:
  assumes "turn_reads env n n' tot (Inr (Next t))" and "first_stop env n' n''"
  shows "first_stop env n n''"
  unfolding first_stop_def
proof (intro conjI allI impI)
  fix k assume k: "n \<le> k \<and> k < n'' - 1"
  have n': "n' = n + 3" using assms(1) by simp
  show "\<not> e_stop env k"
  proof (cases "n' \<le> k")
    case True
    then show ?thesis using assms(2) k by (simp add: first_stop_def)
  next
    case False
    then have "k = n \<or> k = n + 1 \<or> k = n + 2" using k n' by linarith
    then show ?thesis using assms(1) by auto
  qed
qed (use assms in \<open>auto simp: first_stop_def\<close>)

lemma result_ok_stopped:
  assumes "turn_reads env n n' tot (Inr (Stopped r))" and "totals_ok tot"
  shows "result_ok r"
proof -
  obtain t where r: "r = worker_result t" and t: "t = tot \<or> one_more tot t" using assms(1) by auto
  have "totals_ok t" using t assms(2) totals_ok_more [OF assms(2)] by auto
  then show ?thesis unfolding r by (rule result_ok_totals)
qed

lemma worker_loop_result:
  assumes "worker_loop httpx2_post_json cfg tot w = Some y" and "totals_ok tot" and "fst y = Inr r"
  shows "result_ok r \<and> first_stop (w_env w) (w_polls w) (w_polls (snd y))"
proof -
  let ?P = "\<lambda>p cfg tot w y. p = httpx2_post_json \<longrightarrow> totals_ok tot \<longrightarrow>
      (\<forall>r. fst y = Inr r \<longrightarrow> result_ok r \<and> first_stop (w_env w) (w_polls w) (w_polls (snd y)))"
  have "?P httpx2_post_json cfg tot w y"
  proof (rule worker_loop.raw_induct [OF _ assms(1), where P = ?P])
    fix rec p and cfg :: worker_config and tot w y
    assume IH: "\<And>p cfg tot w y. rec p cfg tot w = Some y \<Longrightarrow> ?P p cfg tot w y"
      and step: "(case worker_turn p cfg tot w of
          (Inl e, w') \<Rightarrow> Some (Inl e, w')
        | (Inr (Stopped r), w') \<Rightarrow> Some (Inr r, w')
        | (Inr (Next tot'), w') \<Rightarrow> rec p cfg tot' w') = Some y"
    show "?P p cfg tot w y"
    proof (intro impI allI)
      fix r assume p: "p = httpx2_post_json" and tot: "totals_ok tot" and r: "fst y = Inr r"
      obtain r1 w1 where turn: "worker_turn httpx2_post_json cfg tot w = (r1, w1)" by fastforce
      have reads: "w_env w1 = w_env w" "turn_reads (w_env w) (w_polls w) (w_polls w1) tot r1"
        using worker_turn_reads [OF turn] by auto
      show "result_ok r \<and> first_stop (w_env w) (w_polls w) (w_polls (snd y))"
      proof (cases r1)
        case (Inl e)
        then show ?thesis using step turn r by (auto simp: p)
      next
        case (Inr tn)
        show ?thesis
        proof (cases tn)
          case (Stopped res)
          then have y: "y = (Inr res, w1)" using step turn Inr by (simp add: p)
          have reads': "turn_reads (w_env w) (w_polls w) (w_polls w1) tot (Inr (Stopped res))"
            using reads(2) Inr Stopped by simp
          show ?thesis
            using first_stop_turn [OF reads'] result_ok_stopped [OF reads' tot] r by (simp add: y)
        next
          case (Next t)
          then have rec: "rec httpx2_post_json cfg t w1 = Some y" using step turn Inr by (simp add: p)
          have reads': "turn_reads (w_env w) (w_polls w) (w_polls w1) tot (Inr (Next t))"
            using reads(2) Inr Next by simp
          then have "totals_ok t" by (intro totals_ok_more [OF tot]) simp
          then have "result_ok r \<and> first_stop (w_env w1) (w_polls w1) (w_polls (snd y))"
            using IH [OF rec, THEN mp, OF refl, THEN mp, THEN spec, THEN mp, OF _ r] by blast
          then show ?thesis using first_stop_next [OF reads'] reads(1) by simp
        qed
      qed
    qed
  qed
  then show ?thesis using assms(2,3) by simp
qed

text \<open>
  A worker that returns was asked to stop: the last read of the shutdown event is the first one
  that found it set. Its report is consistent: every started iteration was completed, every claimed
  job was completed (an unfinished one would have ended the worker with an exception), and the final
  iteration is missing exactly when there was none.
\<close>

theorem worker_result_consistent:
  assumes "run_webhook_worker httpx2_post_json cfg w = Some (Inr r, w')"
  shows "wr_shutdown_requested r \<and> wr_iterations_started r = wr_iterations_completed r \<and>
    wr_total_claimed_count r = wr_total_completed_count r \<and>
    (wr_final_iteration r = None \<longleftrightarrow> wr_iterations_completed r = 0) \<and>
    w_polls w < w_polls w' \<and> e_stop (w_env w) (w_polls w' - 1) \<and>
    (\<forall>k. w_polls w \<le> k \<and> k < w_polls w' - 1 \<longrightarrow> \<not> e_stop (w_env w) k)"
proof -
  have loop: "worker_loop httpx2_post_json cfg no_totals w = Some (Inr r, w')"
    using assms by (cases "validate_worker_config cfg") (auto simp: run_webhook_worker_def)
  have "totals_ok no_totals" by (simp add: totals_ok_def no_totals_def)
  from worker_loop_result [OF loop this] show ?thesis
    by (simp add: result_ok_def first_stop_def)
qed

end
