(* ===== verification/Lifecycle.thy ===== *)
theory Lifecycle
  imports Event_Service Worker_Loop
begin

text \<open>
  The life of a delivery job as a state machine, and the system as the repeated effect of its
  services. \<open>job_step\<close> is the abstract transition relation of one job row; each service that writes
  jobs refines it (the rows it changes make one step, the others stay). \<open>system_step\<close> is the effect
  of one service call that commits; the theorems about reachable tables are proved by rule induction.
\<close>

section \<open>The state machine of one job\<close>

definition active :: "job_row \<Rightarrow> bool" where
  "active j \<longleftrightarrow> job_status j \<in> {''pending'', ''processing''}"

text \<open>A move hands the job over without an attempt: the worker's claim, its recovery, the API's replay.\<close>

inductive job_move :: "job_row \<Rightarrow> job_row \<Rightarrow> bool" where
  move_claim: "due_job t j \<Longrightarrow> job_move j (mark_processing t j)"
| move_recover: "stale_job s j \<Longrightarrow> job_move j (mark_recovered t j)"
| move_replay: "job_status j \<in> {''succeeded'', ''dead_letter''} \<Longrightarrow> job_move j (mark_replayed t j)"

text \<open>A settlement ends one execution: success, another try, or giving up at the limit \<open>mx\<close>.\<close>

inductive job_settle :: "int \<Rightarrow> job_row \<Rightarrow> job_row \<Rightarrow> bool" for mx where
  settle_succeed: "job_status j = ''processing'' \<Longrightarrow>
    job_settle mx j (decided_job j (job_attempt_count j + 1)
      \<lparr>rd_status = ''succeeded'', rd_next_attempt_at = None\<rparr> t)"
| settle_retry: "job_status j = ''processing'' \<Longrightarrow> job_attempt_count j + 1 < mx \<Longrightarrow>
    job_settle mx j (decided_job j (job_attempt_count j + 1)
      \<lparr>rd_status = ''pending'', rd_next_attempt_at = Some n\<rparr> t)"
| settle_give_up: "job_status j = ''processing'' \<Longrightarrow> mx \<le> job_attempt_count j + 1 \<Longrightarrow>
    job_settle mx j (decided_job j (job_attempt_count j + 1)
      \<lparr>rd_status = ''dead_letter'', rd_next_attempt_at = None\<rparr> t)"

definition job_step :: "int \<Rightarrow> job_row \<Rightarrow> job_row \<Rightarrow> bool" where
  "job_step mx j j' \<longleftrightarrow> job_move j j' \<or> job_settle mx j j'"

lemmas job_defs = due_job_def stale_job_def mark_processing_def mark_recovered_def decided_job_def
  mark_replayed_def

lemma job_step_cases [consumes 1, case_names move settle]:
  "job_step mx j j' \<Longrightarrow> (job_move j j' \<Longrightarrow> P) \<Longrightarrow> (job_settle mx j j' \<Longrightarrow> P) \<Longrightarrow> P"
  by (auto simp: job_step_def)

text \<open>Where a job can be between its creation and its end: the retry budget in each status.\<close>

definition within_budget :: "int \<Rightarrow> job_row \<Rightarrow> bool" where
  "within_budget mx j \<longleftrightarrow>
     job_status j \<in> set job_statuses \<and>
     (job_next_attempt_at j = None \<longleftrightarrow> \<not> active j) \<and>
     (active j \<longrightarrow> 0 \<le> job_attempt_count j \<and> job_attempt_count j < mx) \<and>
     (job_status j = ''succeeded'' \<longrightarrow> 1 \<le> job_attempt_count j \<and> job_attempt_count j \<le> mx) \<and>
     (job_status j = ''dead_letter'' \<longrightarrow> job_attempt_count j = mx)"

lemma job_move_budget: "job_move j j' \<Longrightarrow> within_budget mx j \<Longrightarrow> 1 \<le> mx \<Longrightarrow> within_budget mx j'"
  by (erule job_move.cases)
    (auto simp: within_budget_def active_def job_statuses_def job_defs split: option.splits)

lemma job_settle_budget: "job_settle mx j j' \<Longrightarrow> within_budget mx j \<Longrightarrow> 1 \<le> mx \<Longrightarrow> within_budget mx j'"
  by (erule job_settle.cases)
    (auto simp: within_budget_def active_def job_statuses_def job_defs split: option.splits)

lemma job_step_budget: "job_step mx j j' \<Longrightarrow> within_budget mx j \<Longrightarrow> 1 \<le> mx \<Longrightarrow> within_budget mx j'"
  by (erule job_step_cases) (auto intro: job_move_budget job_settle_budget)

lemma job_move_active: "job_move j j' \<Longrightarrow> active j' \<and> job_attempt_count j' \<in> {0, job_attempt_count j}"
  by (erule job_move.cases) (auto simp: active_def job_defs)

text \<open>The only moves between statuses.\<close>

lemma job_move_statuses:
  "job_move j j' \<Longrightarrow> (job_status j, job_status j') \<in>
     {(''pending'', ''processing''), (''processing'', ''pending''), (''succeeded'', ''pending''),
      (''dead_letter'', ''pending'')}"
  by (erule job_move.cases) (auto simp: job_defs)

lemma job_settle_statuses:
  "job_settle mx j j' \<Longrightarrow> (job_status j, job_status j') \<in>
     {(''processing'', ''pending''), (''processing'', ''succeeded''), (''processing'', ''dead_letter'')}"
  by (erule job_settle.cases) (auto simp: job_defs)

lemma job_step_identity: "job_step mx j j' \<Longrightarrow> job_identity j' = job_identity j"
  by (auto simp: job_step_def job_identity_def job_defs elim!: job_move.cases job_settle.cases)

section \<open>The effect of a service\<close>

text \<open>
  A service that runs alone on the tables \<open>d\<close> and returns leaves \<open>d'\<close> in its transaction, which its
  caller commits.
\<close>

definition leads_to :: "(world, 'a) io \<Rightarrow> db \<Rightarrow> db \<Rightarrow> bool" where
  "leads_to m d d' \<longleftrightarrow>
     (\<exists>w x w'. w_script w = [] \<and> w_committed w = d \<and> w_working w = d \<and> w_savepoints w = [] \<and>
        m w = (Inr x, w') \<and> w_working w' = d')"

lemma leads_to_keeps: "keeps R I m \<Longrightarrow> leads_to m d d' \<Longrightarrow> I d \<Longrightarrow> I d'"
proof -
  assume k: "keeps R I m" and "leads_to m d d'" and d: "I d"
  then obtain w x w' where w: "w_script w = []" "w_committed w = d" "w_working w = d" "w_savepoints w = []"
    and run: "m w = (Inr x, w')" and d': "w_working w' = d'"
    by (auto simp: leads_to_def)
  have "world_inv R I w" using w d by (simp add: world_inv_def)
  from keeps_run [OF k this run] show "I d'" by (simp add: world_inv_def flip: d')
qed

text \<open>Every row stays or makes one step of the machine.\<close>

definition jobs_move :: "job_row list \<Rightarrow> job_row list \<Rightarrow> bool" where
  "jobs_move = list_all2 (\<lambda>j j'. j' = j \<or> job_move j j')"

lemma jobs_move_map:
  "(\<And>j. j \<in> set js \<Longrightarrow> f j = j \<or> job_move j (f j)) \<Longrightarrow> jobs_move js (map f js)"
  by (auto simp: jobs_move_def list_all2_map2 intro: list.rel_refl_strong)

lemma jobs_move_update:
  assumes "schema_ok d" and "j \<in> set (jobs d)" and "job_move j j'"
  shows "jobs_move (jobs d) (update_by job_id j' (jobs d))"
  unfolding update_by_def
proof (rule jobs_move_map)
  fix r assume r: "r \<in> set (jobs d)"
  have "job_id j' = job_id j" using job_step_identity [of undefined, unfolded job_step_def, OF disjI1, OF assms(3)] by (simp add: job_identity_def)
  then have "job_id r = job_id j' \<Longrightarrow> r = j"
    using schema_ok_same_job [OF assms(1) r assms(2)] by simp
  then show "(if job_id r = job_id j' then j' else r) = r \<or> job_move r (if job_id r = job_id j' then j' else r)"
    using assms(3) by auto
qed

lemma claim_leads_to:
  assumes "leads_to (claim_due_webhook_delivery_jobs at n) d d'" and "schema_ok d"
  shows "\<exists>js. d' = d\<lparr>jobs := js\<rparr> \<and> jobs_move (jobs d) js"
proof -
  obtain w x w' where w: "w_script w = []" "w_working w = d"
    and run: "claim_due_webhook_delivery_jobs at n w = (Inr x, w')" and d': "w_working w' = d'"
    using assms(1) by (auto simp: leads_to_def)
  obtain k t where k: "validate_claim_limit n = Inr k" and t: "normalize_claimed_at at = Inr t"
    using run by (auto simp: claim_due_webhook_delivery_jobs_def bindE_Inr liftE_def)
  have "limit_ok k"
    using run k t w by (auto simp: claim_due_webhook_delivery_jobs_def bindE_Inr liftE_def
        select_due_jobs_def sql_quiet split: if_splits sum.splits)
  from claim_run [OF k t this w(1)] assms(2) w(2) run d'
  have "d' = touched (mark_processing t) (set (claiming.batch t (nat k) [] d)) d"
    by (auto simp: Let_def)
  moreover have "jobs_move (jobs d)
      (map (\<lambda>j. if j \<in> set (claiming.batch t (nat k) [] d) then mark_processing t j else j) (jobs d))"
    by (rule jobs_move_map) (auto dest: claiming.batch_sat intro: move_claim)
  ultimately show ?thesis by (auto simp: touched_def)
qed

lemma recover_leads_to:
  assumes "leads_to (recover_stale_webhook_delivery_jobs sb ra n) d d'" and "schema_ok d"
  shows "\<exists>js. d' = d\<lparr>jobs := js\<rparr> \<and> jobs_move (jobs d) js"
proof -
  obtain w x w' where w: "w_script w = []" "w_working w = d"
    and run: "recover_stale_webhook_delivery_jobs sb ra n w = (Inr x, w')" and d': "w_working w' = d'"
    using assms(1) by (auto simp: leads_to_def)
  obtain k s t where k: "validate_recovery_limit n = Inr k"
    and s: "normalize_datetime sb ''stale_before'' = Inr s" and t: "normalize_datetime ra ''recovered_at'' = Inr t"
    using run by (auto simp: recover_stale_webhook_delivery_jobs_def bindE_Inr liftE_def)
  have "limit_ok k" "s \<le> t"
    using run k s t w by (auto simp: recover_stale_webhook_delivery_jobs_def bindE_Inr liftE_def raiseE_def
        select_stale_jobs_def sql_quiet split: if_splits sum.splits)
  from recover_run [OF k s t this(2,1) w(1)] assms(2) w(2) run d'
  have "d' = touched (mark_recovered t) (set (recovering.batch s (nat k) [] d)) d"
    by (auto simp: Let_def)
  moreover have "jobs_move (jobs d)
      (map (\<lambda>j. if j \<in> set (recovering.batch s (nat k) [] d) then mark_recovered t j else j) (jobs d))"
    by (rule jobs_move_map) (auto dest: recovering.batch_sat intro: move_recover)
  ultimately show ?thesis by (auto simp: touched_def)
qed

lemma update_loaded_quiet:
  assumes "update_job j j' d = Inr d'" and "schema_ok d" and "j \<in> set (jobs d)"
    and "job_identity j' = job_identity j"
  shows "d' = d\<lparr>jobs := update_by job_id j' (jobs d)\<rparr>"
  using assms(1)
proof (cases rule: update_job_InrE)
  case 1
  have "update_by job_id j' (jobs d) = jobs d"
    unfolding update_by_def 1 by (rule map_idI) (auto dest: schema_ok_same_job [OF assms(2) _ assms(3)])
  with 1 show ?thesis by simp
next
  case (2 cur)
  have "lookup_by job_id (job_id j) (jobs d) = Some j"
    using assms(3) by (rule lookup_by_in_distinct [OF schema_ok_job_distinct [OF assms(2)]])
  then have "cur = j" using 2 by simp
  moreover have "patch_job j j' j = j'" using assms(4) by (simp add: job_identity_def)
  ultimately show ?thesis using 2 by simp
qed

lemma replay_leads_to:
  assumes "leads_to (replay_webhook_event i v) d d'" and "schema_ok d"
  shows "\<exists>js. d' = d\<lparr>jobs := js\<rparr> \<and> jobs_move (jobs d) js"
proof -
  obtain w x w' where w: "w_script w = []" "w_working w = d"
    and run: "replay_webhook_event i v w = (Inr x, w')" and d': "w_working w' = d'"
    using assms(1) by (auto simp: leads_to_def)
  obtain t where t: "normalize_replayed_at v = Inr t"
    using run by (auto simp: replay_webhook_event_def bindE_Inr liftE_def)
  have schema: "schema_ok (w_working w)" using assms(2) w by simp
  obtain job where job: "get_event_job i d = Some job" and final: "job_status job \<in> {''succeeded'', ''dead_letter''}"
    and eq: "d' = d\<lparr>jobs := update_by job_id (mark_replayed t job) (jobs d)\<rparr>"
    using replay_table [OF w(1) schema t, of i] run d' w(2)
    by (auto simp: mark_replayed_def split: option.splits if_splits)
  have j: "job \<in> set (jobs d)" using job by (auto simp: get_event_job_def dest: lookup_by_Some)
  show ?thesis using jobs_move_update [OF assms(2) j move_replay [OF final]] eq by blast
qed

text \<open>A delivery adds one attempt; settling the job adds the step of the machine that fits it.\<close>

lemma prepare_quiet:
  "w_script w = [] \<Longrightarrow> prepare_webhook_delivery i w = (r, w') \<Longrightarrow> w' = w"
  by (auto simp: prepare_webhook_delivery_def bindE_def returnE_def raiseE_def query_quiet split: option.splits if_splits)

lemma delivery_quiet:
  assumes "w_script w = []" and "execute_webhook_delivery httpx2_post_json i t w = (Inr a, w')"
  shows "w_script w' = [] \<and> w_committed w' = w_committed w \<and> at_event_id a = i \<and>
    insert_attempt a (w_working w) = Inr (w_working w')"
proof -
  from assms(2) obtain p w1 w2 and now :: pydatetime where p: "prepare_webhook_delivery i w = (Inr p, w1)"
    and now: "tick e_utc_now w1 = (Inr now, w2)"
    and rest: "(case dt_tz now of
        Tz_offset off \<Rightarrow> deliver_prepared httpx2_post_json p t (dt_local now - off)
      | _ \<Rightarrow> raiseE (ValueError ''utc_now must return a timezone-aware datetime'')) w2 = (Inr a, w')"
    unfolding execute_webhook_delivery_def bindE_Inr by blast
  obtain at where "deliver_prepared httpx2_post_json p t at w2 = (Inr a, w')"
    using rest by (cases "dt_tz now") (auto simp: raiseE_def)
  then obtain res w4 where
    post: "try_post (httpx2_post_json (pd_target_url p) (pd_payload p) t)
      (w2\<lparr>w_ticks := Suc (w_ticks w2)\<rparr>) = (Inr res, w4)"
    and ins: "flush (insert_attempt a) (w4\<lparr>w_ticks := Suc (Suc (w_ticks w4))\<rparr>) = (Inr (), w')"
    unfolding deliver_prepared_def Let_def by (auto simp: bindE_Inr tick_def returnE_def)
  define w5 where "w5 = w4\<lparr>w_ticks := Suc (Suc (w_ticks w4))\<rparr>"
  note ins = ins [folded w5_def]
  have "same_store (w2\<lparr>w_ticks := Suc (w_ticks w2)\<rparr>) w4"
    by (rule try_post_same_store [OF httpx2.post_store post])
  then have s: "same_store w w5"
    using prepare_quiet [OF assms(1) p] tick_same_store [OF now]
    by (simp add: same_store_def w5_def)
  then have "w_script w5 = []" "w_committed w5 = w_committed w" "w_working w5 = w_working w"
    using assms(1) by (simp_all add: same_store_def)
  then show ?thesis
    using ins delivery_event [OF assms(2)] by (auto simp: flush_quiet split: sum.splits)
qed

lemma decided_job_sel [simp]:
  "job_attempt_count (decided_job j n dec t) = n" "job_status (decided_job j n dec t) = rd_status dec"
  "job_event_id (decided_job j n dec t) = job_event_id j" "job_id (decided_job j n dec t) = job_id j"
  by (simp_all add: decided_job_def)

lemma settle_step:
  assumes "settle_job (VInt mx) bd md job a w = (Inr (job', a'), w')" and "w_script w = []"
    and "job_status job = ''processing''" and "schema_ok (w_working w)" and "job \<in> set (jobs (w_working w))"
  shows "job_settle mx job job' \<and> w_working w' = (w_working w)\<lparr>jobs := update_by job_id job' (jobs (w_working w))\<rparr> \<and>
    a' = a \<and> job_attempt_count job' = job_attempt_count job + 1 \<and>
    (job_status job' = ''succeeded'' \<longleftrightarrow> at_outcome a = ''succeeded'') \<and> at_outcome a \<in> {''succeeded'', ''failed''}"
proof -
  from assms(1) obtain d decision t where
    dec: "decide_webhook_retry (at_outcome a) (VInt (job_attempt_count job + 1)) (VDatetime d) (VInt mx) bd md = Inr decision"
    and job': "job' = decided_job job (job_attempt_count job + 1) decision t" and a': "a' = a"
    and flush: "flush (update_job job job') (w\<lparr>w_ticks := Suc (w_ticks w)\<rparr>) = (Inr (), w')"
    by (auto simp: settle_job_def Let_def bindE_Inr liftE_def tick_def returnE_def)
  have upd: "update_job job job' (w_working w) = Inr (w_working w')"
    using flush assms(2) by (cases "update_job job job' (w_working w)") (auto simp: flush_quiet)
  have "job_identity job' = job_identity job" by (simp add: job' job_identity_def decided_job_def)
  from update_loaded_quiet [OF upd assms(4,5) this]
  have w': "w_working w' = (w_working w)\<lparr>jobs := update_by job_id job' (jobs (w_working w))\<rparr>" .
  obtain st nx where rd: "decision = \<lparr>rd_status = st, rd_next_attempt_at = nx\<rparr>" by (cases decision)
  from decide_Inr_cases [OF dec] show ?thesis
    using assms(3)
    by (auto simp: w' a' job' rd intro: settle_succeed settle_retry settle_give_up)
qed

lemma delivery_leads_to:
  assumes "leads_to (execute_webhook_delivery httpx2_post_json i t) d d'"
  shows "\<exists>a. d' = d\<lparr>attempts := attempts d @ [a]\<rparr>"
proof -
  obtain w a w' where w: "w_script w = []" "w_working w = d"
    and run: "execute_webhook_delivery httpx2_post_json i t w = (Inr a, w')" and d': "w_working w' = d'"
    using assms by (auto simp: leads_to_def)
  show ?thesis using delivery_quiet [OF w(1) run] w(2) d' by (auto simp: insert_attempt_Inr)
qed

lemma execute_leads_to:
  assumes "leads_to (execute_webhook_delivery_job httpx2_post_json t (VInt mx) bd md i) d d'" and "schema_ok d"
  obtains job job' a where "job \<in> set (jobs d)" "job_settle mx job job'" "job_status job = ''processing''"
    "d' = d\<lparr>attempts := attempts d @ [a], jobs := update_by job_id job' (jobs d)\<rparr>"
    "at_event_id a = job_event_id job" "at_outcome a \<in> {''succeeded'', ''failed''}"
    "job_status job' = ''succeeded'' \<longleftrightarrow> at_outcome a = ''succeeded''"
    "job_attempt_count job' = job_attempt_count job + 1"
proof -
  obtain w x w' where w: "w_script w = []" "w_working w = d"
    and run: "execute_webhook_delivery_job httpx2_post_json t (VInt mx) bd md i w = (Inr x, w')"
    and d': "w_working w' = d'"
    using assms(1) by (auto simp: leads_to_def)
  obtain jb w1 where q: "query (get_job i) w = (Inr jb, w1)"
    and rest: "(case jb of None \<Rightarrow> raiseE WebhookDeliveryJobNotFoundError
      | Some job \<Rightarrow> if job_status job \<noteq> ''processing'' then raiseE WebhookDeliveryJobNotProcessingError
          else bindE (execute_webhook_delivery httpx2_post_json (job_event_id job) t)
            (settle_job (VInt mx) bd md job)) w1 = (Inr x, w')"
    using run unfolding execute_webhook_delivery_job_def bindE_Inr by blast
  obtain job where jb: "jb = Some job" using rest by (cases jb) (auto simp: raiseE_def)
  have w1: "w1 = w" and look: "get_job i d = Some job"
    using q w by (auto simp: query_quiet jb)
  have proc: "job_status job = ''processing''" using rest by (auto simp: jb raiseE_def split: if_splits)
  obtain a w2 where del: "execute_webhook_delivery httpx2_post_json (job_event_id job) t w = (Inr a, w2)"
    and settle: "settle_job (VInt mx) bd md job a w2 = (Inr x, w')"
    using rest by (auto simp: jb w1 proc bindE_Inr)
  obtain job' a' where x: "x = (job', a')" by (cases x)
  have job: "job \<in> set (jobs d)" using look by (auto simp: get_job_def dest: lookup_by_Some)
  note q2 = delivery_quiet [OF w(1) del]
  then have d2: "w_working w2 = d\<lparr>attempts := attempts d @ [a]\<rparr>" using w(2) by (auto simp: insert_attempt_Inr)
  have schema2: "schema_ok (w_working w2)"
    using q2 assms(2) w(2) schema_ok_insert_attempt by blast
  have job2: "job \<in> set (jobs (w_working w2))" using job by (simp add: d2)
  have script2: "w_script w2 = []" using q2 by simp
  note s = settle_step [OF settle [unfolded x] script2 proc schema2 job2]
  show thesis
    by (rule that [of job job' a]) (use s job proc q2 d' in \<open>auto simp: d2\<close>)
qed

text \<open>A creation that runs alone: its effect on the tables, and that a failed one is undone.\<close>

definition still :: "db \<Rightarrow> db list \<Rightarrow> world \<Rightarrow> bool" where
  "still d ds w \<longleftrightarrow> w_script w = [] \<and> w_working w = d \<and> w_savepoints w = ds"

lemma still_ticks [simp]: "still d ds (w\<lparr>w_ticks := n\<rparr>) = still d ds w"
  by (simp add: still_def)

lemma triple_still_flush:
  "triple (still d ds) (flush f) (\<lambda>_ w. \<exists>d'. f d = Inr d' \<and> still d' ds w) (\<lambda>_. still d ds)"
  by (auto simp: triple_def still_def flush_quiet split: sum.splits)

lemma triple_still_query: "triple (still d ds) (query f) (\<lambda>x w. x = f d \<and> still d ds w) E"
  by (auto simp: triple_def still_def query_quiet)

lemma triple_still_pure:
  "(\<And>e l x d'. op e l d = Inr (x, d') \<Longrightarrow> d' = d) \<Longrightarrow> triple (still d ds) (sql op) (\<lambda>_. still d ds) (\<lambda>_. still d ds)"
  by (auto simp: triple_def still_def sql_quiet split: sum.splits)

definition adds_event :: "db \<Rightarrow> db \<Rightarrow> bool" where
  "adds_event d d' \<longleftrightarrow>
     (\<exists>ev j. d' = d\<lparr>events := events d @ [ev], jobs := jobs d @ [j]\<rparr> \<and> job_event_id j = ev_id ev \<and>
        job_status j = ''pending'' \<and> job_attempt_count j = 0 \<and> job_next_attempt_at j \<noteq> None)"

lemma adds_eventI:
  "job_event_id j = ev_id ev \<Longrightarrow> job_status j = ''pending'' \<Longrightarrow> job_attempt_count j = 0 \<Longrightarrow>
   job_next_attempt_at j \<noteq> None \<Longrightarrow> adds_event d (d\<lparr>events := events d @ [ev], jobs := jobs d @ [j]\<rparr>)"
  by (auto simp: adds_event_def)

lemma triple_still_create:
  "triple (still d ds) (create_event_with_delivery_job ep ty p k)
     (\<lambda>_ w. \<exists>d'. still d' ds w \<and> adds_event d d') (\<lambda>_ w. \<exists>d'. still d' ds w)"
proof (rule tripleI)
  fix w x w1 assume "still d ds w" and "create_event_with_delivery_job ep ty p k w = (Inr x, w1)"
  then show "\<exists>d'. still d' ds w1 \<and> adds_event d d'"
    by (auto simp: create_event_with_delivery_job_def Let_def bindE_Inr tick_def returnE_def
        still_def flush_quiet insert_event_Inr insert_job_Inr split: sum.splits intro!: adds_eventI)
next
  fix w e w1 assume "still d ds w" and "create_event_with_delivery_job ep ty p k w = (Inl e, w1)"
  then show "\<exists>d'. still d' ds w1"
    by (auto simp: create_event_with_delivery_job_def Let_def bindE_Inl tick_def returnE_def
        still_def flush_quiet split: sum.splits)
qed

lemma triple_still_nested:
  assumes "\<And>ds. triple (still d ds) m (\<lambda>_ w. \<exists>d'. still d' ds w \<and> Q d') (\<lambda>_ w. \<exists>d'. still d' ds w)"
  shows "triple (still d ds) (begin_nested m) (\<lambda>_ w. \<exists>d'. still d' ds w \<and> Q d') (\<lambda>_. still d ds)"
proof -
  have run: "(case r of Inl e \<Rightarrow> still d ds w' | Inr x \<Rightarrow> \<exists>d'. still d' ds w' \<and> Q d')"
    if w: "still d ds w" and r: "begin_nested m w = (r, w')" for w r w'
  proof -
    let ?w1 = "w\<lparr>w_savepoints := d # ds\<rparr>"
    have push: "push_savepoint w = (Inr (), ?w1)" and s1: "still d (d # ds) ?w1"
      using w by (auto simp: push_savepoint_def still_def bindE_def query_quiet)
    obtain r2 w2 where m: "m ?w1 = (r2, w2)" by fastforce
    show ?thesis
    proof (cases r2)
      case (Inl e)
      then have "still (w_working w2) (d # ds) w2" using tripleD_Inl [OF assms s1] m by (auto simp: still_def)
      then show ?thesis using r m Inl push
        by (auto simp: begin_nested_def bindE_def try_except_def rollback_to_savepoint_def raiseE_def still_def)
    next
      case (Inr x)
      then obtain d' where "still d' (d # ds) w2" "Q d'" using tripleD_Inr [OF assms s1] m by blast
      then show ?thesis using r m Inr push
        by (auto simp: begin_nested_def bindE_def try_except_def release_savepoint_def returnE_def still_def
            query_quiet)
    qed
  qed
  show ?thesis by (rule tripleI; drule (1) run; simp)
qed

lemma triple_still_resolve:
  "triple (still d ds) (resolve_existing_idempotent_event ep ty p k) (\<lambda>_. still d ds) (\<lambda>_. still d ds)"
  unfolding resolve_existing_idempotent_event_def find_equivalent_webhook_event_def
    find_webhook_event_by_scoped_key_def
  by (rule triple_bindE [OF triple_still_pure]) (auto simp: bindR_eq_Inr split: option.split if_split_asm
      intro!: triple_returnE triple_bindE [OF triple_still_pure] triple_raiseE)

lemma triple_still_conflict:
  "triple (still d ds) (resolve_after_conflict ep ty p k e) (\<lambda>_. still d ds) (\<lambda>_. still d ds)"
  unfolding resolve_after_conflict_def
  by (cases e) (auto intro!: triple_intros triple_still_resolve simp del: not_None_eq)

lemma triple_still_keyed:
  "triple (still d ds) (create_keyed_event ep ty p k) (\<lambda>_ w. \<exists>d'. still d' ds w \<and> (d' = d \<or> adds_event d d'))
     (\<lambda>_ _. True)"
  unfolding create_keyed_event_def
proof (rule triple_bindE)
  show "triple (still d ds) (resolve_existing_idempotent_event ep ty p k) (\<lambda>_. still d ds) (\<lambda>_ _. True)"
    by (rule triple_weaken [OF triple_still_resolve]) auto
next
  fix x
  have create: "triple (still d ds)
      (bindE (begin_nested (create_event_with_delivery_job ep ty p (Some k))) (\<lambda>event. returnE (event, True)))
      (\<lambda>_ w. \<exists>d'. still d' ds w \<and> (d' = d \<or> adds_event d d')) (\<lambda>_. still d ds)"
    by (rule triple_bindE [OF triple_still_nested [OF triple_still_create]], rule triple_returnE) auto
  have conflict: "triple (still d ds) (resolve_after_conflict ep ty p k e)
      (\<lambda>_ w. \<exists>d'. still d' ds w \<and> (d' = d \<or> adds_event d d')) (\<lambda>_ _. True)" for e
    by (rule triple_weaken [OF triple_still_conflict]) auto
  show "triple (still d ds) (case x of Some r \<Rightarrow> returnE r
        | None \<Rightarrow> try_except
            (bindE (begin_nested (create_event_with_delivery_job ep ty p (Some k))) (\<lambda>event. returnE (event, True)))
            (resolve_after_conflict ep ty p k))
      (\<lambda>_ w. \<exists>d'. still d' ds w \<and> (d' = d \<or> adds_event d d')) (\<lambda>_ _. True)"
    by (cases x) (auto intro: triple_returnE triple_try_except [OF create conflict])
qed

lemma create_leads_to:
  assumes "leads_to (create_idempotent_webhook_event_with_delivery_job ep ty p key) d d'"
  shows "d' = d \<or> adds_event d d'"
proof -
  obtain w x w' where w: "still d [] w" and d': "w_working w' = d'"
    and run: "create_idempotent_webhook_event_with_delivery_job ep ty p key w = (Inr x, w')"
    using assms by (auto simp: leads_to_def still_def)
  have "triple (still d []) (create_idempotent_webhook_event_with_delivery_job ep ty p key)
      (\<lambda>_ w. \<exists>d'. still d' [] w \<and> (d' = d \<or> adds_event d d')) (\<lambda>_ _. True)"
    unfolding create_idempotent_webhook_event_with_delivery_job_def
  proof (intro triple_bindE triple_case_option)
    show "triple (still d []) (liftE (normalize_webhook_idempotency_key key)) (\<lambda>_. still d []) (\<lambda>_ _. True)"
      by (intro triple_intros) auto
    show "triple (still d []) (query (lookup_by ep_id ep \<circ> endpoints)) (\<lambda>_. still d []) (\<lambda>_ _. True)"
      by (rule triple_weaken [OF triple_still_query]) auto
    show "triple (still d []) (raiseE EventWebhookEndpointNotFoundError)
        (\<lambda>_ w. \<exists>d'. still d' [] w \<and> (d' = d \<or> adds_event d d')) (\<lambda>_ _. True)"
      by (rule triple_raiseE) simp
    show "triple (still d []) (create_event_with_delivery_job ep ty p None)
        (\<lambda>_ w. \<exists>d'. still d' [] w \<and> adds_event d d') (\<lambda>_ _. True)"
      by (rule triple_weaken [OF triple_still_create]) auto
    show "triple (\<lambda>w. \<exists>d'. still d' [] w \<and> adds_event d d') (returnE (x, True))
        (\<lambda>_ w. \<exists>d'. still d' [] w \<and> (d' = d \<or> adds_event d d')) (\<lambda>_ _. True)" for x :: event_row
      by (rule triple_returnE) auto
    show "triple (still d []) (create_keyed_event ep ty p k)
        (\<lambda>_ w. \<exists>d'. still d' [] w \<and> (d' = d \<or> adds_event d d')) (\<lambda>_ _. True)" for k
      by (rule triple_still_keyed)
  qed
  from tripleD_Inr [OF this w run] d' show ?thesis by (auto simp: still_def)
qed

end
