(* ===== verification/Sample.thy ===== *)
theory Sample
  imports Schema
begin

text \<open>
  A small concrete world on which the witnesses evaluate the model: one active endpoint, one event,
  its delivery job, an environment that answers every request with the given result, and no
  interference.
\<close>

definition sample_now :: instant where
  "sample_now = 63000000000000000"

definition sample_env :: "httpx_result \<Rightarrow> env" where
  "sample_env http =
     \<lparr>e_http = (\<lambda>n u p. http),
      e_uuid4 = (\<lambda>n. of_nat (100 + n)),
      e_db_now = (\<lambda>n. sample_now),
      e_utc_now = (\<lambda>n. utc_datetime sample_now),
      e_decision_now = (\<lambda>n. utc_datetime sample_now),
      e_iteration_now = (\<lambda>n. utc_datetime sample_now),
      e_monotonic_ns = (\<lambda>n. 3000000 * int n),
      e_stop = (\<lambda>n. 1 \<le> n),
      e_jsonb_eq = (=),
      e_json_depth = 1000,
      e_fromisoformat = (\<lambda>s. Inl (ValueError ''Invalid isoformat string'')),
      e_uuid_text = (\<lambda>s. Inl uuid_error)\<rparr>"

definition sample_endpoint :: endpoint_row where
  "sample_endpoint =
     \<lparr>ep_id = 1, ep_name = ''orders'', ep_target_url = ''http://a/hook'', ep_is_active = True,
      ep_created_at = 0, ep_updated_at = 0\<rparr>"

definition sample_event :: event_row where
  "sample_event =
     \<lparr>ev_id = 2, ev_endpoint_id = 1, ev_event_type = ''order.created'', ev_payload = JObj [],
      ev_idempotency_key = Some ''key'', ev_created_at = 10\<rparr>"

definition sample_job :: "string \<Rightarrow> instant option \<Rightarrow> job_row" where
  "sample_job status due =
     \<lparr>job_id = 3, job_event_id = 2, job_status = status, job_next_attempt_at = due,
      job_attempt_count = 0, job_created_at = 10, job_updated_at = 10\<rparr>"

definition sample_db :: "job_row list \<Rightarrow> db" where
  "sample_db js =
     \<lparr>endpoints = [sample_endpoint], events = [sample_event], jobs = js, attempts = []\<rparr>"

definition sample_world :: "httpx_result \<Rightarrow> db \<Rightarrow> world" where
  "sample_world http d =
     \<lparr>w_env = sample_env http, w_committed = d, w_working = d, w_savepoints = [], w_script = [],
      w_trace = [], w_ticks = 0, w_polls = 0\<rparr>"

abbreviation pending_world :: world where
  "pending_world \<equiv> sample_world (Httpx_response 200) (sample_db [sample_job ''pending'' (Some 10)])"

abbreviation processing_world :: world where
  "processing_world \<equiv> sample_world (Httpx_response 200) (sample_db [sample_job ''processing'' (Some 10)])"

abbreviation finished_world :: world where
  "finished_world \<equiv> sample_world (Httpx_response 200) (sample_db [sample_job ''succeeded'' None])"

lemma sample_world_sel [simp]:
  "w_env (sample_world http d) = sample_env http" "w_committed (sample_world http d) = d"
  "w_working (sample_world http d) = d" "w_savepoints (sample_world http d) = []"
  "w_script (sample_world http d) = []" "w_trace (sample_world http d) = []"
  "w_ticks (sample_world http d) = 0" "w_polls (sample_world http d) = 0"
  by (simp_all add: sample_world_def)

lemma sample_world_inv: "I d \<Longrightarrow> world_inv R I (sample_world http d)"
  by (simp add: world_inv_def)

lemma sample_schema_ok:
  "schema_ok (sample_db [sample_job ''pending'' (Some 10)])"
  "schema_ok (sample_db [sample_job ''processing'' (Some 10)])"
  "schema_ok (sample_db [sample_job ''succeeded'' None])"
  by code_simp+

end
