(* ===== verification/Witnesses.thy ===== *)
theory Witnesses
  imports Event_Service Worker_Loop Sample
begin

text \<open>
  Each property of the component theories applied at a concrete input, on the world of \<open>Sample\<close>,
  with its hypotheses evaluated there.
\<close>

section \<open>Retry policy\<close>

lemma sample_delays: "validate_delays (VInt 5) (VInt 300) = Inr (5 * float_unit, 300 * float_unit)"
  by code_simp

lemma wf_VInt [simp]: "wf_pyval (VInt n)"
  by (simp add: wf_pyval_def)

abbreviation sample_at :: pydatetime where
  "sample_at \<equiv> utc_datetime sample_now"

lemma sample_at_tz [simp]: "dt_tz (utc_datetime t) = Tz_offset 0" "dt_local (utc_datetime t) = t"
  by (simp_all add: utc_datetime_def)

lemma sample_decisions:
  "decide_webhook_retry ''failed'' (VInt 1) (VDatetime sample_at) (VInt 3) (VInt 5) (VInt 300) =
     Inr \<lparr>rd_status = ''pending'', rd_next_attempt_at = Some 63000000005000000\<rparr>"
  "decide_webhook_retry ''failed'' (VInt 2) (VDatetime sample_at) (VInt 3) (VInt 5) (VInt 300) =
     Inr \<lparr>rd_status = ''pending'', rd_next_attempt_at = Some 63000000010000000\<rparr>"
  by code_simp+

theorem retry_delay_formula_witness:
  "calculate_retry_delay_seconds (VInt 3) (VInt 5) (VInt 300) = Inr (Fin (20 * float_unit))"
  using retry_delay_formula [of 3 "VInt 5" "VInt 300", OF _ _ _ sample_delays]
  by (simp add: min_def)

theorem retry_decision_table_witness:
  "decide_webhook_retry ''failed'' (VInt 3) (VDatetime sample_at) (VInt 3) (VInt 5) (VInt 300) =
     Inr \<lparr>rd_status = ''dead_letter'', rd_next_attempt_at = None\<rparr>"
  using retry_decision_table [of "''failed''" 3 3 sample_at 0 "VInt 5" "VInt 300", OF _ _ _ _ _ _ sample_delays]
  by simp

theorem retry_backoff_monotone_witness:
  "sample_now \<le> 63000000005000000 \<and> (63000000005000000 :: int) \<le> 63000000010000000 \<and>
   63000000010000000 \<le> sample_now + seconds_us (300 * float_unit)"
  using retry_backoff_monotone [OF sample_decisions _ _ _ _ sample_delays, of 0] by simp

section \<open>Events\<close>

lemma sample_history: "world_inv R (history_inv d) (sample_world http d)" if "schema_ok d"
  using that by (intro sample_world_inv) (simp add: history_inv_def)

lemma sample_growing: "schema_ok d \<Longrightarrow> world_inv R schema_ok (sample_world http d)"
  by (rule sample_world_inv)

lemma sample_event_sel: "ev_id sample_event = 2" "ev_endpoint_id sample_event = 1"
  "ev_event_type sample_event = ''order.created''" "ev_payload sample_event = JObj []"
  "ev_idempotency_key sample_event = Some ''key''"
  by (simp_all add: sample_event_def)

lemma sample_keys:
  "normalize_webhook_idempotency_key (Some '' key '') = Inr (Some ''key'')"
  "normalize_webhook_idempotency_key (Some ''new'') = Inr (Some ''new'')"
  by code_simp+

theorem idempotent_repeat_witness:
  "(let (r, w') = create_idempotent_webhook_event_with_delivery_job 1 ''order.created'' (JObj []) (Some '' key '')
      pending_world
    in r \<in> {Inl OperationalError, Inr (sample_event, False)} \<and> w_working w' = w_working pending_world)"
proof -
  let ?r = "create_idempotent_webhook_event_with_delivery_job 1 ''order.created'' (JObj []) (Some '' key '') pending_world"
  have answer: "repeat_answer (w_env pending_world) ''order.created'' (JObj []) sample_event = Inr (sample_event, False)"
    by (simp add: repeat_answer_def sample_event_sel sample_env_def text_ok_def)
  have "(fst ?r = Inl OperationalError \<or>
      fst ?r = repeat_answer (w_env pending_world) ''order.created'' (JObj []) sample_event) \<and>
      only_others pending_world (snd ?r)"
    by (rule idempotent_repeat [where R = "\<lambda>_ _. True" and ev = sample_event and raw = "Some '' key ''"
          and ep = 1 and k = "''key''",
          OF sample_history [OF sample_schema_ok(1)] _ _ _ sample_keys(1) prod.collapse [symmetric]])
      (simp_all add: sample_event_sel sample_db_def)
  then show ?thesis
    using only_others_quiet [of pending_world "snd ?r"] unfolding answer
    by (simp add: case_prod_beta Let_def)
qed

theorem creation_outcome_witness:
  "creation_sound (sample_env (Httpx_response 200)) 1 ''order.paid'' (JObj []) (Some ''new'')
     (fst (create_idempotent_webhook_event_with_delivery_job 1 ''order.paid'' (JObj []) (Some ''new'') pending_world))
     (w_working (snd (create_idempotent_webhook_event_with_delivery_job 1 ''order.paid'' (JObj []) (Some ''new'') pending_world)))"
proof -
  note sample_keys(2)
  then show ?thesis
    using creation_outcome [of pending_world "Some ''new''" "Some ''new''" 1 "''order.paid''" "JObj []"
        "fst (create_idempotent_webhook_event_with_delivery_job 1 ''order.paid'' (JObj []) (Some ''new'') pending_world)"
        "snd (create_idempotent_webhook_event_with_delivery_job 1 ''order.paid'' (JObj []) (Some ''new'') pending_world)"]
      sample_growing [OF sample_schema_ok(1)]
    by simp
qed

section \<open>Jobs\<close>

lemma sample_at_valid: "normalize_claimed_at (VDatetime sample_at) = Inr sample_now"
  "normalize_datetime (VDatetime sample_at) ''recovered_at'' = Inr sample_now"
  "normalize_datetime (VDatetime sample_at) ''stale_before'' = Inr sample_now"
  "normalize_replayed_at (VDatetime sample_at) = Inr sample_now"
  by code_simp+

lemma sample_limits: "validate_claim_limit (VInt 5) = Inr 5" "validate_recovery_limit (VInt 5) = Inr 5" "limit_ok 5"
  by code_simp+

theorem claim_functional_witness:
  "\<exists>js. fst (claim_due_webhook_delivery_jobs (VDatetime sample_at) (VInt 5) pending_world) =
      Inr (map (\<lambda>j. j\<lparr>job_status := ''processing'', job_updated_at := sample_now\<rparr>) js) \<and> length js = 1"
proof -
  have "length (filter (\<lambda>j. job_status j = ''pending'' \<and> (\<exists>m \<le> sample_now. job_next_attempt_at j = Some m))
      (jobs (w_working pending_world))) = 1"
    by (simp add: sample_db_def sample_job_def sample_now_def)
  then show ?thesis
    using claim_functional [OF sample_limits(1) sample_at_valid(1) sample_limits(3), of pending_world] sample_schema_ok(1)
    by auto
qed

theorem claims_partition_witness:
  "map job_id (projr (fst (claim_due_webhook_delivery_jobs (VDatetime sample_at) (VInt 1) pending_world))) @
   map job_id (projr (fst (claim_due_webhook_delivery_jobs (VDatetime sample_at) (VInt 1)
      (pending_world\<lparr>w_script := [others_lock [3]]\<rparr>)))) = [3]"
proof -
  let ?run = "\<lambda>n w. claim_due_webhook_delivery_jobs (VDatetime sample_at) (VInt n) w"
  let ?w2 = "pending_world\<lparr>w_script := [others_lock [3]]\<rparr>"
  have runs: "fst (?run 1 pending_world) = Inr [mark_processing sample_now (sample_job ''pending'' (Some 10))]"
    "fst (?run 2 pending_world) = Inr [mark_processing sample_now (sample_job ''pending'' (Some 10))]"
    "fst (?run 1 ?w2) = Inr []"
    by code_simp+
  have limits: "validate_claim_limit (VInt 1) = Inr 1" "limit_ok (1 + 1)" by code_simp+
  have ids: "map job_id [mark_processing sample_now (sample_job ''pending'' (Some 10))] = [3]" by code_simp
  show ?thesis
    using claims_partition [OF limits(1,1) sample_at_valid(1) limits(2), of pending_world
        "[mark_processing sample_now (sample_job ''pending'' (Some 10))]" "snd (?run 1 pending_world)"
        ?w2 "[]" "snd (?run 1 ?w2)"
        "[mark_processing sample_now (sample_job ''pending'' (Some 10))]" "snd (?run 2 pending_world)"]
      sample_schema_ok(1) runs ids
    by (simp add: prod_eq_iff)
qed

theorem recovery_functional_witness:
  "\<exists>js. fst (recover_stale_webhook_delivery_jobs (VDatetime sample_at) (VDatetime sample_at) (VInt 5) processing_world) =
     Inr (map job_id js) \<and> sample_job ''processing'' (Some 10) \<in> set js"
proof -
  have "job_updated_at (sample_job ''processing'' (Some 10)) \<le> sample_now" "job_status (sample_job ''processing'' (Some 10)) = ''processing''"
    by code_simp+
  moreover have "distinct (map job_id js) \<Longrightarrow> set js \<subseteq> {sample_job ''processing'' (Some 10)} \<Longrightarrow> length js < 5" for js
  proof -
    assume "distinct (map job_id js)" "set js \<subseteq> {sample_job ''processing'' (Some 10)}"
    then have "length js \<le> card {sample_job ''processing'' (Some 10)}"
      by (metis distinct_card distinct_map card_mono finite.emptyI finite.insertI)
    then show ?thesis by simp
  qed
  ultimately show ?thesis
    using recovery_functional [OF sample_limits(2) sample_at_valid(3,2) _ sample_limits(3), of processing_world]
      sample_schema_ok(2)
    by (auto simp: sample_db_def)
qed

theorem replay_functional_witness:
  "fst (replay_webhook_event 2 (VDatetime sample_at) finished_world) =
     Inr \<lparr>rp_event_id = 2, rp_delivery_job_id = 3, rp_status = ''pending'', rp_next_attempt_at = sample_now\<rparr>"
  using replay_functional [of finished_world "VDatetime sample_at" sample_now 2] sample_schema_ok(3) sample_at_valid(4)
  by (simp add: get_event_def get_endpoint_def get_event_job_def sample_db_def sample_event_def sample_job_def
      sample_endpoint_def)

section \<open>Deliveries\<close>

lemma sample_lookups:
  "get_event 2 (w_working (sample_world http (sample_db js))) = Some sample_event"
  "get_endpoint (ev_endpoint_id sample_event) (w_working (sample_world http (sample_db js))) = Some sample_endpoint"
  "ep_is_active sample_endpoint"
  "dt_tz (e_utc_now (w_env (sample_world http d)) (w_ticks (sample_world http d))) = Tz_offset 0"
  "check_post_timeout (VInt 5) = Inr ()"
  by (simp_all add: get_event_def get_endpoint_def sample_db_def sample_event_def sample_endpoint_def
      sample_env_def) code_simp

theorem delivery_functional_witness:
  "w_trace (snd (execute_webhook_delivery httpx2_post_json 2 (VInt 5) processing_world)) =
     [Http_post ''http://a/hook'' (JObj []) (VInt 5)]"
proof -
  have http: "outcome_of (e_http (w_env processing_world) (w_ticks processing_world + 2)
      (ep_target_url sample_endpoint) (ev_payload sample_event)) = Some (Responded 200)"
    by (simp add: sample_env_def)
  obtain a w1 where tr: "w_trace w1 = [Http_post ''http://a/hook'' (JObj []) (VInt 5)]"
    and run: "execute_webhook_delivery httpx2_post_json 2 (VInt 5) processing_world =
      (case insert_attempt a (w_working processing_world) of
         Inl x \<Rightarrow> (Inl x, w1) | Inr d \<Rightarrow> (Inr a, w1\<lparr>w_working := d\<rparr>))"
    using delivery_functional [where w = processing_world, OF _ sample_lookups http]
    by (simp add: sample_endpoint_def sample_event_def) blast
  then show ?thesis
    by (cases "insert_attempt a (w_working processing_world)") (simp_all only: run tr, simp_all add: tr)
qed

abbreviation odd_status_world :: world where
  "odd_status_world \<equiv> sample_world (Httpx_response 999) (sample_db [sample_job ''processing'' (Some 10)])"

theorem delivery_unstorable_status_witness:
  "fst (execute_webhook_delivery httpx2_post_json 2 (VInt 5) odd_status_world) =
     Inl (IntegrityError ''ck_webhook_delivery_attempts_response_status_code'')"
proof -
  have "int4 (next_attempt_number (max_attempt_number 2 (w_working odd_status_world)))" by code_simp
  moreover have "int4 ((e_monotonic_ns (w_env odd_status_world) (w_ticks odd_status_world + 3) -
      e_monotonic_ns (w_env odd_status_world) (w_ticks odd_status_world + 1)) div 1000000)" by code_simp
  ultimately show ?thesis
    using delivery_unstorable_status [where s = 999 and w = odd_status_world, OF _ sample_lookups] sample_schema_ok(2)
    by (auto simp: sample_env_def)
qed

lemma sample_numbered: "world_inv attempts_grow contiguous (sample_world http (sample_db js))"
  by (rule sample_world_inv) (auto simp: contiguous_def attempt_numbers_def sample_db_def intro: exI [of _ 0])

theorem delivery_is_latest_witness:
  "set (attempt_numbers 2 (w_working (snd (execute_webhook_delivery httpx2_post_json 2 (VInt 5) processing_world)))) = {1..1}"
proof -
  let ?run = "execute_webhook_delivery httpx2_post_json 2 (VInt 5) processing_world"
  have run: "map_sum id at_attempt_number (fst ?run) = Inr 1" by code_simp
  then obtain a where "fst ?run = Inr a" "at_attempt_number a = 1" by (cases "fst ?run") auto
  then show ?thesis
    using delivery_is_latest [OF sample_numbered, of 2 "VInt 5" "Httpx_response 200"
        "[sample_job ''processing'' (Some 10)]" a "snd ?run"]
    by (simp add: prod_eq_iff)
qed

theorem job_execution_outcome_witness:
  "\<exists>job a. fst (execute_webhook_delivery_job httpx2_post_json (VInt 5) (VInt 3) (VInt 5) (VInt 300) 3 processing_world) =
     Inr (job, a) \<and> job_id job = 3 \<and> at_event_id a = job_event_id job \<and> job_attempt_count job = 1"
proof -
  let ?run = "execute_webhook_delivery_job httpx2_post_json (VInt 5) (VInt 3) (VInt 5) (VInt 300) 3 processing_world"
  have "\<not> isl (fst ?run)" by code_simp
  then obtain job a where run: "?run = (Inr (job, a), snd ?run)" by (cases "fst ?run") (auto simp: prod_eq_iff)
  have read: "get_job 3 (w_working (snd (next_stmt processing_world))) = Some (sample_job ''processing'' (Some 10))"
    by (simp add: get_job_def lookup_by_def sample_db_def sample_job_def)
  have "job_id job = 3 \<and> at_event_id a = job_event_id job \<and> job_attempt_count job = 1"
    using job_execution_outcome [OF sample_growing [OF sample_schema_ok(2)] run] unfolding read
    by (simp add: sample_job_def)
  then show ?thesis using run by (metis fst_conv)
qed

section \<open>The worker\<close>

theorem cycle_trace_witness:
  "\<exists>tr. completed_trace (VInt 5) 1 tr \<and>
     w_trace (snd (run_webhook_delivery_processing_cycle httpx2_post_json (VDatetime sample_at) (VInt 5) (VInt 5)
       (VInt 3) (VInt 5) (VInt 300) pending_world)) = [Session_open, Session_commit, Session_close] @ tr"
proof -
  let ?run = "run_webhook_delivery_processing_cycle httpx2_post_json (VDatetime sample_at) (VInt 5) (VInt 5)
       (VInt 3) (VInt 5) (VInt 300) pending_world"
  have "map_sum id cr_claimed_job_ids (fst ?run) = Inr [3]" by code_simp
  then obtain res where "?run = (Inr res, snd ?run)" "cr_claimed_job_ids res = [3]"
    by (cases "fst ?run") (auto simp: prod_eq_iff)
  then show ?thesis
    using cycle_trace [of "VDatetime sample_at" "VInt 5" "VInt 5" "VInt 3" "VInt 5" "VInt 300" pending_world
        "Inr res" "snd ?run"]
    by simp
qed

definition sample_config :: worker_config where
  "sample_config =
     \<lparr>wc_poll_interval_seconds = VInt 1, wc_stale_processing_timeout_seconds = VInt 300,
      wc_recovery_limit = VInt 10, wc_processing_limit = VInt 10, wc_timeout_seconds = VInt 5,
      wc_max_attempts = VInt 3, wc_base_delay_seconds = VInt 5, wc_max_delay_seconds = VInt 300\<rparr>"

theorem worker_terminates_witness:
  "\<exists>r w'. run_webhook_worker httpx2_post_json sample_config pending_world = Some (r, w') \<and> w_polls w' \<le> Suc 4"
  by (rule worker_terminates) (simp_all add: sample_env_def)

theorem worker_result_consistent_witness:
  "\<exists>r w'. run_webhook_worker httpx2_post_json sample_config pending_world = Some (Inr r, w') \<and>
     wr_iterations_started r = wr_iterations_completed r \<and> wr_total_claimed_count r = wr_total_completed_count r"
proof -
  let ?run = "run_webhook_worker httpx2_post_json sample_config pending_world"
  have "map_option (\<lambda>y. isl (fst y)) ?run = Some False" by code_simp
  then obtain y where "?run = Some y" "\<not> isl (fst y)" by auto
  then obtain r w' where "?run = Some (Inr r, w')" by (cases y; cases "fst y") auto
  then show ?thesis using worker_result_consistent by blast
qed

end
