(* ===== verification/Reachable.thy ===== *)
theory Reachable
  imports Lifecycle Witnesses
begin

text \<open>
  The whole service as a transition system on its tables: each step is one service call that returns
  and commits, in any order and with any arguments, from an empty database. The properties hold of
  every table state that can be reached; they are proved by rule induction, the steps refining the
  state machine of a job (\<open>job_step\<close>).
\<close>

section \<open>The system\<close>

text \<open>
  \<open>mx\<close> is the retry limit the workers are configured with. Claims, recoveries, replays and
  executions are the worker's and the API's; \<open>execute_webhook_delivery\<close> alone is the API's direct
  attempt.
\<close>

inductive system_step :: "int \<Rightarrow> db \<Rightarrow> db \<Rightarrow> bool" for mx where
  sys_endpoint: "insert_endpoint ep d = Inr d' \<Longrightarrow> system_step mx d d'"
| sys_create: "leads_to (create_idempotent_webhook_event_with_delivery_job ep ty p key) d d' \<Longrightarrow> system_step mx d d'"
| sys_claim: "leads_to (claim_due_webhook_delivery_jobs at n) d d' \<Longrightarrow> system_step mx d d'"
| sys_recover: "leads_to (recover_stale_webhook_delivery_jobs sb ra n) d d' \<Longrightarrow> system_step mx d d'"
| sys_replay: "leads_to (replay_webhook_event i v) d d' \<Longrightarrow> system_step mx d d'"
| sys_execute: "leads_to (execute_webhook_delivery_job httpx2_post_json t (VInt mx) bd md i) d d' \<Longrightarrow> system_step mx d d'"
| sys_attempt: "leads_to (execute_webhook_delivery httpx2_post_json i t) d d' \<Longrightarrow> system_step mx d d'"

definition reachable_db :: "int \<Rightarrow> db \<Rightarrow> bool" where
  "reachable_db mx d \<longleftrightarrow> (system_step mx)\<^sup>*\<^sup>* empty_db d"

lemma reachable_db_induct [consumes 1, case_names empty step]:
  assumes "reachable_db mx d" and "P empty_db"
    and "\<And>d d'. reachable_db mx d \<Longrightarrow> P d \<Longrightarrow> system_step mx d d' \<Longrightarrow> P d'"
  shows "P d"
  using assms(1) unfolding reachable_db_def
  by (induction rule: rtranclp_induct) (auto simp: assms(2) intro: assms(3) [unfolded reachable_db_def])

lemma reachable_db_step: "reachable_db mx d \<Longrightarrow> system_step mx d d' \<Longrightarrow> reachable_db mx d'"
  by (simp add: reachable_db_def)

section \<open>Every step refines the machine of the jobs\<close>

text \<open>
  What a step does to jobs, attempts and events: it adds an event with its pending job, or an
  attempt, or moves jobs along the machine, or an attempt together with the move of the event's job
  that its outcome calls for.
\<close>

definition settles :: "int \<Rightarrow> db \<Rightarrow> db \<Rightarrow> bool" where
  "settles mx d d' \<longleftrightarrow>
     (\<exists>job job' a. job \<in> set (jobs d) \<and> job_settle mx job job' \<and>
        d' = d\<lparr>attempts := attempts d @ [a], jobs := update_by job_id job' (jobs d)\<rparr> \<and>
        at_event_id a = job_event_id job \<and> at_outcome a \<in> {''succeeded'', ''failed''} \<and>
        (job_status job' = ''succeeded'' \<longleftrightarrow> at_outcome a = ''succeeded'') \<and>
        job_attempt_count job' = job_attempt_count job + 1)"

lemma system_step_effect:
  assumes "system_step mx d d'" and "schema_ok d"
  obtains (endpoint) ep where "d' = d\<lparr>endpoints := endpoints d @ [ep]\<rparr>"
  | (same) "d' = d"
  | (event) "adds_event d d'"
  | (move) js where "d' = d\<lparr>jobs := js\<rparr>" "jobs_move (jobs d) js"
  | (attempt) a where "d' = d\<lparr>attempts := attempts d @ [a]\<rparr>"
  | (settle) "settles mx d d'"
  using assms(1)
proof cases
  case (sys_endpoint ep)
  then show ?thesis by (auto simp: insert_endpoint_Inr intro: endpoint)
next
  case sys_create
  then show ?thesis by (auto dest!: create_leads_to intro: same event)
next
  case sys_claim
  from claim_leads_to [OF this assms(2)] show ?thesis by (auto intro: move)
next
  case sys_recover
  from recover_leads_to [OF this assms(2)] show ?thesis by (auto intro: move)
next
  case sys_replay
  from replay_leads_to [OF this assms(2)] show ?thesis by (auto intro: move)
next
  case sys_execute
  from sys_execute assms(2) show ?thesis
    by (rule execute_leads_to) (rule settle, unfold settles_def, blast)
next
  case sys_attempt
  from delivery_leads_to [OF this] show ?thesis by (auto intro: attempt)
qed

text \<open>Every invariant of the writes and of one delivery is an invariant of the system.\<close>

lemma system_step_keeps:
  assumes "delivery_invariant R I httpx2_post_json" and "system_step mx d d'" and "I d" and "table_invariant I"
  shows "I d'"
proof -
  note updates = delivery_invariant.axioms(1) [OF assms(1)]
  note keeps = table_invariant.keeps_create_idempotent [OF assms(4)] job_invariant.keeps_claim [OF updates]
    job_invariant.keeps_recover [OF updates] job_invariant.keeps_replay [OF updates]
    delivery_invariant.keeps_execute_job [OF assms(1)] delivery_invariant.keeps_delivery [OF assms(1)]
  show ?thesis
    using assms(2,3)
    by cases (auto intro: table_invariant.insert_endpoint_inv [OF assms(4)] dest: leads_to_keeps [OF keeps(1)]
      leads_to_keeps [OF keeps(2)] leads_to_keeps [OF keeps(3)] leads_to_keeps [OF keeps(4)]
      leads_to_keeps [OF keeps(5)] leads_to_keeps [OF keeps(6)])
qed

lemmas system_step_schema = system_step_keeps [OF schema_delivery.delivery_invariant_axioms _ _ schema.table_invariant_axioms]
lemmas system_step_history = system_step_keeps [OF history_delivery.delivery_invariant_axioms _ _ history.table_invariant_axioms]
lemmas system_step_numbering = system_step_keeps [OF numbering.delivery_invariant_axioms _ _ numbered_tables.table_invariant_axioms]

section \<open>What the tables say about a job\<close>

definition failed_attempts :: "uuid \<Rightarrow> db \<Rightarrow> attempt_row list" where
  "failed_attempts i d = filter (\<lambda>a. at_event_id a = i \<and> at_outcome a = ''failed'') (attempts d)"

definition succeeded_attempts :: "uuid \<Rightarrow> db \<Rightarrow> attempt_row list" where
  "succeeded_attempts i d = filter (\<lambda>a. at_event_id a = i \<and> at_outcome a = ''succeeded'') (attempts d)"

text \<open>The audit log justifies the job: its count never exceeds the failures recorded.\<close>

definition justified :: "db \<Rightarrow> job_row \<Rightarrow> bool" where
  "justified d j \<longleftrightarrow>
     (if job_status j = ''succeeded''
        then succeeded_attempts (job_event_id j) d \<noteq> [] \<and>
          job_attempt_count j \<le> int (length (failed_attempts (job_event_id j) d)) + 1
        else job_attempt_count j \<le> int (length (failed_attempts (job_event_id j) d)))"

definition accounted :: "int \<Rightarrow> db \<Rightarrow> bool" where
  "accounted mx d \<longleftrightarrow>
     (\<forall>ev \<in> set (events d). ev_id ev \<in> job_event_id ` set (jobs d)) \<and>
     (\<forall>j \<in> set (jobs d). within_budget mx j \<and> justified d j)"

lemma justified_more_attempts: "justified d j \<Longrightarrow> justified (d\<lparr>attempts := attempts d @ [a]\<rparr>) j"
  by (auto simp: justified_def failed_attempts_def succeeded_attempts_def split: if_splits)

lemma justified_other [simp]:
  "justified (d\<lparr>endpoints := eps\<rparr>) j = justified d j" "justified (d\<lparr>jobs := js\<rparr>) j = justified d j"
  "justified (d\<lparr>events := evs\<rparr>) j = justified d j" "justified (d\<lparr>events := evs, jobs := js\<rparr>) j = justified d j"
  "justified (d\<lparr>attempts := ats, jobs := js\<rparr>) j = justified (d\<lparr>attempts := ats\<rparr>) j"
  by (simp_all add: justified_def failed_attempts_def succeeded_attempts_def)

lemma justified_move: "job_move j j' \<Longrightarrow> justified d j \<Longrightarrow> justified d j'"
  by (erule job_move.cases) (auto simp: justified_def job_defs split: if_splits)

lemma justified_settle:
  assumes "job_settle mx j j'" and "justified d j" and "at_event_id a = job_event_id j"
    and "at_outcome a \<in> {''succeeded'', ''failed''}" and "job_status j' = ''succeeded'' \<longleftrightarrow> at_outcome a = ''succeeded''"
  shows "justified (d\<lparr>attempts := attempts d @ [a]\<rparr>) j'"
proof -
  have j': "job_event_id j' = job_event_id j" "job_attempt_count j' = job_attempt_count j + 1"
    using assms(1) by (auto elim!: job_settle.cases)
  have "job_status j = ''processing''" using assms(1) by (auto elim!: job_settle.cases)
  then have count: "job_attempt_count j \<le> int (length (failed_attempts (job_event_id j) d))"
    using assms(2) by (simp add: justified_def)
  consider "at_outcome a = ''succeeded''" "job_status j' = ''succeeded''"
    | "at_outcome a = ''failed''" "job_status j' \<noteq> ''succeeded''"
    using assms(4,5) by auto
  then show ?thesis
    using count assms(3) j' by cases (simp_all add: justified_def failed_attempts_def succeeded_attempts_def)
qed

lemma jobs_move_events: "jobs_move js js' \<Longrightarrow> map job_event_id js' = map job_event_id js"
  unfolding jobs_move_def
  by (induction rule: list_all2_induct) (auto simp: job_defs elim!: job_move.cases)

lemma jobs_move_in: "jobs_move js js' \<Longrightarrow> j' \<in> set js' \<Longrightarrow> \<exists>j \<in> set js. j' = j \<or> job_move j j'"
  unfolding jobs_move_def by (induction rule: list_all2_induct) auto

lemma accounted_step:
  assumes "system_step mx d d'" and "schema_ok d" and "1 \<le> mx" and "accounted mx d"
  shows "accounted mx d'"
  using assms(1,2)
proof (cases rule: system_step_effect)
  case (endpoint ep)
  then show ?thesis using assms(4) by (auto simp: accounted_def)
next
  case same
  then show ?thesis using assms(4) by simp
next
  case event
  then obtain ev j where d': "d' = d\<lparr>events := events d @ [ev], jobs := jobs d @ [j]\<rparr>"
    and j: "job_event_id j = ev_id ev" "job_status j = ''pending''" "job_attempt_count j = 0"
      "job_next_attempt_at j \<noteq> None"
    by (auto simp: adds_event_def)
  have "within_budget mx j \<and> justified d j"
    using j assms(3) by (simp add: within_budget_def active_def justified_def job_statuses_def)
  then show ?thesis using assms(4) j(1) by (auto simp: accounted_def d')
next
  case (move js)
  have "job_event_id ` set js = job_event_id ` set (jobs d)"
    using jobs_move_events [OF move(2)] by (metis set_map)
  moreover have "within_budget mx j' \<and> justified d j'" if "j' \<in> set js" for j'
    using jobs_move_in [OF move(2) that] assms(3,4)
    by (auto simp: accounted_def intro: job_move_budget justified_move)
  ultimately show ?thesis using assms(4) by (simp add: accounted_def move)
next
  case (attempt a)
  then show ?thesis using assms(4) by (auto simp: accounted_def intro: justified_more_attempts)
next
  case settle
  then obtain job job' a where job: "job \<in> set (jobs d)" and step: "job_settle mx job job'"
    and d': "d' = d\<lparr>attempts := attempts d @ [a], jobs := update_by job_id job' (jobs d)\<rparr>"
    and a: "at_event_id a = job_event_id job" "at_outcome a \<in> {''succeeded'', ''failed''}"
      "job_status job' = ''succeeded'' \<longleftrightarrow> at_outcome a = ''succeeded''"
    unfolding settles_def by blast
  have ids: "job_id job' = job_id job" "job_event_id job' = job_event_id job"
    using step by (auto elim!: job_settle.cases)
  have events: "map job_event_id (update_by job_id job' (jobs d)) = map job_event_id (jobs d)"
    by (rule map_update_by_same) (auto simp: ids dest: schema_ok_same_job [OF assms(2) _ job])
  have "within_budget mx job' \<and> justified (d\<lparr>attempts := attempts d @ [a]\<rparr>) job'"
    using job step assms(3,4) a by (auto simp: accounted_def intro: job_settle_budget justified_settle)
  then have "\<forall>j \<in> set (jobs d'). within_budget mx j \<and> justified (d\<lparr>attempts := attempts d @ [a]\<rparr>) j"
    using assms(4) set_update_by_subset [of job_id job' "jobs d"]
    by (auto simp: d' accounted_def intro: justified_more_attempts)
  moreover have "job_event_id ` set (jobs d') = job_event_id ` set (jobs d)"
    using events by (simp add: d' flip: set_map)
  ultimately show ?thesis
    using assms(4) by (simp add: accounted_def d')
qed

lemma empty_db_ok: "schema_ok empty_db" "contiguous empty_db" "accounted mx empty_db"
  by (simp_all add: empty_db_def schema_ok_def contiguous_def attempt_numbers_def accounted_def)
    (rule exI [of _ 0], simp)

lemma reachable_ok:
  assumes "reachable_db mx d" and "1 \<le> mx"
  shows "schema_ok d \<and> contiguous d \<and> accounted mx d"
  using assms(1)
proof (induction rule: reachable_db_induct)
  case empty
  show ?case by (simp add: empty_db_ok)
next
  case (step d d')
  then show ?case using assms(2) by (blast intro: system_step_schema system_step_numbering accounted_step)
qed

section \<open>The properties of reachable tables\<close>

text \<open>
  C31: The tables of a running service. However events, claims, recoveries, replays, executions
  and direct attempts follow each other, the tables satisfy every constraint of the schema, every
  event has exactly one delivery job, and the attempts of each event are numbered \<open>1..k\<close> without
  gaps.
\<close>

theorem reachable_consistent:
  assumes "reachable_db mx d" and "1 \<le> mx"
  shows "schema_ok d \<and> contiguous d \<and> (\<forall>ev \<in> set (events d). \<exists>!j. j \<in> set (jobs d) \<and> job_event_id j = ev_id ev)"
proof -
  have ok: "schema_ok d" "contiguous d" "accounted mx d" using reachable_ok [OF assms] by simp_all
  have "\<exists>!j. j \<in> set (jobs d) \<and> job_event_id j = ev_id ev" if ev: "ev \<in> set (events d)" for ev
  proof -
    obtain j where j: "j \<in> set (jobs d)" "job_event_id j = ev_id ev"
      using ok(3) ev by (auto simp: accounted_def)
    moreover have "inj_on job_event_id (set (jobs d))"
      using ok(1) by (simp add: schema_ok_def distinct_map)
    ultimately show ?thesis by (intro ex1I [of _ j]) (simp_all add: inj_on_def)
  qed
  with ok show ?thesis by simp
qed

text \<open>
  C1: A job never ends without the evidence. In every reachable state, a dead-lettered job has
  used exactly \<open>mx\<close> attempts and the log holds at least \<open>mx\<close> failed attempts of its event; a succeeded job
  has a successful attempt in the log; a job that is pending or processing has attempts left.
\<close>

theorem final_states_justified:
  assumes "reachable_db mx d" and "1 \<le> mx" and "j \<in> set (jobs d)"
  shows "if job_status j = ''dead_letter''
      then job_attempt_count j = mx \<and> mx \<le> int (length (failed_attempts (job_event_id j) d))
    else if job_status j = ''succeeded''
      then 1 \<le> job_attempt_count j \<and> job_attempt_count j \<le> mx \<and> succeeded_attempts (job_event_id j) d \<noteq> []
    else job_status j \<in> {''pending'', ''processing''} \<and> job_next_attempt_at j \<noteq> None \<and>
      0 \<le> job_attempt_count j \<and> job_attempt_count j < mx"
proof -
  have "within_budget mx j" "justified d j"
    using reachable_ok [OF assms(1,2)] assms(3) by (simp_all add: accounted_def)
  then show ?thesis
    by (auto simp: within_budget_def active_def justified_def job_statuses_def)
qed

text \<open>
  C2: Every service refines the state machine of a delivery job. In one step of the system from a
  reachable state, each job stays as it is or makes one step of \<open>job_step\<close>, in place, and a new row is
  a pending job without attempts.
\<close>

theorem system_refines_job_machine:
  assumes "reachable_db mx d" and "1 \<le> mx" and "system_step mx d d'"
  shows "\<exists>js new. jobs d' = js @ new \<and> list_all2 (\<lambda>j j'. j' = j \<or> job_step mx j j') (jobs d) js \<and>
    (\<forall>j \<in> set new. job_status j = ''pending'' \<and> job_attempt_count j = 0)"
proof -
  have ok: "schema_ok d" using reachable_ok [OF assms(1,2)] by simp
  have stay: "list_all2 (\<lambda>j j'. j' = j \<or> job_step mx j j') (jobs d) (jobs d)"
    by (rule list.rel_refl) simp
  have no_new: ?thesis if "list_all2 (\<lambda>j j'. j' = j \<or> job_step mx j j') (jobs d) (jobs d')"
    using that by (intro exI [of _ "jobs d'"] exI [of _ "[]"]) simp
  from assms(3) ok show ?thesis
  proof (cases rule: system_step_effect)
    case event
    then obtain j where "jobs d' = jobs d @ [j]" "job_status j = ''pending''" "job_attempt_count j = 0"
      by (auto simp: adds_event_def)
    then show ?thesis using stay by (intro exI [of _ "jobs d"] exI [of _ "[j]"]) simp
  next
    case (move js)
    have "list_all2 (\<lambda>j j'. j' = j \<or> job_step mx j j') (jobs d) js"
      using move(2) unfolding jobs_move_def by (rule list_all2_mono) (auto simp: job_step_def)
    with move(1) show ?thesis by (intro no_new) simp
  next
    case settle
    then obtain job job' where job: "job \<in> set (jobs d)" and step: "job_settle mx job job'"
      and js: "jobs d' = update_by job_id job' (jobs d)"
      by (auto simp: settles_def)
    have "job_id job' = job_id job" using step by (auto elim!: job_settle.cases)
    then have "list_all2 (\<lambda>j j'. j' = j \<or> job_step mx j j') (jobs d) (update_by job_id job' (jobs d))"
      using step job unfolding update_by_def list_all2_map2 job_step_def
      by (intro list.rel_refl_strong) (auto dest: schema_ok_same_job [OF ok _ job])
    with js show ?thesis by (intro no_new) simp
  qed (use stay in \<open>intro no_new; simp\<close>)+
qed

section \<open>A run of the system\<close>

text \<open>An endpoint, a keyed event, the claim of its job, and one failing execution under the limit 1.\<close>

definition run_on :: "(world, 'a) io \<Rightarrow> db \<Rightarrow> db" where
  "run_on m d = w_working (snd (m (sample_world (Httpx_response 500) d)))"

lemma leads_to_run_on: "\<not> isl (fst (m (sample_world (Httpx_response 500) d))) \<Longrightarrow> leads_to m d (run_on m d)"
  unfolding leads_to_def run_on_def
  by (rule exI [of _ "sample_world (Httpx_response 500) d"],
      cases "m (sample_world (Httpx_response 500) d)"; cases "fst (m (sample_world (Httpx_response 500) d))") auto

definition sample_endpoint_db :: db where
  "sample_endpoint_db = empty_db\<lparr>endpoints := [sample_endpoint]\<rparr>"

definition sample_event_db :: db where
  "sample_event_db =
     run_on (create_idempotent_webhook_event_with_delivery_job 1 ''order.created'' (JObj []) (Some ''key''))
       sample_endpoint_db"

definition sample_claimed_db :: db where
  "sample_claimed_db =
     run_on (claim_due_webhook_delivery_jobs (VDatetime sample_at) (VInt 5)) sample_event_db"

definition sample_dead_db :: db where
  "sample_dead_db =
     run_on (execute_webhook_delivery_job httpx2_post_json (VInt 5) (VInt 1) (VInt 5) (VInt 300) 102) sample_claimed_db"

lemma sample_returns:
  "insert_endpoint sample_endpoint empty_db = Inr sample_endpoint_db"
  "\<not> isl (fst (create_idempotent_webhook_event_with_delivery_job 1 ''order.created'' (JObj []) (Some ''key'')
      (sample_world (Httpx_response 500) sample_endpoint_db)))"
  "\<not> isl (fst (claim_due_webhook_delivery_jobs (VDatetime sample_at) (VInt 5)
      (sample_world (Httpx_response 500) sample_event_db)))"
  "\<not> isl (fst (execute_webhook_delivery_job httpx2_post_json (VInt 5) (VInt 1) (VInt 5) (VInt 300) 102
      (sample_world (Httpx_response 500) sample_claimed_db)))"
  by code_simp+

lemma sample_steps:
  "system_step 1 empty_db sample_endpoint_db" "system_step 1 sample_endpoint_db sample_event_db"
  "system_step 1 sample_event_db sample_claimed_db" "system_step 1 sample_claimed_db sample_dead_db"
proof -
  show "system_step 1 empty_db sample_endpoint_db" by (rule sys_endpoint [OF sample_returns(1)])
  show "system_step 1 sample_endpoint_db sample_event_db"
    unfolding sample_event_db_def by (rule sys_create, rule leads_to_run_on, rule sample_returns(2))
  show "system_step 1 sample_event_db sample_claimed_db"
    unfolding sample_claimed_db_def by (rule sys_claim, rule leads_to_run_on, rule sample_returns(3))
  show "system_step 1 sample_claimed_db sample_dead_db"
    unfolding sample_dead_db_def by (rule sys_execute, rule leads_to_run_on, rule sample_returns(4))
qed

lemma sample_reachable: "reachable_db 1 sample_claimed_db" "reachable_db 1 sample_dead_db"
proof -
  have "reachable_db 1 empty_db" by (simp add: reachable_db_def)
  then show claimed: "reachable_db 1 sample_claimed_db"
    by (rule reachable_db_step [OF reachable_db_step [OF reachable_db_step [OF _ sample_steps(1)] sample_steps(2)]
        sample_steps(3)])
  show "reachable_db 1 sample_dead_db" by (rule reachable_db_step [OF claimed sample_steps(4)])
qed

lemma sample_dead_jobs:
  "map (\<lambda>j. (job_id j, job_event_id j, job_status j)) (jobs sample_dead_db) = [(102, 100, ''dead_letter'')]"
  "map ev_id (events sample_dead_db) = [100]"
  by code_simp+

theorem reachable_consistent_witness:
  "\<exists>!j. j \<in> set (jobs sample_dead_db) \<and> job_event_id j = 100"
proof -
  obtain ev where "events sample_dead_db = [ev]" "ev_id ev = 100" using sample_dead_jobs(2) by auto
  then show ?thesis using reachable_consistent [OF sample_reachable(2)] by simp
qed

theorem final_states_justified_witness:
  "1 \<le> length (failed_attempts 100 sample_dead_db)"
proof -
  obtain j where "jobs sample_dead_db = [j]" "job_event_id j = 100" "job_status j = ''dead_letter''"
    using sample_dead_jobs(1) by auto
  then show ?thesis using final_states_justified [OF sample_reachable(2), of j] by simp
qed

theorem system_refines_job_machine_witness:
  "\<exists>js new. jobs sample_dead_db = js @ new \<and>
    list_all2 (\<lambda>j j'. j' = j \<or> job_step 1 j j') (jobs sample_claimed_db) js \<and>
    (\<forall>j \<in> set new. job_status j = ''pending'' \<and> job_attempt_count j = 0)"
  by (rule system_refines_job_machine [OF sample_reachable(1) _ sample_steps(4)]) simp

end
