(* ===== verification/Progress.thy ===== *)
theory Progress
  imports Reachable
begin

text \<open>
  No state of the service is a dead end: from every reachable state an unfinished job with an active
  endpoint can be brought to success by service calls, a claim first when it is pending and then one
  execution whose endpoint answers 200.
\<close>

text \<open>A quiet world on the given tables whose identifiers are all \<open>a\<close>.\<close>

definition progress_world :: "uuid \<Rightarrow> db \<Rightarrow> world" where
  "progress_world a d =
     (sample_world (Httpx_response 200) d)\<lparr>w_env := (sample_env (Httpx_response 200))\<lparr>e_uuid4 := (\<lambda>n. a)\<rparr>\<rparr>"

lemma progress_world_sel [simp]:
  "w_script (progress_world a d) = []" "w_committed (progress_world a d) = d" "w_working (progress_world a d) = d"
  "w_savepoints (progress_world a d) = []" "w_ticks (progress_world a d) = 0"
  "w_env (progress_world a d) = (sample_env (Httpx_response 200))\<lparr>e_uuid4 := (\<lambda>n. a)\<rparr>"
  by (simp_all add: progress_world_def)

lemma progress_leads_to: "m (progress_world a d) = (Inr x, w') \<Longrightarrow> leads_to m d (w_working w')"
  unfolding leads_to_def by (intro exI [of _ "progress_world a d"] exI [of _ x] exI [of _ w']) simp

lemma delivery_succeeds:
  assumes "schema_ok d" and "get_event i d = Some ev" and "get_endpoint (ev_endpoint_id ev) d = Some ep"
    and "ep_is_active ep" and "a \<notin> at_id ` set (attempts d)"
    and "int4 (next_attempt_number (max_attempt_number i d))" and "contiguous d"
  shows "\<exists>at w'. execute_webhook_delivery httpx2_post_json i (VInt 5) (progress_world a d) = (Inr at, w') \<and>
    w_script w' = [] \<and> w_working w' = d\<lparr>attempts := attempts d @ [at]\<rparr> \<and> at_outcome at = ''succeeded'' \<and>
    w_env w' = w_env (progress_world a d) \<and> w_ticks w' = 5"
proof -
  let ?w = "progress_world a d"
  have clock: "dt_tz (e_utc_now (w_env ?w) (w_ticks ?w)) = Tz_offset 0" by (simp add: sample_env_def)
  have http: "outcome_of (e_http (w_env ?w) (w_ticks ?w + 2) (ep_target_url ep) (ev_payload ev)) = Some (Responded 200)"
    by (simp add: sample_env_def)
  have timeout: "check_post_timeout (VInt 5) = Inr ()" by code_simp
  have quiet: "w_script ?w = []" and event: "get_event i (w_working ?w) = Some ev"
    and endpoint: "get_endpoint (ev_endpoint_id ev) (w_working ?w) = Some ep"
    using assms(2,3) by simp_all
  obtain at w1 where run: "execute_webhook_delivery httpx2_post_json i (VInt 5) ?w =
      (case insert_attempt at (w_working ?w) of Inl x \<Rightarrow> (Inl x, w1) | Inr d \<Rightarrow> (Inr at, w1\<lparr>w_working := d\<rparr>))"
    and at: "at = completed_attempt (e_uuid4 (w_env ?w) (w_ticks ?w + 4))
      (prepared_for ev ep (max_attempt_number i (w_working ?w)))
      (dt_local (e_utc_now (w_env ?w) (w_ticks ?w)) - 0)
      (e_monotonic_ns (w_env ?w) (w_ticks ?w + 1)) (e_monotonic_ns (w_env ?w) (w_ticks ?w + 3)) (Responded 200)"
    and w1: "w1 = (emit (Http_post (ep_target_url ep) (ev_payload ev) (VInt 5)) ?w)\<lparr>w_ticks := w_ticks ?w + 5\<rparr>"
    by (rule delivery_explicit [OF quiet event endpoint assms(4) clock timeout http])
  have ev: "ev_id ev = i" "ev \<in> set (events d)" using get_event_Some [OF assms(2)] by simp_all
  have fields: "at_id at = a" "at_event_id at = i" "at_attempt_number at = next_attempt_number (max_attempt_number i d)"
    "at_outcome at = ''succeeded''" "at_target_url at = ep_target_url ep" "at_response_status_code at = Some 200"
    "at_error_message at = None" "at_duration_ms at = 6"
    by (simp_all add: at completed_attempt_def prepared_for_def ev sample_env_def)
  have "1 \<le> next_attempt_number (max_attempt_number i d)"
    using assms(1) by (auto simp: next_attempt_number_def split: option.split dest: max_attempt_number_pos)
  moreover have "varchar 2048 (ep_target_url ep)"
    using assms(1,3) by (auto simp: get_endpoint_def schema_ok_def endpoint_data_ok_def dest: lookup_by_Some)
  moreover have "attempt_key at \<notin> attempt_key ` set (attempts d)"
  proof
    assume "attempt_key at \<in> attempt_key ` set (attempts d)"
    then obtain b where "b \<in> set (attempts d)" "at_event_id b = i"
      "at_attempt_number b = next_attempt_number (max_attempt_number i d)"
      by (auto simp: attempt_key_def fields)
    then have n: "next_attempt_number (max_attempt_number i d) \<in> set (attempt_numbers i d)"
      by (force simp: attempt_numbers_def)
    then obtain m where "max_attempt_number i d = Some m"
      using max_attempt_number_None [of i d] by (cases "max_attempt_number i d") auto
    then show False using n max_attempt_number_Some [of i d m] by (auto simp: next_attempt_number_def)
  qed
  ultimately have "insert_attempt at d = Inr (d\<lparr>attempts := attempts d @ [at]\<rparr>)"
    using assms(5,6) ev
    by (auto simp: insert_attempt_Inr attempt_data_ok_def attempt_check_def fields varchar_def text_ok_def int4_def)
  then show ?thesis using run fields(4) by (intro exI [of _ at]) (simp add: w1)
qed

lemma execution_succeeds:
  assumes "schema_ok d" and "j \<in> set (jobs d)" and "job_status j = ''processing''"
    and "get_event (job_event_id j) d = Some ev" and "get_endpoint (ev_endpoint_id ev) d = Some ep"
    and "ep_is_active ep" and "a \<notin> at_id ` set (attempts d)"
    and "int4 (next_attempt_number (max_attempt_number (job_event_id j) d))" and "contiguous d"
    and "1 \<le> mx" and "int4 (job_attempt_count j + 1)"
  shows "\<exists>d' j'. system_step mx d d' \<and> j' \<in> set (jobs d') \<and> job_id j' = job_id j \<and> job_status j' = ''succeeded''"
proof -
  let ?w = "progress_world a d"
  obtain at w1 where del: "execute_webhook_delivery httpx2_post_json (job_event_id j) (VInt 5) ?w = (Inr at, w1)"
    and w1: "w_script w1 = []" "w_working w1 = d\<lparr>attempts := attempts d @ [at]\<rparr>" "w_env w1 = w_env ?w"
    and at: "at_outcome at = ''succeeded''"
    using delivery_succeeds [OF assms(1,4,5,6,7,8,9)] by blast
  have job: "job_id j \<in> job_id ` set (jobs d)" "0 \<le> job_attempt_count j"
    using assms(1,2) by (auto simp: schema_ok_def job_check_def split: if_splits)
  define j' where "j' = decided_job j (job_attempt_count j + 1)
    \<lparr>rd_status = ''succeeded'', rd_next_attempt_at = None\<rparr> sample_now"
  have ok: "schema_ok (w_working w1)"
  proof -
    have "world_inv history_kept schema_ok ?w" using assms(1) by (simp add: world_inv_def)
    from keeps_run [OF schema_delivery.keeps_delivery this del] show ?thesis by (simp add: world_inv_def)
  qed
  have upd: "update_job j j' (w_working w1) = Inr ((w_working w1)\<lparr>jobs := update_by job_id j' (jobs (w_working w1))\<rparr>)"
  proof (rule update_job_loaded [OF ok])
    show "j \<in> set (jobs (w_working w1))" using assms(2) by (simp add: w1)
    show "j' \<noteq> j" using assms(3) by (auto simp: j'_def decided_job_def dest: arg_cong [of _ _ job_status])
    show "job_data_ok j'"
      using assms(11) by (simp add: j'_def decided_job_def job_data_ok_def varchar_def text_ok_def)
    show "job_check j' = None"
      using job by (simp add: j'_def decided_job_def job_check_def job_statuses_def)
  qed (simp_all add: j'_def decided_job_def)
  have decide: "decide_webhook_retry ''succeeded'' (VInt (job_attempt_count j + 1)) (VDatetime (utc_datetime sample_now))
      (VInt mx) (VInt 5) (VInt 300) = Inr \<lparr>rd_status = ''succeeded'', rd_next_attempt_at = None\<rparr>"
  proof -
    have "300 * float_unit < float_limit" by (simp add: float_limit_def)
    then show ?thesis
      using job(2) assms(10) decide_table [of "''succeeded''" "job_attempt_count j + 1" mx "utc_datetime sample_now" 0
          "VInt 5" "VInt 300", OF _ _ _ _ sample_delays]
      by simp
  qed
  have instant: "decision_instant (utc_datetime sample_now) = Inr sample_now"
    by (simp add: decision_instant_def astimezone_utc_def instant_add_def) code_simp
  have settle: "settle_job (VInt mx) (VInt 5) (VInt 300) j at w1 =
      (Inr (j', at), w1\<lparr>w_ticks := Suc (w_ticks w1), w_working := (w_working w1)\<lparr>jobs := update_by job_id j' (jobs (w_working w1))\<rparr>\<rparr>)"
    using w1(1) upd decide instant
    by (simp add: settle_job_def Let_def bindE_def tick_def liftE_def w1(3) sample_env_def at j'_def [symmetric]
        flush_quiet returnE_def)
  have found: "get_job (job_id j) d = Some j"
    unfolding get_job_def by (rule lookup_by_in_distinct [OF schema_ok_job_distinct [OF assms(1)] assms(2)])
  have run: "execute_webhook_delivery_job httpx2_post_json (VInt 5) (VInt mx) (VInt 5) (VInt 300) (job_id j) ?w =
      (Inr (j', at), w1\<lparr>w_ticks := Suc (w_ticks w1), w_working := (w_working w1)\<lparr>jobs := update_by job_id j' (jobs (w_working w1))\<rparr>\<rparr>)"
    using found del settle assms(3) by (simp add: execute_webhook_delivery_job_def bindE_def query_quiet)
  let ?d' = "(w_working w1)\<lparr>jobs := update_by job_id j' (jobs (w_working w1))\<rparr>"
  have "system_step mx d ?d'"
  proof (rule sys_execute)
    show "leads_to (execute_webhook_delivery_job httpx2_post_json (VInt 5) (VInt mx) (VInt 5) (VInt 300) (job_id j)) d ?d'"
      using progress_leads_to [where m = "execute_webhook_delivery_job httpx2_post_json (VInt 5) (VInt mx) (VInt 5) (VInt 300) (job_id j)"
          and a = a and d = d] run by fastforce
  qed
  moreover have "j' \<in> set (jobs ?d')"
  proof -
    have "job_id j' \<in> job_id ` set (jobs d)" using job(1) by (simp add: j'_def decided_job_def)
    then show ?thesis
      using set_update_by_distinct [OF schema_ok_job_distinct [OF assms(1)], of j'] by (simp add: w1)
  qed
  moreover have "job_id j' = job_id j" "job_status j' = ''succeeded''" by (simp_all add: j'_def decided_job_def)
  ultimately show ?thesis by blast
qed

lemma claim_takes:
  assumes "schema_ok d" and "j \<in> set (jobs d)" and "due_job t j" and "datetime_in_range t"
    and "limit_ok (int (length (jobs d)) + 1)"
  shows "\<exists>d'. system_step mx d d' \<and> mark_processing t j \<in> set (jobs d') \<and> (\<exists>js. d' = d\<lparr>jobs := js\<rparr>)"
proof -
  let ?n = "int (length (jobs d)) + 1" and ?w = "progress_world 0 d" and ?at = "VDatetime (utc_datetime t)"
  have limit: "validate_claim_limit (VInt ?n) = Inr ?n" by (simp add: validate_claim_limit_Inr)
  have at: "normalize_claimed_at ?at = Inr t" using assms(4) by (simp add: normalize_claimed_at_def)
  define js where "js = claiming.batch t (nat ?n) [] d"
  have "length js \<le> length (filter (due_job t) (jobs d))"
    by (simp add: js_def claiming.batch_def select_ordered_length_eq)
  then have "length js < nat ?n" using length_filter_le [of "due_job t" "jobs d"] by linarith
  then have j: "j \<in> set js"
    unfolding js_def by (rule claiming.batch_all) (use assms(2,3) in simp_all)
  have "claim_due_webhook_delivery_jobs ?at (VInt ?n) ?w =
      (Inr (map (mark_processing t) js), ?w\<lparr>w_working := touched (mark_processing t) (set js) d\<rparr>)"
    using claim_run [OF limit at assms(5), of ?w] assms(1) by (simp add: Let_def js_def)
  then have "leads_to (claim_due_webhook_delivery_jobs ?at (VInt ?n)) d (touched (mark_processing t) (set js) d)"
    using progress_leads_to [where m = "claim_due_webhook_delivery_jobs ?at (VInt ?n)" and a = 0 and d = d] by fastforce
  then have "system_step mx d (touched (mark_processing t) (set js) d)" by (rule sys_claim)
  then show ?thesis using j assms(2) by (auto simp: touched_def)
qed

text \<open>
  C6: No dead ends. In every reachable state, a job that is pending or processing can still be delivered:
  when its endpoint is active there is a sequence of service calls (a claim at its due time if it is
  pending, and one execution answered by 200) that ends in a reachable state where it has succeeded. The
  other hypotheses are capacity: the due time is a datetime, an identifier for the attempt is left, and
  the attempt number, the retry limit and the claim limit fit their integer types.
\<close>

theorem jobs_can_finish:
  assumes "reachable_db mx d" and "1 \<le> mx" and "int4 mx" and "j \<in> set (jobs d)"
    and "job_status j \<in> {''pending'', ''processing''}"
    and "get_event (job_event_id j) d = Some ev" and "get_endpoint (ev_endpoint_id ev) d = Some ep" and "ep_is_active ep"
    and "\<forall>t. job_next_attempt_at j = Some t \<longrightarrow> datetime_in_range t"
    and "a \<notin> at_id ` set (attempts d)" and "int4 (next_attempt_number (max_attempt_number (job_event_id j) d))"
    and "limit_ok (int (length (jobs d)) + 1)"
  shows "\<exists>d' j'. (system_step mx)\<^sup>*\<^sup>* d d' \<and> reachable_db mx d' \<and> j' \<in> set (jobs d') \<and> job_id j' = job_id j \<and>
    job_status j' = ''succeeded''"
proof -
  have ok: "schema_ok d" "contiguous d" "accounted mx d" using reachable_ok [OF assms(1,2)] by simp_all
  have "within_budget mx j" using ok(3) assms(4) by (simp add: accounted_def)
  then have budget: "0 \<le> job_attempt_count j" "job_attempt_count j < mx" "job_next_attempt_at j \<noteq> None"
    using assms(5) by (auto simp: within_budget_def active_def)
  then have count: "int4 (job_attempt_count j + 1)" using assms(3) by (auto simp: int4_def)
  obtain d1 j1 where d1: "(system_step mx)\<^sup>*\<^sup>* d d1" "j1 \<in> set (jobs d1)" "job_status j1 = ''processing''"
    and same: "job_id j1 = job_id j" "job_event_id j1 = job_event_id j" "job_attempt_count j1 = job_attempt_count j"
    and tables: "\<exists>js. d1 = d\<lparr>jobs := js\<rparr>"
  proof (cases "job_status j = ''processing''")
    case True
    have "d = d\<lparr>jobs := jobs d\<rparr>" by simp
    then show thesis using True assms(4) that [of d j] by blast
  next
    case False
    then obtain t where t: "job_next_attempt_at j = Some t" "due_job t j"
      using assms(5) budget(3) by (auto simp: due_job_def)
    obtain d' where d': "system_step mx d d'" "mark_processing t j \<in> set (jobs d')" "\<exists>js. d' = d\<lparr>jobs := js\<rparr>"
      using claim_takes [OF ok(1) assms(4) t(2) _ assms(12)] t(1) assms(9) by blast
    show thesis
      by (rule that [of d' "mark_processing t j"]) (use d' in \<open>auto simp: mark_processing_def\<close>)
  qed
  have reach1: "reachable_db mx d1" using assms(1) d1(1) by (simp add: reachable_db_def)
  then have ok1: "schema_ok d1" "contiguous d1" using reachable_ok assms(2) by blast+
  obtain js where js: "d1 = d\<lparr>jobs := js\<rparr>" using tables by blast
  have event: "get_event (job_event_id j1) d1 = Some ev" "get_endpoint (ev_endpoint_id ev) d1 = Some ep"
    and ident: "a \<notin> at_id ` set (attempts d1)"
    and number: "int4 (next_attempt_number (max_attempt_number (job_event_id j1) d1))"
    using assms(6,7,10,11) same(2)
    by (simp_all add: js get_event_def get_endpoint_def max_attempt_number_def attempt_numbers_def)
  obtain d' j' where step: "system_step mx d1 d'" and j': "j' \<in> set (jobs d')" "job_id j' = job_id j1" "job_status j' = ''succeeded''"
    using execution_succeeds [OF ok1(1) d1(2,3) event assms(8) ident number ok1(2) assms(2)] count same(3) by auto
  show ?thesis
    using j' same(1) rtranclp.rtrancl_into_rtrancl [OF d1(1) step] reachable_db_step [OF reach1 step] by auto
qed

lemma sample_claimed:
  "map (\<lambda>j. (job_id j, job_event_id j, job_status j)) (jobs sample_claimed_db) = [(102, 100, ''processing'')]"
  "list_all (\<lambda>j. case job_next_attempt_at j of None \<Rightarrow> True | Some t \<Rightarrow> datetime_in_range t) (jobs sample_claimed_db)"
  "map_option ev_endpoint_id (get_event 100 sample_claimed_db) = Some 1"
  "map_option ep_is_active (get_endpoint 1 sample_claimed_db) = Some True"
  "attempts sample_claimed_db = []"
  by code_simp+

theorem jobs_can_finish_witness:
  "\<exists>d' j'. (system_step 1)\<^sup>*\<^sup>* sample_claimed_db d' \<and> j' \<in> set (jobs d') \<and> job_id j' = 102 \<and> job_status j' = ''succeeded''"
proof -
  obtain j where j: "jobs sample_claimed_db = [j]" "job_id j = 102" "job_event_id j = 100" "job_status j = ''processing''"
    using sample_claimed(1) by auto
  obtain ev where ev: "get_event 100 sample_claimed_db = Some ev" "ev_endpoint_id ev = 1" using sample_claimed(3) by auto
  obtain ep where ep: "get_endpoint 1 sample_claimed_db = Some ep" "ep_is_active ep" using sample_claimed(4) by auto
  have "max_attempt_number 100 sample_claimed_db = None"
    by (simp add: max_attempt_number_None attempt_numbers_def sample_claimed(5))
  then show ?thesis
    using jobs_can_finish [OF sample_reachable(1), of j ev ep 0] j ev ep sample_claimed(2,5)
    by (auto simp: int4_def next_attempt_number_def limit_ok_def split: option.splits)
qed

end
