(* ===== verification/Cursor.thy ===== *)
theory Cursor
  imports Session_Rules
begin

text \<open>
  The cursor of \<open>delivery_job_query_service.py\<close>: the position after the last item of a page, with the
  status filter of the list, as the base64 form of a JSON object. The lemmas follow the text through
  the writer and the reader; the property is the round trip, and that a cursor is bound to its filter.
\<close>

section \<open>Snapshots and statuses\<close>

definition cursor_version :: int where
  "cursor_version = 1"

definition cursor_fields :: "unicode list" where
  "cursor_fields = [codes ''v'', codes ''updated_at'', codes ''id'', codes ''status'']"

record delivery_job_snapshot =
  js_id :: uuid
  js_event_id :: uuid
  js_status :: string
  js_attempt_count :: int
  js_next_attempt_at :: "instant option"
  js_created_at :: instant
  js_updated_at :: instant

definition validate_job_status :: "string option \<Rightarrow> exc + string option" where
  "validate_job_status status =
     (case status of
        None \<Rightarrow> Inr None
      | Some s \<Rightarrow>
          if s \<in> set job_statuses then Inr (Some s)
          else Inl WebhookDeliveryJobStatusValidationError)"

section \<open>The cursor\<close>

text \<open>\<open>isoformat\<close> of the UTC datetime with its offset written as Z.\<close>

definition format_cursor_timestamp :: "instant \<Rightarrow> unicode" where
  "format_cursor_timestamp t = replace_all (codes ''+00:00'') (codes ''Z'') (isoformat_utc t)"

text \<open>\<open>json.dumps(..., ensure_ascii=False, separators=(",", ":"))\<close> of an object of scalars.\<close>

definition dump_char :: "nat \<Rightarrow> unicode" where
  "dump_char c =
     (if c = 34 then [92, 34] else if c = 92 then [92, 92]
      else if c = 10 then [92, 110] else if c = 13 then [92, 114] else if c = 9 then [92, 116]
      else if c = 12 then [92, 102] else if c = 8 then [92, 98]
      else if c < 32 then [92, 117, 48, 48, hex_char (c div 16), hex_char (c mod 16)]
      else [c])"

definition dump_string :: "unicode \<Rightarrow> unicode" where
  "dump_string s = [34] @ concat (map dump_char s) @ [34]"

fun dump_scalar :: "jval \<Rightarrow> unicode" where
  "dump_scalar PNull = codes ''null''"
| "dump_scalar (PBool b) = (if b then codes ''true'' else codes ''false'')"
| "dump_scalar (PInt n) = codes (show_int n)"
| "dump_scalar (PStr s) = dump_string s"
| "dump_scalar _ = []"

fun dump_members :: "(unicode \<times> jval) list \<Rightarrow> unicode" where
  "dump_members [] = []"
| "dump_members [(k, v)] = dump_string k @ [58] @ dump_scalar v"
| "dump_members ((k, v) # kvs) = dump_string k @ [58] @ dump_scalar v @ [44] @ dump_members kvs"

text \<open>\<open>encode("utf-8")\<close>\<close>

definition utf8_char :: "nat \<Rightarrow> nat list" where
  "utf8_char c =
     (if c < 128 then [c]
      else if c < 2048 then [192 + c div 64, 128 + c mod 64]
      else if c < 65536 then [224 + c div 4096, 128 + c div 64 mod 64, 128 + c mod 64]
      else [240 + c div 262144, 128 + c div 4096 mod 64, 128 + c div 64 mod 64, 128 + c mod 64])"

definition cursor_payload :: "instant \<Rightarrow> uuid \<Rightarrow> string option \<Rightarrow> (unicode \<times> jval) list" where
  "cursor_payload updated_at i status =
     [(codes ''id'', PStr (uuid_str i)),
      (codes ''status'', case status of None \<Rightarrow> PNull | Some s \<Rightarrow> PStr (codes s)),
      (codes ''updated_at'', PStr (format_cursor_timestamp updated_at)),
      (codes ''v'', PInt cursor_version)]"

definition encode_cursor :: "delivery_job_snapshot \<Rightarrow> string option \<Rightarrow> unicode" where
  "encode_cursor snap status =
     (let serialized = [123] @ dump_members (cursor_payload (js_updated_at snap) (js_id snap) status) @ [125] in
      rstrip_pad (urlsafe_b64encode (concat (map utf8_char serialized))))"

definition value_error :: exc where
  "value_error = ValueError ''''"

text \<open>The status of the payload: a value that cannot be hashed is a TypeError.\<close>

definition payload_status :: "jval \<Rightarrow> exc + unicode option" where
  "payload_status v =
     (case v of
        PNull \<Rightarrow> Inr None
      | PStr s \<Rightarrow> if s \<in> codes ` set job_statuses then Inr (Some s) else Inl value_error
      | PArr _ \<Rightarrow> Inl (TypeError ''unhashable type'')
      | PObj _ \<Rightarrow> Inl (TypeError ''unhashable type'')
      | _ \<Rightarrow> Inl value_error)"

definition payload_timestamp :: "unicode \<Rightarrow> unicode" where
  "payload_timestamp s = (if s \<noteq> [] \<and> last s = 90 then butlast s @ codes ''+00:00'' else s)"

definition payload_position :: "env \<Rightarrow> unicode \<Rightarrow> unicode \<Rightarrow> exc + instant \<times> uuid" where
  "payload_position e updated_at_text id_text =
     bindR (fromisoformat (e_fromisoformat e) (payload_timestamp updated_at_text)) (\<lambda>updated_at.
     (case dt_tz updated_at of
        Tz_offset off \<Rightarrow>
          bindR (astimezone_utc updated_at off) (\<lambda>t.
          bindR (parse_uuid (e_uuid_text e) id_text) (\<lambda>i. Inr (t, i)))
      | _ \<Rightarrow> Inl value_error))"

definition check_payload :: "env \<Rightarrow> string option \<Rightarrow> jval \<Rightarrow> exc + instant \<times> uuid" where
  "check_payload e status payload =
     (case payload of
        PObj kvs \<Rightarrow>
          if set (map fst kvs) \<noteq> set cursor_fields then Inl value_error
          else
            (case (member kvs (codes ''v''), member kvs (codes ''updated_at''), member kvs (codes ''id''),
                   member kvs (codes ''status'')) of
               (Some (PInt v), Some (PStr updated_at), Some (PStr i), Some st) \<Rightarrow>
                 if v \<noteq> cursor_version then Inl value_error
                 else
                   bindR (payload_status st) (\<lambda>cursor_status.
                   if cursor_status \<noteq> map_option codes status then Inl value_error
                   else payload_position e updated_at i)
             | _ \<Rightarrow> Inl value_error)
      | _ \<Rightarrow> Inl value_error)"

definition decode_cursor_payload :: "env \<Rightarrow> unicode \<Rightarrow> string option \<Rightarrow> exc + instant \<times> uuid" where
  "decode_cursor_payload e cursor status =
     (if cursor = [] then Inl value_error
      else if \<not> ascii (pad_cursor cursor) then Inl (ValueError ''UnicodeEncodeError'')
      else
        bindR (b64decode (pad_cursor cursor)) (\<lambda>decoded.
        bindR (utf8_decode decoded) (\<lambda>txt.
        bindR (json_loads (e_json_depth e) txt) (check_payload e status))))"

fun cursor_error :: "exc \<Rightarrow> bool" where
  "cursor_error (ValueError _) = True"
| "cursor_error (TypeError _) = True"
| "cursor_error (OverflowError _) = True"
| "cursor_error _ = False"

definition decode_cursor :: "env \<Rightarrow> unicode \<Rightarrow> string option \<Rightarrow> exc + instant \<times> uuid" where
  "decode_cursor e cursor status =
     (case decode_cursor_payload e cursor status of
        Inl err \<Rightarrow> Inl (if cursor_error err then WebhookDeliveryJobCursorValidationError else err)
      | Inr p \<Rightarrow> Inr p)"

section \<open>Through the writer and the reader\<close>

text \<open>Text without quotes, backslashes and control characters is written as it is and read back.\<close>

definition plain :: "unicode \<Rightarrow> bool" where
  "plain s \<longleftrightarrow> (\<forall>c \<in> set s. 32 \<le> c \<and> c < 128 \<and> c \<noteq> 34 \<and> c \<noteq> 92)"

lemma plain_simps [simp]:
  "plain []" "plain (c # s) \<longleftrightarrow> 32 \<le> c \<and> c < 128 \<and> c \<noteq> 34 \<and> c \<noteq> 92 \<and> plain s"
  "plain (s @ t) \<longleftrightarrow> plain s \<and> plain t"
  by (auto simp: plain_def)

lemma dump_string_plain: "plain s \<Longrightarrow> dump_string s = 34 # s @ [34]"
  unfolding dump_string_def by (induction s) (auto simp: dump_char_def)

lemma lex_string_plain: "plain s \<Longrightarrow> lex_string (s @ 34 # rest) = Some (s, rest)"
  by (induction s) (simp_all add: lex_string.simps)

lemma tokens_string: "plain s \<Longrightarrow> tokens (34 # s @ 34 # rest) = Scalar (PStr s) # tokens rest"
  by (subst tokens.simps) (simp add: json_space_def lex_token_def punctuation_def lex_string_plain)

lemma tokens_punctuation: "punctuation c = Some t \<Longrightarrow> tokens (c # rest) = t # tokens rest"
  by (subst tokens.simps) (auto simp: json_space_def lex_token_def punctuation_def split: if_splits)

lemma tokens_null: "tokens (codes ''null'' @ rest) = Scalar PNull # tokens rest"
  by (subst tokens.simps) (simp add: json_space_def lex_token_def punctuation_def json_constants_def numeral_eq_Suc)

lemma tokens_one: "tokens [49, 125] = [Scalar (PInt 1), Close_object]"
proof -
  have "tokens [] = []" by (subst tokens.simps) simp
  then have close: "tokens [125] = [Close_object]" by (simp add: tokens_punctuation punctuation_def)
  have "lex_token [49, 125] = Some (Scalar (PInt 1), [125])"
    by (simp add: lex_token_def punctuation_def json_constants_def lex_number_def lex_integer_def lex_digits_def
        digit_def lex_fraction_def lex_exponent_def digits_value_def)
  then show ?thesis using close by (subst tokens.simps) (simp add: json_space_def)
qed

lemma iso_plain: "plain (isoformat_utc t)" "43 \<notin> set (iso_local n)"
proof -
  have digits: "plain (padded w n) \<and> 43 \<notin> set (padded w n)" for w n
    using padded_digits [of w n] by (fastforce simp: plain_def digit_def)
  obtain y m d where "ymd_of_days (nat t div 86400000000) = (y, m, d)"
    by (cases "ymd_of_days (nat t div 86400000000)")
  then show "plain (isoformat_utc t)"
    by (simp add: isoformat_utc_def iso_local_def Let_def digits)
  obtain y m d where "ymd_of_days (n div 86400000000) = (y, m, d)"
    by (cases "ymd_of_days (n div 86400000000)")
  then show "43 \<notin> set (iso_local n)"
    by (simp add: iso_local_def Let_def digits)
qed

text \<open>The timestamp of a cursor ends in Z, and reading it puts the offset back.\<close>

lemma format_cursor_timestamp_eq: "format_cursor_timestamp t = iso_local (nat t) @ [90]"
  unfolding format_cursor_timestamp_def isoformat_utc_def
  by (subst replace_all_suffix) (simp_all add: iso_plain(2))

lemma payload_timestamp_format: "payload_timestamp (format_cursor_timestamp t) = isoformat_utc t"
  by (simp add: payload_timestamp_def format_cursor_timestamp_eq isoformat_utc_def)

lemma uuid_plain: "plain (uuid_str u)"
proof -
  have "32 \<le> c \<and> c < 128 \<and> c \<noteq> 34 \<and> c \<noteq> 92" if "c \<in> set (uuid_str u)" for c
  proof -
    have "c = 45 \<or> c \<in> set (uuid_hex u)" using that uuid_str_parts(1) [of u] by blast
    then show ?thesis
    proof
      assume "c \<in> set (uuid_hex u)"
      then show ?thesis
        using lower_hex_in [OF hex_written_lower, of c 32 "unat u"] by (auto simp: uuid_hex_def digit_def)
    qed simp
  qed
  then show ?thesis by (simp add: plain_def)
qed

lemma timestamp_plain: "plain (format_cursor_timestamp t)"
  using iso_plain(1) [of t] by (simp add: format_cursor_timestamp_eq isoformat_utc_def)

definition status_value :: "string option \<Rightarrow> jval" where
  "status_value status = (case status of None \<Rightarrow> PNull | Some s \<Rightarrow> PStr (codes s))"

definition known_status :: "string option \<Rightarrow> bool" where
  "known_status status \<longleftrightarrow> status \<in> insert None (Some ` set job_statuses)"

lemma known_status_plain: "known_status (Some s) \<Longrightarrow> plain (codes s)"
  by (auto simp: known_status_def job_statuses_def)

lemma show_int_1 [simp]: "show_int 1 = ''1''"
  by code_simp

text \<open>The serialized payload, its bytes and its tokens.\<close>

definition payload_text :: "instant \<Rightarrow> uuid \<Rightarrow> string option \<Rightarrow> unicode" where
  "payload_text t i status = [123] @ dump_members (cursor_payload t i status) @ [125]"

lemma payload_text_eq:
  assumes "known_status status"
  shows "payload_text t i status =
    123 # 34 # codes ''id'' @ 34 # 58 # 34 # uuid_str i @ 34 # 44 # 34 # codes ''status'' @ 34 # 58 #
      (case status of None \<Rightarrow> codes ''null'' | Some s \<Rightarrow> 34 # codes s @ [34]) @
      44 # 34 # codes ''updated_at'' @ 34 # 58 # 34 # format_cursor_timestamp t @ 34 # 44 # 34 # codes ''v'' @ 34 # 58 # [49, 125]"
proof -
  have keys: "plain (codes ''id'')" "plain (codes ''status'')" "plain (codes ''updated_at'')" "plain (codes ''v'')"
    by simp_all
  note dumps = keys [THEN dump_string_plain] dump_string_plain [OF uuid_plain] dump_string_plain [OF timestamp_plain]
  show ?thesis
  proof (cases status)
    case None
    then show ?thesis
      unfolding payload_text_def cursor_payload_def None option.case dump_members.simps dump_scalar.simps dumps
        cursor_version_def show_int_1 by simp
  next
    case (Some s)
    have "dump_string (codes s) = 34 # codes s @ [34]"
      using assms Some by (intro dump_string_plain known_status_plain) simp
    then show ?thesis
      unfolding payload_text_def cursor_payload_def Some option.case dump_members.simps dump_scalar.simps dumps
        cursor_version_def show_int_1 by simp
  qed
qed

lemma payload_tokens:
  assumes "known_status status"
  shows "tokens (payload_text t i status) =
    [Open_object, Scalar (PStr (codes ''id'')), Colon, Scalar (PStr (uuid_str i)), Comma,
     Scalar (PStr (codes ''status'')), Colon, Scalar (status_value status), Comma,
     Scalar (PStr (codes ''updated_at'')), Colon, Scalar (PStr (format_cursor_timestamp t)), Comma,
     Scalar (PStr (codes ''v'')), Colon, Scalar (PInt 1), Close_object]"
proof -
  have keys: "plain (codes ''id'')" "plain (codes ''status'')" "plain (codes ''updated_at'')" "plain (codes ''v'')"
    by simp_all
  have punct: "tokens (123 # r) = Open_object # tokens r" "tokens (58 # r) = Colon # tokens r"
    "tokens (44 # r) = Comma # tokens r" for r
    by (rule tokens_punctuation, simp add: punctuation_def)+
  have status: "tokens ((case status of None \<Rightarrow> codes ''null'' | Some s \<Rightarrow> 34 # codes s @ [34]) @ r) =
      Scalar (status_value status) # tokens r" for r
  proof (cases status)
    case None
    then show ?thesis using tokens_null [of r] by (simp add: status_value_def)
  next
    case (Some s)
    then show ?thesis using tokens_string [OF known_status_plain, of s r] assms by (simp add: status_value_def)
  qed
  show ?thesis
    unfolding payload_text_eq [OF assms]
    by (simp only: punct status tokens_string [OF keys(1)] tokens_string [OF keys(2)] tokens_string [OF keys(3)]
        tokens_string [OF keys(4)] tokens_string [OF uuid_plain] tokens_string [OF timestamp_plain] tokens_one)
qed

lemma payload_loads:
  assumes "known_status status" and "1 \<le> lim"
  shows "json_loads lim (payload_text t i status) =
    Inr (PObj [(codes ''id'', PStr (uuid_str i)), (codes ''status'', status_value status),
      (codes ''updated_at'', PStr (format_cursor_timestamp t)), (codes ''v'', PInt 1)])"
  using assms(2) unfolding json_loads_def payload_tokens [OF assms(1)] by (simp del: codes_simps)

text \<open>The text is ASCII, so it is its own UTF-8 form, and base64 carries it.\<close>

lemma plain_ascii: "plain s \<Longrightarrow> ascii s"
  by (simp add: plain_def ascii_def)

lemma utf8_ascii_id: "ascii s \<Longrightarrow> concat (map utf8_char s) = s"
  by (induction s) (simp_all add: ascii_def utf8_char_def)

lemma payload_ascii:
  assumes "known_status status"
  shows "ascii (payload_text t i status)"
proof -
  have "ascii (case status of None \<Rightarrow> codes ''null'' | Some s \<Rightarrow> 34 # codes s @ [34])"
    using assms known_status_plain plain_ascii by (cases status) (auto simp: ascii_def)
  then show ?thesis
    using plain_ascii [OF uuid_plain [of i]] plain_ascii [OF timestamp_plain [of t]]
    unfolding payload_text_eq [OF assms] by (simp add: ascii_def ball_Un)
qed

lemma b64_char_ascii: "v < 64 \<Longrightarrow> b64_char v < 128"
  unfolding b64_char_def by (simp split: if_splits) linarith

lemma encoded_ascii:
  assumes "\<forall>b \<in> set bytes. b < 256"
  shows "ascii (pad_cursor (rstrip_pad (urlsafe_b64encode bytes)))"
  using b64_sextets_small [OF assms] b64_char_ascii
  by (auto simp: ascii_def pad_cursor_def rstrip_encoded b64_pad_def)

lemma encoded_nonempty:
  "bytes \<noteq> [] \<Longrightarrow> rstrip_pad (urlsafe_b64encode bytes) \<noteq> []"
  unfolding rstrip_encoded by (cases bytes rule: b64_sextets.cases) simp_all

lemma encode_cursor_eq:
  assumes "known_status status"
  shows "encode_cursor snap status =
    rstrip_pad (urlsafe_b64encode (payload_text (js_updated_at snap) (js_id snap) status))"
  unfolding encode_cursor_def Let_def payload_text_def [symmetric] utf8_ascii_id [OF payload_ascii [OF assms]] ..

lemma decode_encoded:
  assumes "known_status status"
  shows "decode_cursor_payload e (encode_cursor snap status) status' =
    bindR (json_loads (e_json_depth e) (payload_text (js_updated_at snap) (js_id snap) status)) (check_payload e status')"
proof -
  let ?b = "payload_text (js_updated_at snap) (js_id snap) status"
  have ascii: "ascii ?b" by (rule payload_ascii [OF assms])
  then have bytes: "\<forall>b \<in> set ?b. b < 256" by (force simp: ascii_def)
  have ne: "?b \<noteq> []" by (simp add: payload_text_def)
  show ?thesis
    unfolding decode_cursor_payload_def encode_cursor_eq [OF assms]
    by (simp add: encoded_nonempty [OF ne] encoded_ascii [OF bytes] base64_cursor.round_trip [OF bytes]
        utf8_ascii.round_trip [OF ascii])
qed

lemma payload_status_value:
  "known_status status \<Longrightarrow> payload_status (status_value status) = Inr (map_option codes status)"
  by (auto simp: payload_status_def status_value_def known_status_def)

lemma codes_inj: "codes s = codes s' \<longleftrightarrow> s = s'"
  by (simp add: codes_def inj_map_eq_map inj_on_def)

lemma option_codes_inj: "map_option codes a = map_option codes b \<longleftrightarrow> a = b"
  by (cases a; cases b) (simp_all add: codes_inj)

lemma payload_position_written:
  assumes "datetime_in_range t"
  shows "payload_position e (format_cursor_timestamp t) (uuid_str i) = Inr (t, i)"
  using assms
  by (simp add: payload_position_def payload_timestamp_format fromisoformat_iso parse_uuid_str utc_datetime_def
      astimezone_utc_def instant_add_def)

lemma member_payload:
  "member [(codes ''id'', a), (codes ''status'', b), (codes ''updated_at'', c), (codes ''v'', d)] (codes ''id'') = Some a"
  "member [(codes ''id'', a), (codes ''status'', b), (codes ''updated_at'', c), (codes ''v'', d)] (codes ''status'') = Some b"
  "member [(codes ''id'', a), (codes ''status'', b), (codes ''updated_at'', c), (codes ''v'', d)] (codes ''updated_at'') = Some c"
  "member [(codes ''id'', a), (codes ''status'', b), (codes ''updated_at'', c), (codes ''v'', d)] (codes ''v'') = Some d"
  by (simp_all add: member_def)

lemma check_written:
  assumes "datetime_in_range t" and "known_status status"
  shows "check_payload e status' (PObj [(codes ''id'', PStr (uuid_str i)), (codes ''status'', status_value status),
      (codes ''updated_at'', PStr (format_cursor_timestamp t)), (codes ''v'', PInt 1)]) =
    (if status' = status then Inr (t, i) else Inl value_error)"
proof -
  have fields: "set (map fst [(codes ''id'', PStr (uuid_str i)), (codes ''status'', status_value status),
      (codes ''updated_at'', PStr (format_cursor_timestamp t)), (codes ''v'', PInt 1)]) = set cursor_fields"
    unfolding cursor_fields_def by auto
  show ?thesis
    unfolding check_payload_def jval.case fields member_payload
    by (simp add: cursor_version_def payload_status_value [OF assms(2)] option_codes_inj
        payload_position_written [OF assms(1)])
qed

lemma decode_encode_cursor:
  assumes "datetime_in_range (js_updated_at snap)" and "known_status status" and "1 \<le> e_json_depth e"
  shows "decode_cursor e (encode_cursor snap status) status' =
    (if status' = status then Inr (js_updated_at snap, js_id snap) else Inl WebhookDeliveryJobCursorValidationError)"
  unfolding decode_cursor_def decode_encoded [OF assms(2)] payload_loads [OF assms(2,3)] bindR_simps
    check_written [OF assms(1,2)]
  by (simp add: value_error_def)

text \<open>
  C14: The cursor round trip. The cursor written for the last item of a page reads back, with the same
  status filter, as exactly the update time and the identifier of that item: the text passes through
  the JSON writer, UTF-8, the URL-safe base64 alphabet without its padding, and the readers of each,
  and the timestamp keeps its microseconds. With any other filter it is refused.
\<close>

theorem cursor_round_trip:
  assumes "datetime_in_range (js_updated_at snap)" and "known_status status" and "1 \<le> e_json_depth e"
  shows "decode_cursor e (encode_cursor snap status) status' =
    (if status' = status then Inr (js_updated_at snap, js_id snap) else Inl WebhookDeliveryJobCursorValidationError)"
  by (rule decode_encode_cursor [OF assms])

section \<open>What decoding raises\<close>

lemma tokens_open: "tokens (replicate n 91) = replicate n Open_array"
proof (induction n)
  case 0
  show ?case by (subst tokens.simps) simp
next
  case (Suc n)
  then show ?case by (simp add: tokens_punctuation punctuation_def)
qed

lemma json_run_open:
  assumes "m = Want_value \<or> m = Want_first_value" and "length fs \<le> lim" and "lim < length fs + n"
  shows "json_run lim m fs (replicate n Open_array) = Inl RecursionError"
  using assms
proof (induction n arbitrary: m fs)
  case (Suc n)
  show ?case
  proof (cases "lim \<le> length fs")
    case True
    then show ?thesis using Suc.prems(1) by auto
  next
    case False
    then have "json_run lim Want_first_value (In_array [] # fs) (replicate n Open_array) = Inl RecursionError"
      using Suc.prems by (intro Suc.IH) simp_all
    then show ?thesis using False Suc.prems(1) by auto
  qed
qed simp

lemma nested_payload:
  assumes "e_json_depth e < n"
  shows "decode_cursor_payload e (rstrip_pad (urlsafe_b64encode (replicate n 91))) status = Inl RecursionError"
proof -
  have bytes: "\<forall>b \<in> set (replicate n (91::nat)). b < 256" and ascii: "ascii (replicate n 91)"
    and ne: "replicate n (91::nat) \<noteq> []"
    using assms by (simp_all add: ascii_def)
  have "json_loads (e_json_depth e) (replicate n 91) = Inl RecursionError"
    unfolding json_loads_def tokens_open by (rule json_run_open) (use assms in simp_all)
  then show ?thesis
    unfolding decode_cursor_payload_def
    by (simp add: encoded_nonempty [OF ne] encoded_ascii [OF bytes] base64_cursor.round_trip [OF bytes]
        utf8_ascii.round_trip [OF ascii] del: replicate_eq_replicate)
qed

lemma json_run_errors: "json_run lim m fs ts = Inl err \<Longrightarrow> err = json_error \<or> err = RecursionError"
  by (induction lim m fs ts rule: json_run.induct)
    (auto split: tok.splits jval.splits if_splits json_mode.splits list.splits frame.splits)

lemma map_sum_Inl: "map_sum id f r = Inl err \<longleftrightarrow> r = Inl err"
  by (cases r) simp_all

lemma utf8_decode_errors: "utf8_decode bs = Inl err \<Longrightarrow> err = utf8_error"
proof (induction bs rule: utf8_decode.induct)
  case (2 a bs)
  consider "a < 128" | "194 \<le> a" "a < 224" | "224 \<le> a" "a < 240" | "240 \<le> a" "a < 245"
    | "128 \<le> a" "a < 194" | "245 \<le> a"
    by linarith
  then show ?case
  proof cases
    case 2
    then show ?thesis
      using "2.IH"(2) "2.prems" by (cases bs) (simp_all add: map_sum_Inl split: if_split_asm)
  next
    case 3
    then show ?thesis
      using "2.IH"(3) "2.prems"
      by (cases bs; cases "tl bs") (simp_all add: map_sum_Inl split: if_split_asm)
  next
    case 4
    then show ?thesis
      using "2.IH"(4) "2.prems"
      by (cases bs; cases "tl bs"; cases "tl (tl bs)") (simp_all add: map_sum_Inl split: if_split_asm)
  qed (use "2.IH"(1) "2.prems" in \<open>simp_all add: map_sum_Inl\<close>)
qed simp

lemma if_if_Inl: "(if P then Inl a else if Q then Inl a else Inr x) = Inl b \<Longrightarrow> b = a"
  by (simp split: if_split_asm)

lemma b64decode_errors: "b64decode s = Inl err \<Longrightarrow> err = b64_error"
  unfolding b64decode_def Let_def by (erule if_if_Inl)

text \<open>What the answers of the library, outside the texts \<open>Py_Iso\<close> settles, may raise.\<close>

definition documented_errors :: "env \<Rightarrow> bool" where
  "documented_errors e \<longleftrightarrow>
     (\<forall>s err. e_fromisoformat e s = Inl err \<longrightarrow> cursor_error err) \<and>
     (\<forall>s err. e_uuid_text e s = Inl err \<longrightarrow> cursor_error err)"

lemma cursor_errors [simp]:
  "cursor_error json_error" "cursor_error utf8_error" "cursor_error b64_error" "cursor_error value_error"
  "cursor_error uuid_error"
  by (simp_all add: json_error_def utf8_error_def b64_error_def value_error_def uuid_error_def)

lemma payload_status_errors: "payload_status v = Inl err \<Longrightarrow> cursor_error err"
  by (auto simp: payload_status_def split: jval.splits if_splits)

lemma fromisoformat_errors:
  "documented_errors e \<Longrightarrow> fromisoformat (e_fromisoformat e) s = Inl err \<Longrightarrow> cursor_error err"
  by (auto simp: documented_errors_def fromisoformat_def Let_def split: if_splits)

lemma parse_uuid_errors:
  "documented_errors e \<Longrightarrow> parse_uuid (e_uuid_text e) s = Inl err \<Longrightarrow> cursor_error err"
  by (auto simp: documented_errors_def parse_uuid_def Let_def split: if_splits option.splits)

lemma astimezone_errors: "astimezone_utc d off = Inl err \<Longrightarrow> cursor_error err"
  by (auto simp: astimezone_utc_def instant_add_def split: if_splits)

lemma payload_position_errors:
  assumes "documented_errors e" and "payload_position e t i = Inl err"
  shows "cursor_error err"
proof (cases "fromisoformat (e_fromisoformat e) (payload_timestamp t)")
  case (Inl err')
  then show ?thesis using assms fromisoformat_errors by (auto simp: payload_position_def)
next
  case (Inr updated_at)
  show ?thesis
  proof (cases "dt_tz updated_at")
    case (Tz_offset off)
    then show ?thesis
      using assms(2) Inr astimezone_errors parse_uuid_errors [OF assms(1)]
      by (auto simp: payload_position_def bindR_eq_Inl)
  qed (use assms(2) Inr in \<open>auto simp: payload_position_def\<close>)
qed

lemma check_payload_errors:
  assumes "documented_errors e" and "check_payload e status v = Inl err"
  shows "cursor_error err"
proof (cases v)
  case (PObj kvs)
  then show ?thesis
    using assms(2) payload_position_errors [OF assms(1)] payload_status_errors
    by (auto simp: check_payload_def bindR_eq_Inl split: if_splits option.splits jval.splits)
qed (use assms(2) in \<open>auto simp: check_payload_def\<close>)

lemma decode_payload_errors:
  assumes "documented_errors e" and "decode_cursor_payload e cursor status = Inl err"
  shows "cursor_error err \<or> err = RecursionError"
  using assms(2) json_run_errors utf8_decode_errors b64decode_errors check_payload_errors [OF assms(1)]
  by (fastforce simp: decode_cursor_payload_def json_loads_def bindR_eq_Inl split: if_splits)

lemma decode_cursor_errors:
  "documented_errors e \<Longrightarrow> decode_cursor e cursor status = Inl err \<Longrightarrow>
   err = WebhookDeliveryJobCursorValidationError \<or> err = RecursionError"
  by (auto simp: decode_cursor_def dest: decode_payload_errors split: sum.splits if_splits)

text \<open>
  C35: What a bad cursor raises. Whatever the text of a cursor is, decoding returns a position or raises the
  validation error that the list route answers with 422, with one exception, which does occur: a cursor
  whose JSON is nested deeper than the interpreter's recursion limit (the base64 of a run of opening
  brackets) raises RecursionError, which neither the decoder nor the route catches.
\<close>

theorem cursor_decode_errors:
  assumes "documented_errors e"
  shows "(\<forall>cursor err. decode_cursor e cursor status = Inl err \<longrightarrow>
        err \<in> {WebhookDeliveryJobCursorValidationError, RecursionError}) \<and>
    decode_cursor e (rstrip_pad (urlsafe_b64encode (replicate (Suc (e_json_depth e)) 91))) status = Inl RecursionError"
  using decode_payload_errors [OF assms] nested_payload [of e "Suc (e_json_depth e)" status]
  by (auto simp: decode_cursor_def split: sum.splits if_splits)

end
