(* ===== verification/Keyset.thy ===== *)
theory Keyset
  imports Prelude
begin

text \<open>
  Keyset pagination: pages of the rows that satisfy a filter, by descending key, each page starting
  after the key of the last row of the page before. The table may change between two pages. The
  interface asks for rows with distinct identities and keys that determine them; the job list
  provides it.
\<close>

definition newest_first :: "('r \<Rightarrow> 'k::linorder) \<Rightarrow> ('r \<Rightarrow> bool) \<Rightarrow> 'r list \<Rightarrow> 'r list" where
  "newest_first key p rows = rev (sort_key key (filter p rows))"

definition after :: "('r \<Rightarrow> 'k::linorder) \<Rightarrow> 'k option \<Rightarrow> 'r \<Rightarrow> bool" where
  "after key pos r = (case pos of None \<Rightarrow> True | Some k \<Rightarrow> key r < k)"

definition rows_after :: "('r \<Rightarrow> 'k::linorder) \<Rightarrow> ('r \<Rightarrow> bool) \<Rightarrow> 'k option \<Rightarrow> 'r list \<Rightarrow> 'r list" where
  "rows_after key p pos rows = newest_first key (\<lambda>r. p r \<and> after key pos r) rows"

definition page_end :: "('r \<Rightarrow> 'k::linorder) \<Rightarrow> nat \<Rightarrow> 'r list \<Rightarrow> 'k option" where
  "page_end key n rs = (if n < length rs then Some (key (last (take n rs))) else None)"

text \<open>One page per table of the list, until a page is the last one.\<close>

fun walk :: "('r \<Rightarrow> 'k::linorder) \<Rightarrow> nat \<Rightarrow> ('r \<Rightarrow> bool) \<Rightarrow> 'k option \<Rightarrow> 'r list list \<Rightarrow> 'r list \<times> bool" where
  "walk key n p pos [] = ([], False)"
| "walk key n p pos (rows # rest) =
     (let rs = rows_after key p pos rows in
      case page_end key n rs of
        None \<Rightarrow> (take n rs, True)
      | Some k \<Rightarrow> map_prod (append (take n rs)) id (walk key n p (Some k) rest))"

lemma set_rows_after: "r \<in> set (rows_after key p pos rows) \<longleftrightarrow> r \<in> set rows \<and> p r \<and> after key pos r"
  by (auto simp: rows_after_def newest_first_def)

lemma sorted_rows_after: "sorted_wrt (\<lambda>a b. key b \<le> key a) (rows_after key p pos rows)"
  using sorted_sort_key [of key "filter (\<lambda>r. p r \<and> after key pos r) rows"]
  by (simp add: rows_after_def newest_first_def sorted_wrt_rev sorted_map)

lemma walk_after: "r \<in> set (fst (walk key n p pos rss)) \<Longrightarrow> 0 < n \<Longrightarrow> after key pos r \<and> (\<exists>rows \<in> set rss. r \<in> set rows)"
proof (induction rss arbitrary: pos)
  case (Cons rows rest)
  let ?rs = "rows_after key p pos rows"
  show ?case
  proof (cases "r \<in> set (take n ?rs)")
    case True
    then show ?thesis by (auto dest!: in_set_takeD simp: set_rows_after)
  next
    case False
    then obtain k where k: "page_end key n ?rs = Some k" and r: "r \<in> set (fst (walk key n p (Some k) rest))"
      using Cons.prems by (auto simp: Let_def split: option.splits)
    have "k = key (last (take n ?rs))" "take n ?rs \<noteq> []"
      using k Cons.prems(2) by (auto simp: page_end_def split: if_splits)
    then have "last (take n ?rs) \<in> set ?rs" by (meson in_set_takeD last_in_set)
    then have "after key pos (last (take n ?rs))" by (simp add: set_rows_after)
    moreover have "key r < k" using Cons.IH [OF r Cons.prems(2)] by (simp add: after_def)
    ultimately have "after key pos r"
      using \<open>k = key (last (take n ?rs))\<close> by (auto simp: after_def split: option.splits)
    then show ?thesis using Cons.IH [OF r Cons.prems(2)] by auto
  qed
qed simp

lemma filter_ident:
  "distinct (map f xs) \<Longrightarrow> \<forall>s \<in> set xs. f s = f r \<longrightarrow> s = r \<Longrightarrow>
   filter (\<lambda>s. f s = f r) xs = (if r \<in> set xs then [r] else [])"
proof (induction xs)
  case (Cons x xs)
  show ?case
  proof (cases "f x = f r")
    case True
    then have "x = r" "\<forall>s \<in> set xs. f s \<noteq> f r" using Cons.prems by fastforce+
    then show ?thesis by (simp add: filter_empty_conv)
  next
    case False
    then show ?thesis using Cons by auto
  qed
qed simp

locale keyset =
  fixes key :: "'r \<Rightarrow> 'k::linorder" and ident :: "'r \<Rightarrow> 'i" and ok :: "'r list \<Rightarrow> bool"
  assumes ok_distinct: "ok rows \<Longrightarrow> distinct (map ident rows)"
    and key_ident: "key r = key s \<Longrightarrow> ident r = ident s"
begin

lemma distinct_rows_after:
  assumes "ok rows"
  shows "distinct (map ident (rows_after key p pos rows))" "distinct (map key (rows_after key p pos rows))"
proof -
  have "distinct (map ident (filter q rows))" for q
    by (rule distinct_map_filter [OF ok_distinct [OF assms]])
  then show ids: "distinct (map ident (rows_after key p pos rows))"
    by (simp add: rows_after_def newest_first_def rev_map [symmetric] distinct_map)
  then show "distinct (map key (rows_after key p pos rows))"
    by (auto simp: distinct_map inj_on_def intro: key_ident)
qed

text \<open>The rows of a page are those at or above its end, and the next page starts with the others.\<close>

lemma page_split:
  assumes "ok rows" and "0 < n" and "page_end key n (rows_after key p pos rows) = Some k"
  shows "\<forall>r \<in> set (take n (rows_after key p pos rows)). k \<le> key r"
    and "\<forall>r \<in> set (drop n (rows_after key p pos rows)). key r < k"
    and "\<exists>z \<in> set (rows_after key p pos rows). k = key z"
proof -
  let ?rs = "rows_after key p pos rows"
  define z where "z = last (take n ?rs)"
  have k: "k = key z" and ne: "take n ?rs \<noteq> []"
    using assms(2,3) by (auto simp: page_end_def z_def split: if_splits)
  then obtain ys where ys: "take n ?rs = ys @ [z]" unfolding z_def by (metis append_butlast_last_id)
  have "sorted_wrt (\<lambda>a b. key b \<le> key a) (take n ?rs @ drop n ?rs)"
    and "distinct (map key (take n ?rs @ drop n ?rs))"
    using sorted_rows_after distinct_rows_after(2) [OF assms(1)] by simp_all
  then show "\<forall>r \<in> set (take n ?rs). k \<le> key r" "\<forall>r \<in> set (drop n ?rs). key r < k"
    unfolding ys k by (fastforce simp: sorted_wrt_append image_iff order_less_le)+
  have "z \<in> set (take n ?rs)" by (simp add: ys)
  then show "\<exists>z \<in> set ?rs. k = key z" using k in_set_takeD by fast
qed

lemma page_members:
  assumes "ok rows" and "0 < n" and "r \<in> set (rows_after key p pos rows)"
  shows "r \<in> set (take n (rows_after key p pos rows)) \<longleftrightarrow>
    (case page_end key n (rows_after key p pos rows) of None \<Rightarrow> True | Some k \<Rightarrow> k \<le> key r)"
proof (cases "page_end key n (rows_after key p pos rows)")
  case None
  then show ?thesis using assms(3) by (simp add: page_end_def split: if_splits)
next
  case (Some k)
  have "r \<in> set (take n (rows_after key p pos rows)) \<or> r \<in> set (drop n (rows_after key p pos rows))"
    using assms(3) by (metis Un_iff append_take_drop_id set_append)
  then show ?thesis using Some page_split [OF assms(1,2) Some] by (auto simp: not_le [symmetric])
qed

lemma next_rows:
  assumes "ok rows" and "0 < n" and "page_end key n (rows_after key p pos rows) = Some k"
  shows "rows_after key p (Some k) rows = drop n (rows_after key p pos rows)"
proof -
  let ?rs = "rows_after key p pos rows"
  note split = page_split [OF assms]
  obtain z where z: "z \<in> set ?rs" and k: "k = key z" using split(3) by blast
  have "key r < k \<Longrightarrow> after key pos r" for r
    using z by (auto simp: k set_rows_after after_def split: option.splits)
  then have "(\<lambda>r. p r \<and> after key (Some k) r) = (\<lambda>r. p r \<and> after key pos r \<and> key r < k)"
    by (auto simp: after_def)
  then have "rows_after key p (Some k) rows = filter (\<lambda>r. key r < k) ?rs"
    by (simp add: rows_after_def newest_first_def rev_filter [symmetric] filter_sort conj_assoc)
  also have "\<dots> = filter (\<lambda>r. key r < k) (take n ?rs) @ filter (\<lambda>r. key r < k) (drop n ?rs)"
    by (simp only: filter_append [symmetric] append_take_drop_id)
  also have "\<dots> = drop n ?rs"
    using split(1,2) by (auto simp: filter_empty_conv filter_id_conv not_less)
  finally show ?thesis .
qed

text \<open>On a table that does not change, the walk lists every row, newest first, and ends.\<close>

lemma walk_static:
  assumes "ok rows" and "0 < n" and "0 < m" and "length (rows_after key p pos rows) \<le> n * m"
  shows "walk key n p pos (replicate m rows) = (rows_after key p pos rows, True)"
  using assms(3,4)
proof (induction m arbitrary: pos)
  case (Suc m)
  let ?rs = "rows_after key p pos rows"
  show ?case
  proof (cases "page_end key n ?rs")
    case None
    then show ?thesis by (simp add: page_end_def split: if_splits)
  next
    case (Some k)
    then have "n < length ?rs" by (simp add: page_end_def split: if_splits)
    then have "0 < m" using Suc.prems(2) by (cases m) simp_all
    moreover note next_rows [OF assms(1,2) Some]
    ultimately have "walk key n p (Some k) (replicate m rows) = (drop n ?rs, True)"
      using Suc.IH [of "Some k"] Suc.prems(2) by simp
    then show ?thesis using Some by simp
  qed
qed simp

text \<open>
  A row that stays in the table as it is, whatever happens to the others, is listed exactly once by
  a walk that reaches the last page.
\<close>

lemma walk_once:
  assumes "0 < n" and "\<forall>rows \<in> set rss. ok rows \<and> r \<in> set rows" and "p r" and "after key pos r"
    and "snd (walk key n p pos rss)"
  shows "filter (\<lambda>s. ident s = ident r) (fst (walk key n p pos rss)) = [r]"
  using assms(2,4,5)
proof (induction rss arbitrary: pos)
  case (Cons rows rest)
  let ?rs = "rows_after key p pos rows"
  have ok: "ok rows" and "r \<in> set rows" using Cons.prems(1) by simp_all
  then have r: "r \<in> set ?rs" using assms(3) Cons.prems(2) by (simp add: set_rows_after)
  note mem = page_members [OF ok assms(1) r]
  have dist: "distinct (map ident ?rs)" by (rule distinct_rows_after [OF ok])
  have once: "filter (\<lambda>s. ident s = ident r) (take n ?rs) = (if r \<in> set (take n ?rs) then [r] else [])"
  proof -
    have "distinct (map ident (take n ?rs))" using dist by (simp add: take_map [symmetric])
    moreover have "\<forall>s \<in> set (take n ?rs). ident s = ident r \<longrightarrow> s = r"
      using dist r by (auto dest!: in_set_takeD simp: distinct_map dest: inj_onD)
    ultimately show ?thesis by (rule filter_ident)
  qed
  show ?case
  proof (cases "page_end key n ?rs")
    case None
    then show ?thesis using mem once by simp
  next
    case (Some k)
    have later: "snd (walk key n p (Some k) rest)" using Cons.prems(3) Some by simp
    show ?thesis
    proof (cases "k \<le> key r")
      case True
      have "ident s \<noteq> ident r" if s: "s \<in> set (fst (walk key n p (Some k) rest))" for s
      proof
        assume same: "ident s = ident r"
        obtain rows' where "rows' \<in> set rest" "s \<in> set rows'" and lt: "after key (Some k) s"
          using walk_after [OF s assms(1)] by blast
        then have "s = r"
          using Cons.prems(1) ok_distinct [of rows'] same by (auto simp: distinct_map dest: inj_onD)
        then show False using lt True by (simp add: after_def)
      qed
      then show ?thesis using Some mem once True by (simp add: filter_empty_conv)
    next
      case False
      then have "filter (\<lambda>s. ident s = ident r) (fst (walk key n p (Some k) rest)) = [r]"
        using Cons.prems(1) later by (intro Cons.IH) (simp_all add: after_def)
      then show ?thesis using Some mem once False by simp
    qed
  qed
qed simp

end

end
