(* ===== verification/Query_Service.thy ===== *)
theory Query_Service
  imports Replay Cursor Keyset "HOL-Library.Product_Lexorder"
begin

text \<open>
  \<open>delivery_job_query_service.py\<close>: the job of an event, and the list of jobs by descending update time and
  identifier, in pages. The list is a keyset pagination in the sense of \<open>Keyset\<close>; the cursor of \<open>Cursor\<close>
  carries the position from one request to the next.
\<close>

section \<open>Pages\<close>

record delivery_job_page =
  pg_items :: "delivery_job_snapshot list"
  pg_next_cursor :: "unicode option"

definition default_list_limit :: int where
  "default_list_limit = 50"

definition max_list_limit :: int where
  "max_list_limit = 100"

definition validate_list_limit :: "pyval \<Rightarrow> exc + int" where
  "validate_list_limit limit =
     (case limit of
        VInt n \<Rightarrow> if 1 \<le> n \<and> n \<le> max_list_limit then Inr n else Inl WebhookDeliveryJobLimitValidationError
      | _ \<Rightarrow> Inl WebhookDeliveryJobLimitValidationError)"

definition snapshot :: "job_row \<Rightarrow> exc + delivery_job_snapshot" where
  "snapshot job =
     bindR (validate_job_status (Some (job_status job))) (\<lambda>status.
     (case status of
        None \<Rightarrow> Inl (RuntimeError ''AssertionError'')
      | Some s \<Rightarrow>
          Inr \<lparr>js_id = job_id job, js_event_id = job_event_id job, js_status = s,
               js_attempt_count = job_attempt_count job, js_next_attempt_at = job_next_attempt_at job,
               js_created_at = job_created_at job, js_updated_at = job_updated_at job\<rparr>))"

definition get_webhook_delivery_job :: "uuid \<Rightarrow> (world, delivery_job_snapshot) io" where
  "get_webhook_delivery_job event_id =
     bindE (query (get_event event_id)) (\<lambda>event.
     if event = None then raiseE WebhookDeliveryJobEventNotFoundError
     else
     bindE (query (get_event_job event_id)) (\<lambda>jb.
     (case jb of
        None \<Rightarrow> raiseE WebhookDeliveryJobMissingError
      | Some job \<Rightarrow> liftE (snapshot job))))"

text \<open>The WHERE clauses, ORDER BY both columns DESC, LIMIT.\<close>

definition status_clause :: "string option \<Rightarrow> job_row \<Rightarrow> bool" where
  "status_clause status j = (case status of None \<Rightarrow> True | Some s \<Rightarrow> job_status j = s)"

definition cursor_clause :: "(instant \<times> uuid) option \<Rightarrow> job_row \<Rightarrow> bool" where
  "cursor_clause pos j =
     (case pos of
        None \<Rightarrow> True
      | Some (updated_at, i) \<Rightarrow>
          job_updated_at j < updated_at \<or> (job_updated_at j = updated_at \<and> job_id j < i))"

definition list_order :: "job_row \<Rightarrow> instant \<times> uuid" where
  "list_order j = (job_updated_at j, job_id j)"

definition list_statement :: "string option \<Rightarrow> (instant \<times> uuid) option \<Rightarrow> nat \<Rightarrow> db \<Rightarrow> job_row list" where
  "list_statement status pos n d =
     take n (rev (sort_key list_order (filter (\<lambda>j. status_clause status j \<and> cursor_clause pos j) (jobs d))))"

definition cursor_position :: "unicode option \<Rightarrow> string option \<Rightarrow> (world, (instant \<times> uuid) option) io" where
  "cursor_position cursor status =
     (case cursor of
        None \<Rightarrow> returnE None
      | Some c \<Rightarrow>
          bindE (ask (\<lambda>e. decode_cursor e c status)) (\<lambda>r.
          bindE (liftE r) (\<lambda>pos. returnE (Some pos))))"

definition list_webhook_delivery_jobs ::
  "string option \<Rightarrow> pyval \<Rightarrow> unicode option \<Rightarrow> (world, delivery_job_page) io" where
  "list_webhook_delivery_jobs status limit cursor =
     bindE (liftE (validate_job_status status)) (\<lambda>validated_status.
     bindE (liftE (validate_list_limit limit)) (\<lambda>validated_limit.
     bindE (cursor_position cursor validated_status) (\<lambda>pos.
     bindE (query (list_statement validated_status pos (nat (validated_limit + 1)))) (\<lambda>found.
     let has_more = int (length found) > validated_limit in
     bindE (liftE (mapR snapshot (take (nat validated_limit) found))) (\<lambda>items.
     let next_cursor =
       (if has_more \<and> items \<noteq> [] then Some (encode_cursor (last items) validated_status) else None) in
     returnE \<lparr>pg_items = items, pg_next_cursor = next_cursor\<rparr>)))))"

section \<open>The list as keyset pagination\<close>

lemma cursor_clause_after: "cursor_clause pos j = after list_order pos j"
  by (cases pos) (auto simp: cursor_clause_def after_def list_order_def less_prod_def)

lemma list_statement_rows:
  "list_statement status pos n d = take n (rows_after list_order (status_clause status) pos (jobs d))"
  by (simp add: list_statement_def rows_after_def newest_first_def cursor_clause_after)

interpretation job_list: keyset list_order job_id "\<lambda>rows. distinct (map job_id rows)"
  by unfold_locales (auto simp: list_order_def)

definition row_snapshot :: "job_row \<Rightarrow> delivery_job_snapshot" where
  "row_snapshot j =
     \<lparr>js_id = job_id j, js_event_id = job_event_id j, js_status = job_status j,
      js_attempt_count = job_attempt_count j, js_next_attempt_at = job_next_attempt_at j,
      js_created_at = job_created_at j, js_updated_at = job_updated_at j\<rparr>"

lemma row_snapshot_sel [simp]:
  "js_id (row_snapshot j) = job_id j" "js_updated_at (row_snapshot j) = job_updated_at j"
  by (simp_all add: row_snapshot_def)

lemma schema_ok_job_status: "schema_ok d \<Longrightarrow> j \<in> set (jobs d) \<Longrightarrow> job_status j \<in> set job_statuses"
  by (force simp: schema_ok_def job_check_def split: if_splits)

lemma snapshot_ok: "schema_ok d \<Longrightarrow> j \<in> set (jobs d) \<Longrightarrow> snapshot j = Inr (row_snapshot j)"
  by (simp add: snapshot_def validate_job_status_def schema_ok_job_status row_snapshot_def)

lemma validate_job_status_known: "validate_job_status status =
    (if known_status status then Inr status else Inl WebhookDeliveryJobStatusValidationError)"
  by (auto simp: validate_job_status_def known_status_def split: option.splits)

text \<open>The page a list request finds.\<close>

definition found_page :: "string option \<Rightarrow> nat \<Rightarrow> job_row list \<Rightarrow> delivery_job_page" where
  "found_page status n rs =
     \<lparr>pg_items = map row_snapshot (take n rs),
      pg_next_cursor =
        (if n < length rs then Some (encode_cursor (row_snapshot (last (take n rs))) status) else None)\<rparr>"

lemma list_run:
  assumes "w_script w = []" and "schema_ok (w_working w)" and "known_status status"
    and "validate_list_limit limit = Inr n" and "cursor_position cursor status w = (Inr pos, w)"
  shows "list_webhook_delivery_jobs status limit cursor w =
    (Inr (found_page status (nat n) (rows_after list_order (status_clause status) pos (jobs (w_working w)))), w)"
proof -
  define rs where "rs = rows_after list_order (status_clause status) pos (jobs (w_working w))"
  define found where "found = take (nat (n + 1)) rs"
  have n: "1 \<le> n" using assms(4) by (auto simp: validate_list_limit_def split: pyval.splits if_splits)
  have "take (nat n) found = take (nat n) rs" using n by (simp add: found_def min_def)
  moreover have "snapshot j = Inr (row_snapshot j)" if "j \<in> set (take (nat n) rs)" for j
    using that snapshot_ok [OF assms(2)] by (auto dest!: in_set_takeD simp: rs_def set_rows_after)
  ultimately have rows: "mapR snapshot (take (nat n) found) = Inr (map row_snapshot (take (nat n) rs))"
    by (simp add: mapR_Inr)
  have more: "n < int (length found) \<longleftrightarrow> nat n < length rs" using n by (auto simp: found_def)
  have ne: "nat n < length rs \<Longrightarrow> take (nat n) rs \<noteq> []" using n by auto
  have stmt: "list_statement status pos (nat (n + 1)) (w_working w) = found"
    by (simp add: list_statement_rows found_def rs_def)
  have query: "query (list_statement status pos (nat (n + 1))) w = (Inr found, w)"
    by (simp add: query_quiet assms(1) stmt)
  show ?thesis
    unfolding list_webhook_delivery_jobs_def validate_job_status_known assms(4) rs_def [symmetric]
    using assms(3,5) ne
    by (auto simp: bindE_def liftE_def query rows more Let_def returnE_def found_page_def last_map)
qed

section \<open>Following the cursors\<close>

text \<open>
  A client that asks for one page per world, each time with the cursor of the page before, until a
  page has none; the flag tells whether it got that far.
\<close>

fun walk_pages ::
  "string option \<Rightarrow> pyval \<Rightarrow> unicode option \<Rightarrow> world list \<Rightarrow> exc + delivery_job_snapshot list \<times> bool" where
  "walk_pages status limit cursor [] = Inr ([], False)"
| "walk_pages status limit cursor (w # ws) =
     bindR (fst (list_webhook_delivery_jobs status limit cursor w)) (\<lambda>page.
     (case pg_next_cursor page of
        None \<Rightarrow> Inr (pg_items page, True)
      | Some c \<Rightarrow>
          bindR (walk_pages status limit (Some c) ws) (\<lambda>(items, finished).
          Inr (pg_items page @ items, finished))))"

text \<open>A world a list request meets: no interference during the request, and timestamps that are datetimes.\<close>

definition listable :: "world \<Rightarrow> bool" where
  "listable w \<longleftrightarrow>
     w_script w = [] \<and> schema_ok (w_working w) \<and> 1 \<le> e_json_depth (w_env w) \<and>
     (\<forall>j \<in> set (jobs (w_working w)). datetime_in_range (job_updated_at j))"

text \<open>The cursor stands for the position, whatever the environment.\<close>

definition stands_for :: "string option \<Rightarrow> unicode option \<Rightarrow> (instant \<times> uuid) option \<Rightarrow> bool" where
  "stands_for status cursor pos \<longleftrightarrow>
     (case (cursor, pos) of
        (None, None) \<Rightarrow> True
      | (Some c, Some k) \<Rightarrow> \<forall>e. 1 \<le> e_json_depth e \<longrightarrow> decode_cursor e c status = Inr k
      | _ \<Rightarrow> False)"

lemma cursor_position_run:
  "stands_for status cursor pos \<Longrightarrow> listable w \<Longrightarrow> cursor_position cursor status w = (Inr pos, w)"
  by (auto simp: stands_for_def cursor_position_def listable_def bindE_def ask_def liftE_def returnE_def
      split: option.splits)

lemma stands_for_item:
  assumes "known_status status" and "datetime_in_range (job_updated_at j)"
  shows "stands_for status (Some (encode_cursor (row_snapshot j) status)) (Some (list_order j))"
  using assms by (simp add: stands_for_def decode_encode_cursor list_order_def)

lemma walk_pages_run:
  assumes "known_status status" and "validate_list_limit limit = Inr n" and "\<forall>w \<in> set ws. listable w"
    and "stands_for status cursor pos"
  shows "walk_pages status limit cursor ws =
    Inr (map_prod (map row_snapshot) id
      (walk list_order (nat n) (status_clause status) pos (map (\<lambda>w. jobs (w_working w)) ws)))"
  using assms(3,4)
proof (induction ws arbitrary: cursor pos)
  case (Cons w ws)
  define rs where "rs = rows_after list_order (status_clause status) pos (jobs (w_working w))"
  have n: "1 \<le> n" using assms(2) by (auto simp: validate_list_limit_def split: pyval.splits if_splits)
  have w: "listable w" using Cons.prems(1) by simp
  then have run: "fst (list_webhook_delivery_jobs status limit cursor w) = Inr (found_page status (nat n) rs)"
    using list_run [OF _ _ assms(1,2) cursor_position_run [OF Cons.prems(2) w]] by (simp add: listable_def rs_def)
  show ?case
  proof (cases "nat n < length rs")
    case False
    then show ?thesis by (simp add: run found_page_def page_end_def rs_def [symmetric])
  next
    case True
    let ?z = "last (take (nat n) rs)"
    have "?z \<in> set rs" using True n by (intro in_set_takeD [OF last_in_set]) auto
    then have "datetime_in_range (job_updated_at ?z)" using w by (auto simp: listable_def rs_def set_rows_after)
    then have "stands_for status (Some (encode_cursor (row_snapshot ?z) status)) (Some (list_order ?z))"
      by (rule stands_for_item [OF assms(1)])
    then have rest: "walk_pages status limit (Some (encode_cursor (row_snapshot ?z) status)) ws =
        Inr (map_prod (map row_snapshot) id (walk list_order (nat n) (status_clause status) (Some (list_order ?z))
          (map (\<lambda>w. jobs (w_working w)) ws)))"
      using Cons.prems(1) by (intro Cons.IH) simp_all
    show ?thesis
      using True by (simp add: run found_page_def page_end_def rs_def [symmetric] rest map_prod_def split_beta)
  qed
qed simp

lemma stands_for_start: "stands_for status None None"
  by (simp add: stands_for_def)

lemma filter_snapshots: "filter (\<lambda>s. js_id s = i) (map row_snapshot js) = map row_snapshot (filter (\<lambda>j. job_id j = i) js)"
  by (induction js) simp_all

text \<open>
  C16: Following the cursors on tables that do not change lists every job with the wanted status
  exactly once, newest update first and ties by descending identifier, in pages of the asked size,
  and ends: as soon as there were enough requests for the number of jobs, the last page has no
  cursor.
\<close>

theorem job_pages_complete:
  assumes "listable w" and "known_status status" and "1 \<le> n" and "n \<le> 100" and "0 < m"
    and "length (filter (status_clause status) (jobs (w_working w))) \<le> nat n * m"
  shows "walk_pages status (VInt n) None (replicate m w) =
    Inr (map row_snapshot (rev (sort_key list_order (filter (status_clause status) (jobs (w_working w))))), True)"
proof -
  let ?js = "jobs (w_working w)"
  have rows: "rows_after list_order (status_clause status) None ?js =
      rev (sort_key list_order (filter (status_clause status) ?js))"
    by (simp add: rows_after_def newest_first_def after_def)
  have "distinct (map job_id ?js)" using assms(1) by (simp add: listable_def schema_ok_job_distinct)
  then have "walk list_order (nat n) (status_clause status) None (replicate m ?js) =
      (rows_after list_order (status_clause status) None ?js, True)"
    by (rule job_list.walk_static) (use assms rows in simp_all)
  moreover have "validate_list_limit (VInt n) = Inr n"
    using assms(3,4) by (simp add: validate_list_limit_def max_list_limit_def)
  ultimately show ?thesis
    using assms(1,2) by (simp add: walk_pages_run [OF _ _ _ stands_for_start] rows)
qed

text \<open>
  C15: Pages neither skip nor repeat a job that stays as it is. Between any two requests of a client
  that follows the cursors, jobs may be created, claimed, recovered, replayed and finished; a job
  that keeps its row throughout and has the wanted status is listed exactly once by the time the
  client has seen the last page, and no request of the client fails.
\<close>

theorem job_pages_once:
  assumes "\<forall>w \<in> set ws. listable w \<and> j \<in> set (jobs (w_working w))" and "known_status status"
    and "status_clause status j" and "1 \<le> n" and "n \<le> 100"
  shows "\<exists>items finished. walk_pages status (VInt n) None ws = Inr (items, finished) \<and>
    (finished \<longrightarrow> filter (\<lambda>s. js_id s = job_id j) items = [row_snapshot j])"
proof -
  let ?w = "walk list_order (nat n) (status_clause status) None (map (\<lambda>w. jobs (w_working w)) ws)"
  have limit: "validate_list_limit (VInt n) = Inr n"
    using assms(4,5) by (simp add: validate_list_limit_def max_list_limit_def)
  have "\<forall>rows \<in> set (map (\<lambda>w. jobs (w_working w)) ws). distinct (map job_id rows) \<and> j \<in> set rows"
    using assms(1) by (auto simp: listable_def schema_ok_job_distinct)
  then have once: "snd ?w \<Longrightarrow> filter (\<lambda>s. job_id s = job_id j) (fst ?w) = [j]"
    by (intro job_list.walk_once) (use assms in \<open>simp_all add: after_def\<close>)
  have "walk_pages status (VInt n) None ws = Inr (map row_snapshot (fst ?w), snd ?w)"
    using walk_pages_run [OF assms(2) limit _ stands_for_start, of ws] assms(1) by (simp add: map_prod_def split_beta)
  then show ?thesis using once by (auto simp: filter_snapshots)
qed

section \<open>Errors\<close>

text \<open>
  The list checks its arguments before it touches the database, whatever the database would do: an
  unknown status, then a limit that is not an integer from 1 to 100 (a Boolean is not one), then a
  cursor that does not decode under that status each raise their own error and leave the world alone.
\<close>

lemma list_checks_first:
  shows "(\<not> known_status status \<longrightarrow>
      list_webhook_delivery_jobs status limit cursor w = (Inl WebhookDeliveryJobStatusValidationError, w)) \<and>
    (known_status status \<and> \<not> (\<exists>n. limit = VInt n \<and> 1 \<le> n \<and> n \<le> 100) \<longrightarrow>
      list_webhook_delivery_jobs status limit cursor w = (Inl WebhookDeliveryJobLimitValidationError, w)) \<and>
    (known_status status \<and> (\<exists>n. limit = VInt n \<and> 1 \<le> n \<and> n \<le> 100) \<longrightarrow>
      (\<forall>c err. cursor = Some c \<and> decode_cursor (w_env w) c status = Inl err \<longrightarrow>
        list_webhook_delivery_jobs status limit cursor w = (Inl err, w)))"
proof -
  have limit: "validate_list_limit limit =
      (case limit of VInt n \<Rightarrow> if 1 \<le> n \<and> n \<le> 100 then Inr n else Inl WebhookDeliveryJobLimitValidationError
       | _ \<Rightarrow> Inl WebhookDeliveryJobLimitValidationError)"
    unfolding validate_list_limit_def max_list_limit_def ..
  show ?thesis
    unfolding list_webhook_delivery_jobs_def validate_job_status_known limit
    by (auto simp: bindE_def liftE_def cursor_position_def ask_def split: pyval.splits)
qed

text \<open>
  The job of an event on every branch: no such event, an event without a job, or the one job of the
  event with its fields; the tables stay as they are.
\<close>

lemma get_job_functional:
  assumes "w_script w = []" and "schema_ok (w_working w)"
  shows "get_webhook_delivery_job i w =
    ((case get_event i (w_working w) of
        None \<Rightarrow> Inl WebhookDeliveryJobEventNotFoundError
      | Some ev \<Rightarrow>
          (case filter (\<lambda>j. job_event_id j = i) (jobs (w_working w)) of
             [] \<Rightarrow> Inl WebhookDeliveryJobMissingError
           | j # _ \<Rightarrow> Inr (row_snapshot j))), w)"
proof (cases "get_event_job i (w_working w)")
  case None
  then have "filter (\<lambda>j. job_event_id j = i) (jobs (w_working w)) = []"
    by (auto simp: get_event_job_def lookup_by_None filter_empty_conv)
  then show ?thesis using assms(1) None
    by (auto simp: get_webhook_delivery_job_def bindE_def query_quiet raiseE_def split: option.splits)
next
  case (Some j)
  have "filter (\<lambda>r. key r = k) rows \<noteq> [] \<and> hd (filter (\<lambda>r. key r = k) rows) = r"
    if "lookup_by key k rows = Some r" for key :: "job_row \<Rightarrow> uuid" and k rows r
    using that by (induction rows) (auto split: if_splits)
  from this [OF Some [unfolded get_event_job_def]]
  obtain js where "filter (\<lambda>j. job_event_id j = i) (jobs (w_working w)) = j # js"
    by (metis list.collapse)
  moreover have "snapshot j = Inr (row_snapshot j)"
    using Some by (intro snapshot_ok [OF assms(2)]) (auto simp: get_event_job_def dest: lookup_by_Some)
  ultimately show ?thesis using assms(1) Some
    by (auto simp: get_webhook_delivery_job_def bindE_def query_quiet raiseE_def liftE_def split: option.splits)
qed

end
