(* ===== verification/Operations.thy ===== *)
theory Operations
  imports Recovery Worker_Loop
begin

text \<open>
  \<open>operations_service.py\<close> and \<open>operations_api.py\<close>: the readiness probe and the operational summary, one
  aggregate query over the delivery jobs, and their HTTP routes. The lemmas show that the summary is
  a consistent snapshot under interference, and relate its counts to what the workers would take.
\<close>

section \<open>Readiness\<close>

definition check_database_readiness :: "(world, string) io" where
  "check_database_readiness =
     bindE (query (\<lambda>d. 1 :: int)) (\<lambda>result.
     if result \<noteq> 1 then raiseE (RuntimeError ''Database readiness query returned an unexpected result'')
     else returnE ''ok'')"

section \<open>The summary\<close>

record operational_counts =
  oc_pending :: int
  oc_processing :: int
  oc_succeeded :: int
  oc_dead_letter :: int
  oc_due_pending :: int
  oc_stale_processing :: int

definition operational_counts_post_init :: "operational_counts \<Rightarrow> exc + operational_counts" where
  "operational_counts_post_init c =
     (if list_ex (\<lambda>value. value < 0)
           [oc_pending c, oc_processing c, oc_succeeded c, oc_dead_letter c, oc_due_pending c,
            oc_stale_processing c]
      then Inl (ValueError ''Operational counts must be non-negative integers'')
      else Inr c)"

record operational_summary =
  os_generated_at :: instant
  os_delivery_jobs :: operational_counts
  os_oldest_due_pending_at :: "instant option"
  os_oldest_processing_updated_at :: "instant option"
  os_stale_processing_before :: instant

text \<open>An instant is the aware datetime of that instant: a column of type timestamp with time zone is read as one.\<close>

definition normalize_result_timestamp :: "instant \<Rightarrow> string \<Rightarrow> exc + instant" where
  "normalize_result_timestamp value name =
     normalize_aware (name @ '' must be a timezone-aware datetime'') (VDatetime (utc_datetime value))"

definition normalize_optional_result_timestamp :: "instant option \<Rightarrow> string \<Rightarrow> exc + instant option" where
  "normalize_optional_result_timestamp value name =
     (case value of
        None \<Rightarrow> Inr None
      | Some t \<Rightarrow> bindR (normalize_result_timestamp t name) (\<lambda>t'. Inr (Some t')))"

definition operational_summary_post_init :: "operational_summary \<Rightarrow> exc + operational_summary" where
  "operational_summary_post_init s =
     bindR (normalize_result_timestamp (os_generated_at s) ''generated_at'') (\<lambda>g.
     bindR (normalize_optional_result_timestamp (os_oldest_due_pending_at s) ''oldest_due_pending_at'') (\<lambda>due.
     bindR (normalize_optional_result_timestamp (os_oldest_processing_updated_at s)
       ''oldest_processing_updated_at'') (\<lambda>processing.
     bindR (normalize_result_timestamp (os_stale_processing_before s) ''stale_processing_before'') (\<lambda>before.
     Inr (s\<lparr>os_generated_at := g, os_oldest_due_pending_at := due,
       os_oldest_processing_updated_at := processing, os_stale_processing_before := before\<rparr>)))))"

definition normalize_generated_at :: "pyval \<Rightarrow> exc + instant" where
  "normalize_generated_at v = normalize_aware ''generated_at must be a timezone-aware datetime'' v"

definition stale_timeout_msg :: string where
  "stale_timeout_msg = ''stale_processing_timeout_seconds must be a finite number greater than 0''"

text \<open>\<open>isfinite\<close> and the sign first, then \<open>timedelta\<close>; both OverflowErrors become the ValueError.\<close>

definition stale_processing_delta :: "pyval \<Rightarrow> exc + int" where
  "stale_processing_delta v =
     (let bad = Inl (ValueError stale_timeout_msg);
          delta = (case timedelta_of v of
                     Inl (OverflowError _) \<Rightarrow> bad
                   | r \<Rightarrow> r) in
      (case v of
         VInt n \<Rightarrow>
           (case float_of_int n of
              Inl _ \<Rightarrow> bad
            | Inr _ \<Rightarrow> if n \<le> 0 then bad else delta)
       | VFloat (Fin x) \<Rightarrow> if x \<le> 0 then bad else delta
       | _ \<Rightarrow> bad))"

text \<open>\<open>count(*) FILTER (WHERE p)\<close> and \<open>min(column) FILTER (WHERE p)\<close>, NULLs ignored.\<close>

definition count_jobs :: "(job_row \<Rightarrow> bool) \<Rightarrow> db \<Rightarrow> int" where
  "count_jobs p d = int (length (filter p (jobs d)))"

definition min_jobs :: "(job_row \<Rightarrow> instant option) \<Rightarrow> (job_row \<Rightarrow> bool) \<Rightarrow> db \<Rightarrow> instant option" where
  "min_jobs column p d =
     (case List.map_filter column (filter p (jobs d)) of
        [] \<Rightarrow> None
      | t # ts \<Rightarrow> Some (fold min ts t))"

definition due_pending :: "instant \<Rightarrow> job_row \<Rightarrow> bool" where
  "due_pending t j \<longleftrightarrow>
     job_status j = ''pending'' \<and>
     (case job_next_attempt_at j of None \<Rightarrow> False | Some n \<Rightarrow> n \<le> t)"

definition stale_processing :: "instant \<Rightarrow> job_row \<Rightarrow> bool" where
  "stale_processing s j \<longleftrightarrow> job_status j = ''processing'' \<and> job_updated_at j < s"

type_synonym summary_columns = "operational_counts \<times> instant option \<times> instant option"

definition summary_row :: "instant \<Rightarrow> instant \<Rightarrow> db \<Rightarrow> summary_columns" where
  "summary_row t s d =
     (\<lparr>oc_pending = count_jobs (\<lambda>j. job_status j = ''pending'') d,
       oc_processing = count_jobs (\<lambda>j. job_status j = ''processing'') d,
       oc_succeeded = count_jobs (\<lambda>j. job_status j = ''succeeded'') d,
       oc_dead_letter = count_jobs (\<lambda>j. job_status j = ''dead_letter'') d,
       oc_due_pending = count_jobs (due_pending t) d,
       oc_stale_processing = count_jobs (stale_processing s) d\<rparr>,
      min_jobs job_next_attempt_at (due_pending t) d,
      min_jobs (\<lambda>j. Some (job_updated_at j)) (\<lambda>j. job_status j = ''processing'') d)"

definition get_webhook_operational_summary :: "pyval \<Rightarrow> pyval \<Rightarrow> (world, operational_summary) io" where
  "get_webhook_operational_summary generated_at stale_processing_timeout_seconds =
     bindE (liftE (normalize_generated_at generated_at)) (\<lambda>t.
     bindE (liftE (stale_processing_delta stale_processing_timeout_seconds)) (\<lambda>delta.
     bindE (liftE (instant_add t (- delta))) (\<lambda>stale_before.
     bindE (query (summary_row t stale_before)) (\<lambda>(counts, oldest_due, oldest_processing).
     bindE (liftE (operational_counts_post_init counts)) (\<lambda>delivery_jobs.
     bindE (liftE (normalize_optional_result_timestamp oldest_due ''oldest_due_pending_at'')) (\<lambda>due.
     bindE (liftE (normalize_optional_result_timestamp oldest_processing ''oldest_processing_updated_at''))
       (\<lambda>processing.
     liftE (operational_summary_post_init
       \<lparr>os_generated_at = t, os_delivery_jobs = delivery_jobs, os_oldest_due_pending_at = due,
        os_oldest_processing_updated_at = processing, os_stale_processing_before = stale_before\<rparr>))))))))"

section \<open>The routes\<close>

record readiness_response =
  rr_status_code :: nat
  rr_status :: string
  rr_database :: string

definition readiness :: "(world, readiness_response) io" where
  "readiness =
     try_except
       (bindE check_database_readiness (\<lambda>database.
        returnE \<lparr>rr_status_code = 200, rr_status = ''ready'', rr_database = database\<rparr>))
       (\<lambda>error.
          if is_sqlalchemy_error error
          then returnE \<lparr>rr_status_code = 503, rr_status = ''not_ready'', rr_database = ''unavailable''\<rparr>
          else raiseE error)"

definition operational_summary_route :: "pyval \<Rightarrow> (world, operational_summary) io" where
  "operational_summary_route webhook_worker_stale_processing_timeout_seconds =
     bindE (tick e_utc_now) (\<lambda>generated_at.
     try_except
       (get_webhook_operational_summary (VDatetime generated_at)
          webhook_worker_stale_processing_timeout_seconds)
       (\<lambda>error.
          if is_sqlalchemy_error error
          then raiseE (HTTPException 503 ''Operational summary unavailable'')
          else raiseE error))"

section \<open>Aggregates\<close>

lemma count_jobs_nonneg [simp]: "0 \<le> count_jobs p d"
  by (simp add: count_jobs_def)

lemma count_jobs_mono: "(\<And>j. p j \<Longrightarrow> q j) \<Longrightarrow> count_jobs p d \<le> count_jobs q d"
proof -
  assume "\<And>j. p j \<Longrightarrow> q j"
  then have "length (filter p js) \<le> length (filter q js)" for js
    by (induction js) auto
  then show ?thesis by (simp add: count_jobs_def)
qed

lemma fold_min_Some: "fold min ts t \<in> set (t # ts) \<and> (\<forall>u \<in> set (t # ts). fold min ts t \<le> (u :: int))"
proof -
  have eq: "fold min ts t = Min (set (t # ts))" by (metis Min.set_eq_fold)
  show ?thesis unfolding eq by (intro conjI ballI Min_in Min_le) simp_all
qed

lemma set_map_filter: "u \<in> set (List.map_filter c xs) \<longleftrightarrow> (\<exists>x \<in> set xs. c x = Some u)"
  by (induction xs) (auto simp: List.map_filter_def split: option.splits)

lemma min_jobs_None: "min_jobs c p d = None \<longleftrightarrow> (\<forall>j \<in> set (jobs d). p j \<longrightarrow> c j = None)"
proof -
  have "min_jobs c p d = None \<longleftrightarrow> set (List.map_filter c (filter p (jobs d))) = {}"
    by (simp add: min_jobs_def split: list.splits)
  also have "\<dots> \<longleftrightarrow> (\<forall>u. \<not> (\<exists>j \<in> set (filter p (jobs d)). c j = Some u))"
    by (simp only: set_eq_iff set_map_filter empty_iff) blast
  also have "\<dots> \<longleftrightarrow> (\<forall>j \<in> set (jobs d). p j \<longrightarrow> c j = None)"
    by (auto simp flip: not_Some_eq)
  finally show ?thesis .
qed

lemma min_jobs_Some:
  assumes "min_jobs c p d = Some m"
  shows "(\<exists>j \<in> set (jobs d). p j \<and> c j = Some m) \<and>
    (\<forall>j \<in> set (jobs d). \<forall>n. p j \<and> c j = Some n \<longrightarrow> m \<le> n)"
proof -
  obtain t ts where ts: "List.map_filter c (filter p (jobs d)) = t # ts" and m: "m = fold min ts t"
    using assms by (auto simp: min_jobs_def split: list.splits)
  have mem: "u \<in> set (t # ts) \<longleftrightarrow> (\<exists>j \<in> set (jobs d). p j \<and> c j = Some u)" for u
    unfolding ts [symmetric] set_map_filter by auto
  have "m \<in> set (t # ts)" "\<And>u. u \<in> set (t # ts) \<Longrightarrow> m \<le> u"
    using fold_min_Some [of ts t] unfolding m by blast+
  then show ?thesis unfolding mem by blast
qed

lemma count_jobs_statuses:
  assumes "schema_ok d"
  shows "count_jobs (\<lambda>j. job_status j = ''pending'') d + count_jobs (\<lambda>j. job_status j = ''processing'') d +
    count_jobs (\<lambda>j. job_status j = ''succeeded'') d + count_jobs (\<lambda>j. job_status j = ''dead_letter'') d =
    int (length (jobs d))"
proof -
  have "int (length (filter (\<lambda>j. job_status j = ''pending'') js)) + int (length (filter (\<lambda>j. job_status j = ''processing'') js)) +
      int (length (filter (\<lambda>j. job_status j = ''succeeded'') js)) + int (length (filter (\<lambda>j. job_status j = ''dead_letter'') js)) =
      int (length js)" if "\<forall>j \<in> set js. job_status j \<in> set job_statuses" for js
    using that by (induction js) (auto simp: job_statuses_def)
  moreover have "job_status j \<in> set job_statuses" if "j \<in> set (jobs d)" for j
  proof -
    have "job_check j = None" using assms that by (simp add: schema_ok_def)
    then show ?thesis by (simp add: job_check_def split: if_splits)
  qed
  ultimately show ?thesis unfolding count_jobs_def by blast
qed

section \<open>The summary\<close>

lemma due_pending_eq: "due_pending = due_job"
  by (intro ext) (simp add: due_pending_def due_job_def)

lemma normalize_result_Inr:
  "normalize_result_timestamp t n = Inr t' \<Longrightarrow> t' = t"
  "normalize_optional_result_timestamp v n = Inr v' \<Longrightarrow> v' = v"
  by (auto simp: normalize_result_timestamp_def normalize_optional_result_timestamp_def normalize_aware_def
      utc_datetime_def astimezone_utc_def instant_add_def bindR_eq_Inr split: option.splits if_splits)

lemma summary_post_init_Inr: "operational_summary_post_init s = Inr s' \<Longrightarrow> s' = s"
  by (cases s) (auto simp: operational_summary_post_init_def bindR_eq_Inr dest!: normalize_result_Inr)

lemma summary_Inr:
  assumes "get_webhook_operational_summary g v w = (Inr r, w')"
  obtains t delta where "normalize_generated_at g = Inr t" "stale_processing_delta v = Inr delta"
    "instant_add t (- delta) = Inr (os_stale_processing_before r)" "os_generated_at r = t"
    "query (summary_row t (os_stale_processing_before r)) w =
      (Inr (os_delivery_jobs r, os_oldest_due_pending_at r, os_oldest_processing_updated_at r), w')"
  using assms
  by (auto simp: get_webhook_operational_summary_def bindE_Inr liftE_def returnE_def
      operational_counts_post_init_def dest!: summary_post_init_Inr normalize_result_Inr
      split: if_splits prod.splits)

lemma stale_processing_delta_nonneg: "wf_pyval v \<Longrightarrow> stale_processing_delta v = Inr delta \<Longrightarrow> 0 \<le> delta"
  by (auto simp: stale_processing_delta_def Let_def timedelta_of_def timedelta_us_def seconds_us_nonneg
      split: pyval.splits pyfloat.splits sum.splits exc.splits if_splits)

text \<open>
  The operational summary is a consistent snapshot, whatever other transactions commit
  meanwhile. Its four status counts add up to the number of jobs, the due jobs are among the
  pending and the stale among the processing ones, and each \<open>oldest\<close> timestamp is the minimum over
  its jobs, absent exactly when there are none.
\<close>

theorem summary_snapshot:
  assumes "world_inv R schema_ok w" and "wf_pyval v"
    and "get_webhook_operational_summary g v w = (Inr r, w')"
  shows "(let d = w_working w'; c = os_delivery_jobs r; t = os_generated_at r; s = os_stale_processing_before r in
    oc_pending c + oc_processing c + oc_succeeded c + oc_dead_letter c = int (length (jobs d)) \<and>
    0 \<le> oc_due_pending c \<and> oc_due_pending c \<le> oc_pending c \<and>
    0 \<le> oc_stale_processing c \<and> oc_stale_processing c \<le> oc_processing c \<and> s \<le> t \<and>
    (case os_oldest_due_pending_at r of
       None \<Rightarrow> \<forall>j \<in> set (jobs d). \<not> due_job t j
     | Some m \<Rightarrow> m \<le> t \<and> (\<exists>j \<in> set (jobs d). due_job t j \<and> job_next_attempt_at j = Some m) \<and>
         (\<forall>j \<in> set (jobs d). \<forall>n. due_job t j \<and> job_next_attempt_at j = Some n \<longrightarrow> m \<le> n)) \<and>
    (case os_oldest_processing_updated_at r of
       None \<Rightarrow> oc_processing c = 0
     | Some m \<Rightarrow> (\<exists>j \<in> set (jobs d). job_status j = ''processing'' \<and> job_updated_at j = m) \<and>
         (\<forall>j \<in> set (jobs d). job_status j = ''processing'' \<longrightarrow> m \<le> job_updated_at j)))"
proof -
  define s where "s = os_stale_processing_before r"
  define d where "d = w_working w'"
  obtain t delta where delta: "stale_processing_delta v = Inr delta" and s: "instant_add t (- delta) = Inr s"
    and t: "os_generated_at r = t"
    and q: "query (summary_row t s) w =
      (Inr (os_delivery_jobs r, os_oldest_due_pending_at r, os_oldest_processing_updated_at r), w')"
    using assms(3) unfolding s_def by (rule summary_Inr)
  have st: "s \<le> t"
    using s stale_processing_delta_nonneg [OF assms(2) delta] by (auto simp: instant_add_def split: if_splits)
  have row: "(os_delivery_jobs r, os_oldest_due_pending_at r, os_oldest_processing_updated_at r) = summary_row t s d"
    and schema: "schema_ok d"
    using assms(1) q by (cases rule: query_cases; simp add: d_def)+
  have due: "case min_jobs job_next_attempt_at (due_job t) d of
       None \<Rightarrow> \<forall>j \<in> set (jobs d). \<not> due_job t j
     | Some m \<Rightarrow> m \<le> t \<and> (\<exists>j \<in> set (jobs d). due_job t j \<and> job_next_attempt_at j = Some m) \<and>
         (\<forall>j \<in> set (jobs d). \<forall>n. due_job t j \<and> job_next_attempt_at j = Some n \<longrightarrow> m \<le> n)"
  proof (cases "min_jobs job_next_attempt_at (due_job t) d")
    case None
    then have "\<forall>j \<in> set (jobs d). \<not> due_job t j" by (auto simp: min_jobs_None due_job_def)
    with None show ?thesis by simp
  next
    case (Some m)
    then show ?thesis using min_jobs_Some [OF Some] by (auto simp: due_job_def)
  qed
  have processing: "case min_jobs (\<lambda>j. Some (job_updated_at j)) (\<lambda>j. job_status j = ''processing'') d of
       None \<Rightarrow> count_jobs (\<lambda>j. job_status j = ''processing'') d = 0
     | Some m \<Rightarrow> (\<exists>j \<in> set (jobs d). job_status j = ''processing'' \<and> job_updated_at j = m) \<and>
         (\<forall>j \<in> set (jobs d). job_status j = ''processing'' \<longrightarrow> m \<le> job_updated_at j)"
  proof (cases "min_jobs (\<lambda>j. Some (job_updated_at j)) (\<lambda>j. job_status j = ''processing'') d")
    case None
    then have "count_jobs (\<lambda>j. job_status j = ''processing'') d = 0"
      by (simp add: min_jobs_None count_jobs_def filter_empty_conv)
    with None show ?thesis by simp
  next
    case (Some m)
    then show ?thesis using min_jobs_Some [OF Some] by simp
  qed
  have "count_jobs (due_job t) d \<le> count_jobs (\<lambda>j. job_status j = ''pending'') d"
    "count_jobs (stale_processing s) d \<le> count_jobs (\<lambda>j. job_status j = ''processing'') d"
    by (rule count_jobs_mono, simp add: due_job_def stale_processing_def)+
  moreover have row': "os_delivery_jobs r = fst (summary_row t s d)"
    "os_oldest_due_pending_at r = min_jobs job_next_attempt_at (due_job t) d"
    "os_oldest_processing_updated_at r = min_jobs (\<lambda>j. Some (job_updated_at j)) (\<lambda>j. job_status j = ''processing'') d"
    using row by (simp_all add: summary_row_def due_pending_eq)
  ultimately show ?thesis
    using count_jobs_statuses [OF schema] st due processing
    unfolding Let_def d_def [symmetric] s_def [symmetric] t row' summary_row_def fst_conv operational_counts.simps
      due_pending_eq
    by simp
qed

text \<open>The summary when nothing interferes and every timestamp is a datetime.\<close>

definition timestamps_in_range :: "world \<Rightarrow> bool" where
  "timestamps_in_range w \<longleftrightarrow>
     dt_tz (e_utc_now (w_env w) (w_ticks w)) = Tz_offset 0 \<and> datetime_in_range (dt_local (e_utc_now (w_env w) (w_ticks w))) \<and>
     (\<forall>j \<in> set (jobs (w_working w)). datetime_in_range (job_updated_at j) \<and>
        (\<forall>n. job_next_attempt_at j = Some n \<longrightarrow> datetime_in_range n))"

definition stale_boundary :: "instant \<Rightarrow> pyval \<Rightarrow> exc + instant" where
  "stale_boundary t v = bindR (stale_processing_delta v) (\<lambda>delta. instant_add t (- delta))"

lemma normalize_result_range:
  "datetime_in_range t \<Longrightarrow> normalize_result_timestamp t n = Inr t"
  "(\<And>t. v = Some t \<Longrightarrow> datetime_in_range t) \<Longrightarrow> normalize_optional_result_timestamp v n = Inr v"
  by (simp_all add: normalize_result_timestamp_def normalize_optional_result_timestamp_def normalize_aware_def
      utc_datetime_def astimezone_utc_def instant_add_def split: option.split)

lemma timedelta_us_error: "timedelta_us n = Inl e \<Longrightarrow> \<exists>m. e = OverflowError m"
  by (auto simp: timedelta_us_def split: if_splits)

lemma stale_processing_delta_error: "stale_processing_delta v = Inl e \<Longrightarrow> \<exists>m. e = ValueError m"
proof (cases v)
  case (VInt n)
  then show "stale_processing_delta v = Inl e \<Longrightarrow> \<exists>m. e = ValueError m"
    using timedelta_us_error [of "n * 1000000"]
    by (cases "timedelta_us (n * 1000000)")
      (auto simp: stale_processing_delta_def Let_def timedelta_of_def split: sum.split_asm if_split_asm)
next
  case (VFloat f)
  then show "stale_processing_delta v = Inl e \<Longrightarrow> \<exists>m. e = ValueError m"
  proof (cases f)
    case (Fin x)
    then show "stale_processing_delta v = Inl e \<Longrightarrow> \<exists>m. e = ValueError m"
      using VFloat timedelta_us_error [of "seconds_us x"]
      by (cases "timedelta_us (seconds_us x)")
        (auto simp: stale_processing_delta_def Let_def timedelta_of_def split: if_split_asm)
  qed (auto simp: stale_processing_delta_def Let_def)
qed (auto simp: stale_processing_delta_def Let_def)

lemma stale_boundary_error: "stale_boundary t v = Inl e \<Longrightarrow> (\<exists>m. e = ValueError m) \<or> (\<exists>m. e = OverflowError m)"
  using stale_processing_delta_error by (auto simp: stale_boundary_def bindR_eq_Inl instant_add_def split: if_splits)

lemma summary_route_run:
  assumes "w_script w = []" and "timestamps_in_range w"
  shows "operational_summary_route v w =
    (let t = dt_local (e_utc_now (w_env w) (w_ticks w)); d = w_working w in
     (case stale_boundary t v of
        Inl e \<Rightarrow> Inl e
      | Inr s \<Rightarrow> (case summary_row t s d of (c, due, processing) \<Rightarrow>
          Inr \<lparr>os_generated_at = t, os_delivery_jobs = c, os_oldest_due_pending_at = due,
               os_oldest_processing_updated_at = processing, os_stale_processing_before = s\<rparr>),
      w\<lparr>w_ticks := Suc (w_ticks w)\<rparr>))"
proof -
  define t where "t = dt_local (e_utc_now (w_env w) (w_ticks w))"
  let ?w = "w\<lparr>w_ticks := Suc (w_ticks w)\<rparr>" and ?d = "w_working w"
  have now: "e_utc_now (w_env w) (w_ticks w) = utc_datetime t" and t: "datetime_in_range t"
    using assms(2) by (simp_all add: timestamps_in_range_def t_def utc_datetime_def)
  have local: "dt_local (utc_datetime t) = t" by (simp add: utc_datetime_def)
  have g: "normalize_generated_at (VDatetime (utc_datetime t)) = Inr t"
    using t by (simp add: normalize_generated_at_def normalize_aware_def utc_datetime_def astimezone_utc_def instant_add_def)
  have oldest: "min_jobs job_next_attempt_at p ?d = Some m \<Longrightarrow> datetime_in_range m"
    "min_jobs (\<lambda>j. Some (job_updated_at j)) p ?d = Some m \<Longrightarrow> datetime_in_range m" for p m
    using assms(2) min_jobs_Some [of job_next_attempt_at p ?d m] min_jobs_Some [of "\<lambda>j. Some (job_updated_at j)" p ?d m]
    unfolding timestamps_in_range_def by blast+
  show ?thesis
  proof (cases "stale_boundary t v")
    case (Inl e)
    then have "\<not> is_sqlalchemy_error e" using stale_boundary_error by fastforce
    moreover have "fst (get_webhook_operational_summary (VDatetime (utc_datetime t)) v ?w) = Inl e \<and>
        snd (get_webhook_operational_summary (VDatetime (utc_datetime t)) v ?w) = ?w"
      using Inl by (auto simp: get_webhook_operational_summary_def g liftE_def stale_boundary_def bindE_def bindR_eq_Inl)
    ultimately show ?thesis
      using Inl now local
      by (simp add: operational_summary_route_def bindE_def tick_def try_except_def raiseE_def prod_eq_iff
          split: prod.split)
  next
    case (Inr s)
    then obtain delta where delta: "stale_processing_delta v = Inr delta" and s: "instant_add t (- delta) = Inr s"
      by (auto simp: stale_boundary_def bindR_eq_Inr)
    have "datetime_in_range s" using s by (auto simp: instant_add_def split: if_splits)
    then have "get_webhook_operational_summary (VDatetime (utc_datetime t)) v ?w =
        (case summary_row t s ?d of (c, due, processing) \<Rightarrow>
          (Inr \<lparr>os_generated_at = t, os_delivery_jobs = c, os_oldest_due_pending_at = due,
               os_oldest_processing_updated_at = processing, os_stale_processing_before = s\<rparr>, ?w))"
      using assms(1) t oldest
      by (simp add: get_webhook_operational_summary_def g delta s bindE_def liftE_def query_quiet summary_row_def
          operational_counts_post_init_def operational_summary_post_init_def normalize_result_range not_less)
    then show ?thesis
      using Inr now local
      by (simp add: operational_summary_route_def bindE_def tick_def try_except_def split: prod.split)
  qed
qed

text \<open>
  C36: The summary counts what the workers would take. At the same instant on the same tables, the
  number of due pending jobs is the number of jobs a claim without an effective limit takes, and
  the stale processing jobs are those a recovery takes except the ones last updated exactly at the
  stale instant, which the summary does not count and the recovery takes.
\<close>

theorem summary_matches_workers:
  assumes "w_script w = []" and "schema_ok (w_working w)" and "wf_pyval v"
    and "get_webhook_operational_summary g v w = (Inr r, w')"
    and "length (jobs (w_working w)) \<le> nat n" and "1 \<le> n" and "limit_ok n"
  shows "(\<exists>js w1. claim_due_webhook_delivery_jobs (VDatetime (utc_datetime (os_generated_at r))) (VInt n) w = (Inr js, w1) \<and>
      oc_due_pending (os_delivery_jobs r) = int (length js)) \<and>
    (\<exists>ids w2. recover_stale_webhook_delivery_jobs (VDatetime (utc_datetime (os_stale_processing_before r)))
        (VDatetime (utc_datetime (os_generated_at r))) (VInt n) w = (Inr ids, w2) \<and>
      int (length ids) = oc_stale_processing (os_delivery_jobs r) +
        count_jobs (\<lambda>j. job_status j = ''processing'' \<and> job_updated_at j = os_stale_processing_before r) (w_working w))"
proof -
  define s where "s = os_stale_processing_before r"
  let ?d = "w_working w"
  obtain t delta where g: "normalize_generated_at g = Inr t" and delta: "stale_processing_delta v = Inr delta"
    and s: "instant_add t (- delta) = Inr s" and t: "os_generated_at r = t"
    and q: "query (summary_row t s) w =
      (Inr (os_delivery_jobs r, os_oldest_due_pending_at r, os_oldest_processing_updated_at r), w')"
    using assms(4) unfolding s_def by (rule summary_Inr)
  have st: "s \<le> t" and range: "datetime_in_range t" "datetime_in_range s"
    using s stale_processing_delta_nonneg [OF assms(3) delta] normalize_aware_range g
    by (auto simp: instant_add_def normalize_generated_at_def split: if_splits)
  have counts: "oc_due_pending (os_delivery_jobs r) = count_jobs (due_job t) ?d"
    "oc_stale_processing (os_delivery_jobs r) = count_jobs (stale_processing s) ?d"
  proof -
    have row: "summary_row t s ?d =
        (os_delivery_jobs r, os_oldest_due_pending_at r, os_oldest_processing_updated_at r)"
      using q assms(1) by (auto simp: query_quiet)
    have "os_delivery_jobs r = fst (summary_row t s ?d)" unfolding row by simp
    then show "oc_due_pending (os_delivery_jobs r) = count_jobs (due_job t) ?d"
      "oc_stale_processing (os_delivery_jobs r) = count_jobs (stale_processing s) ?d"
      by (simp_all add: summary_row_def due_pending_eq)
  qed
  have lim: "validate_claim_limit (VInt n) = Inr n" "validate_recovery_limit (VInt n) = Inr n"
    using assms(6) by (simp_all add: validate_claim_limit_def validate_recovery_limit_def positive_int_def)
  have norm: "normalize_claimed_at (VDatetime (utc_datetime t)) = Inr t"
    "normalize_datetime (VDatetime (utc_datetime s)) ''stale_before'' = Inr s"
    "normalize_datetime (VDatetime (utc_datetime t)) ''recovered_at'' = Inr t"
    using range by (simp_all add: normalize_claimed_at_def normalize_datetime_def)
  have all: "length (filter p (jobs ?d)) \<le> nat n" for p
    using assms(5) length_filter_le [of p "jobs ?d"] by linarith
  have "length (filter (stale_job s) js) =
      length (filter (stale_processing s) js) + length (filter (\<lambda>j. job_status j = ''processing'' \<and> job_updated_at j = s) js)" for js
    by (induction js) (auto simp: stale_job_def stale_processing_def)
  then have stale: "int (length (filter (stale_job s) (jobs ?d))) = count_jobs (stale_processing s) ?d +
      count_jobs (\<lambda>j. job_status j = ''processing'' \<and> job_updated_at j = s) ?d"
    by (simp add: count_jobs_def)
  show ?thesis
    unfolding s_def [symmetric] t counts
    using claim_run [OF lim(1) norm(1) assms(7,1,2)] recover_run [OF lim(2) norm(2,3) st assms(7,1,2)] stale all
    by (simp add: Let_def claiming.batch_def recovering.batch_def select_ordered_length_eq count_jobs_def min_absorb2)
qed

text \<open>
  The probes turn every database error into the documented response. Whatever the database and
  the other transactions do, readiness always answers, with 200 ready or 503 not ready, and the
  summary route never lets a database error through.
\<close>

theorem probes_hide_database_errors:
  "(\<exists>resp. fst (readiness w) = Inr resp \<and>
     (rr_status_code resp, rr_status resp, rr_database resp) \<in>
       {(200, ''ready'', ''ok''), (503, ''not_ready'', ''unavailable'')}) \<and>
   \<not> (\<exists>e. fst (operational_summary_route v w) = Inl e \<and> is_sqlalchemy_error e)"
proof
  obtain r w1 where q: "query (\<lambda>d. 1 :: int) w = (r, w1)" by fastforce
  then have "r = Inl OperationalError \<or> r = Inr 1"
    by (auto simp: query_def sql_def split: prod.splits option.splits)
  then show "\<exists>resp. fst (readiness w) = Inr resp \<and>
     (rr_status_code resp, rr_status resp, rr_database resp) \<in>
       {(200, ''ready'', ''ok''), (503, ''not_ready'', ''unavailable'')}"
    using q by (auto simp: readiness_def check_database_readiness_def try_except_def bindE_def returnE_def)
  show "\<not> (\<exists>e. fst (operational_summary_route v w) = Inl e \<and> is_sqlalchemy_error e)"
    by (auto simp: operational_summary_route_def bindE_def tick_def try_except_def raiseE_def
        split: prod.splits sum.splits if_splits)
qed

text \<open>
  A stale timeout longer than the calendar reaches back is accepted by every validation and then
  fails outside the handlers: the subtraction raises OverflowError, which the route does not turn
  into a response.
\<close>

theorem summary_timeout_overflow:
  assumes "dt_tz (e_utc_now (w_env w) (w_ticks w)) = Tz_offset 0"
    and "datetime_in_range (dt_local (e_utc_now (w_env w) (w_ticks w)))"
    and "dt_local (e_utc_now (w_env w) (w_ticks w)) < n * 1000000" and "n \<le> 86399999999999"
  shows "fst (operational_summary_route (VInt n) w) = Inl (OverflowError ''date value out of range'')"
proof -
  let ?now = "e_utc_now (w_env w) (w_ticks w)"
  have n: "0 < n" using assms(2,3) by (simp add: datetime_in_range_def)
  then have "float_of_int n = Inr (Fin (n * float_unit))" using assms(4) by (intro float_of_int_small) simp
  moreover have "n * 1000000 div day_us \<le> 999999999" "0 \<le> n * 1000000 div day_us"
    using n assms(4) by (simp_all add: day_us_def)
  ultimately have "stale_processing_delta (VInt n) = Inr (n * 1000000)"
    using n by (simp add: stale_processing_delta_def timedelta_of_def timedelta_us_def Let_def)
  moreover have "normalize_generated_at (VDatetime ?now) = Inr (dt_local ?now)"
    using assms(1,2) by (simp add: normalize_generated_at_def normalize_aware_def astimezone_utc_def instant_add_def)
  moreover have "instant_add (dt_local ?now) (- (n * 1000000)) = Inl (OverflowError ''date value out of range'')"
    using assms(3) by (simp add: instant_add_def datetime_in_range_def)
  ultimately show ?thesis
    by (simp add: operational_summary_route_def get_webhook_operational_summary_def bindE_def tick_def
        liftE_def try_except_def raiseE_def)
qed

end
