(* ===== verification/Api.thy ===== *)
theory Api
  imports Query_Service Operations Event_Service
begin

text \<open>
  \<open>api.py\<close>: the webhook routes. A route body runs inside \<open>get_session\<close>, maps the exceptions of the service it
  calls to HTTP problems, and commits. The result of a route is its status code with the body, or the
  exception the framework turns into a response: an \<open>HTTPException\<close> into its own status, anything else
  into a server error. The request models of \<open>schemas.py\<close> come first.
\<close>

section \<open>Request models\<close>

text \<open>
  Stripping is the validator's (\<open>trim\<close>) and so is the parsing and normalization of URLs (\<open>http_url\<close>); what the
  models fix is the lengths. The bound on a URL is checked on the text that is given, in bytes of UTF-8,
  before it is parsed and normalized. \<open>None\<close> is a request the framework rejects.
\<close>

definition constrained_str :: "(string \<Rightarrow> string) \<Rightarrow> string \<Rightarrow> string option" where
  "constrained_str trim s =
     (let t = trim s in if 1 \<le> length t \<and> length t \<le> 255 then Some t else None)"

definition utf8_length :: "string \<Rightarrow> nat" where
  "utf8_length s = length (concat (map utf8_char (codes s)))"

definition endpoint_url :: "(string \<Rightarrow> string option) \<Rightarrow> string \<Rightarrow> string option" where
  "endpoint_url http_url s = (if utf8_length s > 2048 then None else http_url s)"

lemma utf8_length_ascii: "ascii (codes u) \<Longrightarrow> utf8_length u = length u"
  unfolding utf8_length_def by (simp only: utf8_ascii_id) (simp add: codes_def)

record endpoint_create =
  ec_name :: string
  ec_target_url :: string

definition parse_endpoint_create ::
  "(string \<Rightarrow> string) \<Rightarrow> (string \<Rightarrow> string option) \<Rightarrow> string \<Rightarrow> string \<Rightarrow> endpoint_create option" where
  "parse_endpoint_create trim http_url name target_url =
     (case (constrained_str trim name, endpoint_url http_url target_url) of
        (Some n, Some u) \<Rightarrow> Some \<lparr>ec_name = n, ec_target_url = u\<rparr>
      | _ \<Rightarrow> None)"

record event_create =
  vc_endpoint_id :: uuid
  vc_event_type :: string
  vc_payload :: json

definition parse_event_create ::
  "(string \<Rightarrow> string) \<Rightarrow> uuid \<Rightarrow> string \<Rightarrow> (string \<times> json) list \<Rightarrow> event_create option" where
  "parse_event_create trim endpoint_id event_type payload =
     (case constrained_str trim event_type of
        None \<Rightarrow> None
      | Some t \<Rightarrow> Some \<lparr>vc_endpoint_id = endpoint_id, vc_event_type = t, vc_payload = JObj payload\<rparr>)"

section \<open>Endpoints\<close>

text \<open>\<open>session.refresh\<close>: the row is read again.\<close>

definition refresh :: "(db \<Rightarrow> 'r option) \<Rightarrow> (world, 'r) io" where
  "refresh get =
     bindE (query get) (\<lambda>row.
     (case row of None \<Rightarrow> raiseE InvalidRequestError | Some r \<Rightarrow> returnE r))"

definition create_webhook_endpoint :: "endpoint_create \<Rightarrow> (world, nat \<times> endpoint_row) io" where
  "create_webhook_endpoint payload =
     bindE (tick e_uuid4) (\<lambda>endpoint_id.
     bindE (tick e_db_now) (\<lambda>now.
     (let endpoint = \<lparr>ep_id = endpoint_id, ep_name = ec_name payload, ep_target_url = ec_target_url payload,
                       ep_is_active = True, ep_created_at = now, ep_updated_at = now\<rparr> in
      bindE (flush (insert_endpoint endpoint)) (\<lambda>_.
      bindE session_commit (\<lambda>_.
      bindE (refresh (get_endpoint endpoint_id)) (\<lambda>r. returnE (201, r)))))))"

definition list_webhook_endpoints :: "(world, nat \<times> endpoint_row list) io" where
  "list_webhook_endpoints =
     bindE (query (\<lambda>d. sort_key (\<lambda>e. (ep_created_at e, ep_id e)) (endpoints d))) (\<lambda>rows.
     returnE (200, rows))"

section \<open>Events\<close>

fun event_problem :: "exc \<Rightarrow> exc" where
  "event_problem EventWebhookEndpointNotFoundError = HTTPException 404 ''Webhook endpoint not found''"
| "event_problem (WebhookIdempotencyKeyValidationError m) = HTTPException 422 m"
| "event_problem WebhookEventIdempotencyConflictError =
     HTTPException 409 ''Idempotency key conflicts with an existing webhook event''"
| "event_problem e = e"

definition create_webhook_event :: "event_create \<Rightarrow> string option \<Rightarrow> (world, nat \<times> event_row) io" where
  "create_webhook_event payload idempotency_key =
     bindE (try_except
        (create_idempotent_webhook_event_with_delivery_job (vc_endpoint_id payload) (vc_event_type payload)
           (vc_payload payload) idempotency_key)
        (\<lambda>error. raiseE (event_problem error))) (\<lambda>(event, created).
     bindE session_commit (\<lambda>_.
     bindE (refresh (get_event (ev_id event))) (\<lambda>r.
     returnE (if \<not> created then 200 else 201, r))))"

section \<open>Attempts\<close>

definition list_webhook_delivery_attempts :: "uuid \<Rightarrow> (world, nat \<times> attempt_row list) io" where
  "list_webhook_delivery_attempts event_id =
     bindE (query (get_event event_id)) (\<lambda>event.
     if event = None then raiseE (HTTPException 404 ''Webhook event not found'')
     else
     bindE (query (\<lambda>d. sort_key (\<lambda>a. (at_attempt_number a, at_attempted_at a, at_id a))
                     (filter (\<lambda>a. at_event_id a = event_id) (attempts d)))) (\<lambda>rows.
     returnE (200, rows)))"

fun attempt_problem :: "exc \<Rightarrow> exc" where
  "attempt_problem WebhookEventNotFoundError = HTTPException 404 ''Webhook event not found''"
| "attempt_problem WebhookEndpointNotFoundError = HTTPException 409 ''Webhook endpoint not found''"
| "attempt_problem InactiveWebhookEndpointError = HTTPException 409 ''Webhook endpoint is inactive''"
| "attempt_problem e = e"

definition get_attempt :: "uuid \<Rightarrow> db \<Rightarrow> attempt_row option" where
  "get_attempt i d = lookup_by at_id i (attempts d)"

definition create_webhook_delivery_attempt ::
  "(string \<Rightarrow> json \<Rightarrow> pyval \<Rightarrow> (world, int) io) \<Rightarrow> uuid \<Rightarrow> pyval \<Rightarrow> (world, nat \<times> attempt_row) io" where
  "create_webhook_delivery_attempt http_client event_id webhook_delivery_timeout_seconds =
     bindE (try_except
        (execute_webhook_delivery http_client event_id webhook_delivery_timeout_seconds)
        (\<lambda>error. raiseE (attempt_problem error))) (\<lambda>attempt.
     bindE session_commit (\<lambda>_.
     bindE (refresh (get_attempt (at_id attempt))) (\<lambda>r. returnE (201, r))))"

section \<open>Jobs\<close>

fun job_problem :: "exc \<Rightarrow> exc" where
  "job_problem WebhookDeliveryJobEventNotFoundError = HTTPException 404 ''Webhook event not found''"
| "job_problem WebhookDeliveryJobMissingError = HTTPException 409 ''Webhook delivery job not found''"
| "job_problem e = e"

definition get_webhook_delivery_job_route :: "uuid \<Rightarrow> (world, nat \<times> delivery_job_snapshot) io" where
  "get_webhook_delivery_job_route event_id =
     bindE (try_except (get_webhook_delivery_job event_id) (\<lambda>error. raiseE (job_problem error))) (\<lambda>res.
     returnE (200, res))"

fun list_problem :: "exc \<Rightarrow> exc" where
  "list_problem WebhookDeliveryJobStatusValidationError = HTTPException 422 ''Invalid webhook delivery job status''"
| "list_problem WebhookDeliveryJobLimitValidationError = HTTPException 422 ''Invalid webhook delivery job limit''"
| "list_problem WebhookDeliveryJobCursorValidationError = HTTPException 422 ''Invalid webhook delivery job cursor''"
| "list_problem e = e"

definition list_webhook_delivery_jobs_route ::
  "string option \<Rightarrow> pyval \<Rightarrow> unicode option \<Rightarrow> (world, nat \<times> delivery_job_page) io" where
  "list_webhook_delivery_jobs_route status limit cursor =
     bindE (try_except (list_webhook_delivery_jobs status limit cursor) (\<lambda>error. raiseE (list_problem error))) (\<lambda>page.
     returnE (200, page))"

section \<open>Replay\<close>

fun replay_problem :: "exc \<Rightarrow> exc" where
  "replay_problem WebhookReplayEventNotFoundError = HTTPException 404 ''Webhook event not found''"
| "replay_problem WebhookReplayEndpointNotFoundError = HTTPException 409 ''Webhook endpoint not found''"
| "replay_problem WebhookReplayEndpointInactiveError = HTTPException 409 ''Webhook endpoint is inactive''"
| "replay_problem WebhookReplayDeliveryJobNotFoundError = HTTPException 409 ''Webhook delivery job not found''"
| "replay_problem WebhookReplayDeliveryJobNotReplayableError =
     HTTPException 409 ''Webhook delivery job is not replayable''"
| "replay_problem e = e"

definition replay_webhook_event_route :: "uuid \<Rightarrow> (world, nat \<times> replay_result) io" where
  "replay_webhook_event_route event_id =
     bindE (tick e_utc_now) (\<lambda>replayed_at.
     bindE (try_except (replay_webhook_event event_id (VDatetime replayed_at))
        (\<lambda>error. raiseE (replay_problem error))) (\<lambda>res.
     bindE session_commit (\<lambda>_. returnE (202, res))))"

section \<open>Requests\<close>

text \<open>Opening, rolling back and closing the session never fail; only the route's own commit publishes.\<close>

definition opened :: "world \<Rightarrow> world" where
  "opened w = emit Session_open (w\<lparr>w_working := w_committed w, w_savepoints := []\<rparr>)"

lemma opened_sel [simp]:
  "w_env (opened w) = w_env w" "w_committed (opened w) = w_committed w" "w_working (opened w) = w_committed w"
  "w_script (opened w) = w_script w" "w_ticks (opened w) = w_ticks w"
  "w_trace (opened w) = w_trace w @ [Session_open]"
  by (simp_all add: opened_def)

lemma world_inv_opened: "world_inv R I w \<Longrightarrow> world_inv R I (opened w)"
  by (simp add: opened_def world_inv_def)

lemma get_session_run:
  "get_session m w =
    (case m (opened w) of
       (Inr x, w1) \<Rightarrow> (Inr x, discard Session_close w1)
     | (Inl e, w1) \<Rightarrow> (Inl e, discard Session_close (discard Session_rollback w1)))"
  by (simp add: get_session_def block_simps session_open_run session_close_run session_rollback_run raiseE_run
      opened_def split: prod.splits sum.splits)

lemma get_session_Inr:
  assumes "get_session m w = (Inr x, w')"
  obtains w1 where "m (opened w) = (Inr x, w1)" "w' = discard Session_close w1"
  using assms by (auto simp: get_session_run split: prod.splits sum.splits)

lemma get_session_Inl:
  assumes "get_session m w = (Inl e, w')"
  obtains w1 where "m (opened w) = (Inl e, w1)" "w' = discard Session_close (discard Session_rollback w1)"
  using assms by (auto simp: get_session_run split: prod.splits sum.splits)

section \<open>An accepted event is committed\<close>

lemma next_stmt_grows:
  "growing w \<Longrightarrow> next_stmt w = (se, w1) \<Longrightarrow>
   growing w1 \<and> history_kept (w_working w) (w_working w1) \<and> history_kept (w_committed w) (w_committed w1)"
  by (auto simp: world_inv_def next_stmt_def split: list.splits)

lemma commit_grows:
  assumes "growing w" and "session_commit w = (Inr x, w')"
  shows "growing w' \<and> history_kept (w_working w) (w_working w') \<and> w_committed w' = w_working w'"
proof -
  obtain se w1 where n: "next_stmt w = (se, w1)" by fastforce
  then have "growing w1 \<and> history_kept (w_working w) (w_working w1)" using next_stmt_grows [OF assms(1)] by blast
  moreover have "w' = publish w1"
    using assms(2) n by (auto simp: session_commit_def split: option.splits fault.splits)
  ultimately show ?thesis by (simp add: world_inv_def)
qed

lemma refresh_grows:
  assumes "growing w" and "refresh get w = (Inr r, w')"
  shows "growing w' \<and> history_kept (w_working w) (w_working w') \<and> history_kept (w_committed w) (w_committed w') \<and>
    get (w_working w') = Some r"
proof -
  obtain se w1 where n: "next_stmt w = (se, w1)" by fastforce
  moreover have "w' = w1 \<and> get (w_working w1) = Some r"
    using assms(2) n
    by (auto simp: refresh_def bindE_def query_def sql_def raiseE_def returnE_def split: option.splits)
  ultimately show ?thesis using next_stmt_grows [OF assms(1) n] by simp
qed

lemma get_event_in: "schema_ok d \<Longrightarrow> ev \<in> set (events d) \<Longrightarrow> get_event (ev_id ev) d = Some ev"
  unfolding get_event_def by (rule lookup_by_in_distinct) (simp_all add: schema_ok_def)

definition all_jobs :: "db \<Rightarrow> bool" where
  "all_jobs d \<longleftrightarrow> schema_ok d \<and> (\<forall>ev \<in> set (events d). has_job ev d)"

lemma accepted_event:
  assumes "growing w" and "normalize_webhook_idempotency_key raw = Inr key"
    and "get_session (create_webhook_event payload raw) w = (Inr (code, ev), w')"
  shows "ev \<in> set (events (w_committed w')) \<and> ev_endpoint_id ev = vc_endpoint_id payload \<and>
    ev_event_type ev = vc_event_type payload \<and> ev_idempotency_key ev = key \<and>
    (if code = 201 then ev_payload ev = vc_payload payload \<and> has_job ev (w_committed w')
     else code = 200 \<and> key \<noteq> None \<and> e_jsonb_eq (w_env w) (ev_payload ev) (vc_payload payload)) \<and>
    (world_inv history_kept all_jobs w \<longrightarrow> has_job ev (w_committed w'))"
proof -
  have open_ok: "growing (opened w)" by (rule world_inv_opened [OF assms(1)])
  obtain w3 where route: "create_webhook_event payload raw (opened w) = (Inr (code, ev), w3)"
    and w': "w' = discard Session_close w3"
    using assms(3) by (rule get_session_Inr)
  obtain e0 created w1 w2 where
      run: "create_idempotent_webhook_event_with_delivery_job (vc_endpoint_id payload) (vc_event_type payload)
        (vc_payload payload) raw (opened w) = (Inr (e0, created), w1)"
      and commit: "session_commit w1 = (Inr (), w2)" and refresh: "refresh (get_event (ev_id e0)) w2 = (Inr ev, w3)"
      and code: "code = (if created then 201 else 200)"
    using route
    by (auto simp: create_webhook_event_def bindE_Inr try_except_Inr raiseE_def returnE_def split: prod.splits)
  have w1: "growing w1" and sound: "creation_sound (w_env w) (vc_endpoint_id payload) (vc_event_type payload)
      (vc_payload payload) key (Inr (e0, created)) (w_working w1)"
    using creation_sound_run [OF open_ok assms(2) run] by simp_all
  note c = commit_grows [OF w1 commit]
  then have r: "growing w3" "history_kept (w_working w2) (w_working w3)" "history_kept (w_committed w2) (w_committed w3)"
    "get_event (ev_id e0) (w_working w3) = Some ev"
    using refresh_grows [OF _ refresh] by blast+
  have grown: "history_kept (w_working w1) (w_working w3)" "history_kept (w_working w1) (w_committed w')"
    using c r history_kept_trans by (auto simp: w')
  have e0: "e0 \<in> set (events (w_working w1))"
    using sound by (auto simp: event_created_def split: if_splits)
  then have "e0 \<in> set (events (w_working w3))" by (rule event_history [OF _ grown(1)])
  moreover have "schema_ok (w_working w3)" using r(1) by (simp add: world_inv_def)
  ultimately have ev: "ev = e0" using get_event_in r(4) by fastforce
  have job: "has_job e0 (w_working w1)" if J: "world_inv history_kept all_jobs w"
  proof (cases created)
    case True
    then show ?thesis using sound by (simp add: event_created_def)
  next
    case False
    then have "world_inv history_kept all_jobs w1"
      using world_inv_only_others [OF world_inv_opened [OF J] reuse_writes_nothing] run by simp
    then show ?thesis using e0 by (simp add: world_inv_def all_jobs_def)
  qed
  show ?thesis
    using sound event_history [OF e0 grown(2)] has_job_history [OF _ grown(2)] job
    by (cases created) (auto simp: ev code event_created_def)
qed


end
