(* ===== verification/Api_Errors.thy ===== *)
theory Api_Errors
  imports Api
begin

text \<open>
  Which exceptions can leave a route. \<open>raises P m\<close> says that every exception of a computation satisfies
  \<open>P\<close>, whatever the world does; its rules follow the program text, so the bound of a service is found by
  \<open>intro\<close>. The property bounds what the framework gets to see from each route.
\<close>

section \<open>Bounding exceptions\<close>

definition raises :: "(exc \<Rightarrow> bool) \<Rightarrow> (world, 'a) io \<Rightarrow> bool" where
  "raises P m \<longleftrightarrow> (\<forall>w e w'. m w = (Inl e, w') \<longrightarrow> P e)"

named_theorems raises_intros \<open>rules that bound the exceptions of a computation\<close>

lemma raisesD: "raises P m \<Longrightarrow> m w = (Inl e, w') \<Longrightarrow> P e"
  by (auto simp: raises_def)

lemma raises_pure [raises_intros]:
  "raises P (returnE x)" "P e \<Longrightarrow> raises P (raiseE e)" "(\<And>e. r = Inl e \<Longrightarrow> P e) \<Longrightarrow> raises P (liftE r)"
  "raises P (tick f)" "raises P (ask g)"
  by (auto simp: raises_def returnE_def raiseE_def liftE_def tick_def ask_def)

lemma raises_bindE [raises_intros]: "raises P m \<Longrightarrow> (\<And>x. raises P (f x)) \<Longrightarrow> raises P (bindE m f)"
  unfolding raises_def bindE_Inl by blast

lemma raises_try_except: "raises Q m \<Longrightarrow> (\<And>e. Q e \<Longrightarrow> raises P (h e)) \<Longrightarrow> raises P (try_except m h)"
  unfolding raises_def try_except_Inl by blast

lemma raises_mono: "raises Q m \<Longrightarrow> (\<And>e. Q e \<Longrightarrow> P e) \<Longrightarrow> raises P m"
  unfolding raises_def by blast

text \<open>A service inside the handler of its route.\<close>

lemma raises_mapped: "raises Q m \<Longrightarrow> (\<And>e. Q e \<Longrightarrow> P (f e)) \<Longrightarrow> raises P (try_except m (\<lambda>e. raiseE (f e)))"
  by (rule raises_try_except, assumption) (simp add: raises_pure(2))

lemma raises_cases [raises_intros]:
  "(b \<Longrightarrow> raises P m) \<Longrightarrow> (\<not> b \<Longrightarrow> raises P m') \<Longrightarrow> raises P (if b then m else m')"
  "raises P m \<Longrightarrow> (\<And>x. raises P (g x)) \<Longrightarrow> raises P (case v of None \<Rightarrow> m | Some x \<Rightarrow> g x)"
  "(\<And>x y. raises P (k x y)) \<Longrightarrow> raises P (case p of (x, y) \<Rightarrow> k x y)"
  by (simp, cases v, simp_all, cases p, simp)

lemma raises_sql:
  "P OperationalError \<Longrightarrow> (\<And>e l d x. op e l d = Inl x \<Longrightarrow> P x) \<Longrightarrow> raises P (sql op)"
  by (auto simp: raises_def sql_def split: prod.splits option.splits sum.splits)

lemma raises_stmts [raises_intros]:
  "P OperationalError \<Longrightarrow> raises P (query f)"
  "P OperationalError \<Longrightarrow> (\<And>d e. g d = Inl e \<Longrightarrow> P e) \<Longrightarrow> raises P (flush g)"
  "P OperationalError \<Longrightarrow> raises P session_commit"
  by (auto simp: query_def flush_def bindR_eq_Inl intro!: raises_sql)
    (auto simp: raises_def session_commit_def split: prod.splits option.splits fault.splits)

lemma raises_refresh [raises_intros]: "P OperationalError \<Longrightarrow> P InvalidRequestError \<Longrightarrow> raises P (refresh g)"
  unfolding refresh_def by (intro raises_intros)

lemma raises_begin_nested [raises_intros]:
  assumes "P OperationalError" and "raises P m"
  shows "raises P (begin_nested m)"
proof -
  have moves: "raises P rollback_to_savepoint" "raises P (\<lambda>w. (Inr (), f w))" for f
    by (simp_all add: raises_def rollback_to_savepoint_def)
  show ?thesis
    unfolding begin_nested_def push_savepoint_def release_savepoint_def
    by (intro raises_intros raises_try_except [OF assms(2)] moves assms(1)) assumption
qed

section \<open>The services\<close>

lemma write_errors:
  "insert_endpoint ep d = Inl e \<Longrightarrow> is_sqlalchemy_error e" "insert_event ev d = Inl e \<Longrightarrow> is_sqlalchemy_error e"
  "insert_job j d = Inl e \<Longrightarrow> is_sqlalchemy_error e" "insert_attempt a d = Inl e \<Longrightarrow> is_sqlalchemy_error e"
  "update_job j j' d = Inl e \<Longrightarrow> is_sqlalchemy_error e"
  by (auto simp: insert_endpoint_def insert_event_def insert_job_def insert_attempt_def update_job_def Let_def
      split: if_splits option.splits)

definition event_error :: "exc \<Rightarrow> bool" where
  "event_error e \<longleftrightarrow> is_sqlalchemy_error e \<or> e = EventWebhookEndpointNotFoundError \<or>
     e = WebhookEventIdempotencyConflictError \<or> (\<exists>m. e = WebhookIdempotencyKeyValidationError m)"

lemma event_error_sql: "is_sqlalchemy_error e \<Longrightarrow> event_error e"
  by (simp add: event_error_def)

lemma raises_scoped:
  "raises is_sqlalchemy_error
     (sql (\<lambda>e locked d. if c then Inl bad_parameter else bindR (one_or_none (f e d)) (\<lambda>r. Inr (r, d))))"
  by (rule raises_sql)
    (auto simp: bindR_eq_Inl one_or_none_def bad_parameter_def split: list.splits if_split_asm)

lemma raises_create_pair: "raises is_sqlalchemy_error (create_event_with_delivery_job ep ty p k)"
  unfolding create_event_with_delivery_job_def Let_def by (intro raises_intros) (auto dest: write_errors)

lemma raises_resolve: "raises event_error (resolve_existing_idempotent_event ep ty p k)"
proof -
  note finds = raises_mono [OF raises_scoped event_error_sql]
  show ?thesis
    unfolding resolve_existing_idempotent_event_def find_equivalent_webhook_event_def
      find_webhook_event_by_scoped_key_def
    by (intro raises_intros finds) (simp_all add: event_error_def)
qed

lemma raises_create_event: "raises event_error (create_idempotent_webhook_event_with_delivery_job ep ty p raw)"
proof -
  note pair = raises_mono [OF raises_create_pair event_error_sql]
  have handler: "raises event_error (resolve_after_conflict ep ty p k e)" if "event_error e" for k e
  proof (cases e)
    case (IntegrityError c)
    then show ?thesis
      using that unfolding resolve_after_conflict_def by (auto intro!: raises_intros raises_resolve)
  qed (use that in \<open>auto simp: resolve_after_conflict_def intro!: raises_intros\<close>)
  have keyed: "raises event_error (create_keyed_event ep ty p k)" for k
    unfolding create_keyed_event_def
    by (intro raises_intros raises_resolve raises_try_except [where Q = event_error] handler pair)
      (simp_all add: event_error_def)
  show ?thesis
    unfolding create_idempotent_webhook_event_with_delivery_job_def
    by (intro raises_intros keyed pair)
      (auto simp: event_error_def normalize_webhook_idempotency_key_def Let_def split: option.splits if_splits)
qed

definition replay_error :: "exc \<Rightarrow> bool" where
  "replay_error e \<longleftrightarrow> is_sqlalchemy_error e \<or> (\<exists>m. e = ValueError m) \<or> (\<exists>m. e = OverflowError m) \<or>
     e \<in> {WebhookReplayEventNotFoundError, WebhookReplayEndpointNotFoundError, WebhookReplayEndpointInactiveError,
          WebhookReplayDeliveryJobNotFoundError, WebhookReplayDeliveryJobNotReplayableError}"

lemma raises_replay: "raises replay_error (replay_webhook_event i v)"
  unfolding replay_webhook_event_def
  by (intro raises_intros)
    (auto simp: replay_error_def normalize_replayed_at_def normalize_aware_def astimezone_utc_def instant_add_def
      dest: write_errors split: pyval.splits pytz.splits if_splits)

text \<open>What the HTTP client and the clock may raise besides the two transport errors.\<close>

definition unexpected_error :: "exc \<Rightarrow> bool" where
  "unexpected_error e \<longleftrightarrow>
     (\<exists>m. e \<in> {ValueError m, TypeError m, OverflowError m, HttpClientError m})"

definition attempt_error :: "exc \<Rightarrow> bool" where
  "attempt_error e \<longleftrightarrow> is_sqlalchemy_error e \<or> unexpected_error e \<or>
     e \<in> {WebhookEventNotFoundError, WebhookEndpointNotFoundError, InactiveWebhookEndpointError}"

lemma raises_post:
  "raises (\<lambda>e. unexpected_error e \<or> (\<exists>m. e \<in> {WebhookTimeoutError m, WebhookTransportError m})) (httpx2_post_json u p t)"
  by (auto simp: raises_def httpx2_post_json_run unexpected_error_def dest!: check_post_timeout_Inl
      split: sum.splits httpx_result.splits if_splits)

lemma raises_deliver: "raises attempt_error (deliver_prepared httpx2_post_json prepared t at)"
proof -
  have post: "raises attempt_error (try_post (httpx2_post_json u p t))" for u p
    unfolding try_post_def
    by (rule raises_try_except [OF raises_bindE [OF raises_post raises_pure(1)]])
      (auto simp: attempt_error_def unexpected_error_def intro!: raises_intros)
  show ?thesis
    unfolding deliver_prepared_def Let_def
    by (intro raises_intros post) (auto simp: attempt_error_def dest: write_errors)
qed

lemma raises_delivery: "raises attempt_error (execute_webhook_delivery httpx2_post_json i t)"
proof -
  have clock: "raises attempt_error (case dt_tz at of
      Tz_offset off \<Rightarrow> deliver_prepared httpx2_post_json prepared t (dt_local at - off)
    | _ \<Rightarrow> raiseE (ValueError ''utc_now must return a timezone-aware datetime''))" for at prepared
    by (cases "dt_tz at") (auto intro!: raises_intros raises_deliver simp: attempt_error_def unexpected_error_def)
  show ?thesis
    unfolding execute_webhook_delivery_def prepare_webhook_delivery_def
    by (intro raises_intros clock) (simp_all add: attempt_error_def)
qed

definition job_error :: "exc \<Rightarrow> bool" where
  "job_error e \<longleftrightarrow> e = OperationalError \<or>
     e \<in> {WebhookDeliveryJobEventNotFoundError, WebhookDeliveryJobMissingError, WebhookDeliveryJobStatusValidationError}"

lemma snapshot_errors: "snapshot j = Inl e \<Longrightarrow> e = WebhookDeliveryJobStatusValidationError"
  by (auto simp: snapshot_def validate_job_status_def bindR_eq_Inl split: if_splits)

lemma raises_get_job: "raises job_error (get_webhook_delivery_job i)"
  unfolding get_webhook_delivery_job_def
  by (intro raises_intros) (auto simp: job_error_def dest: snapshot_errors)

section \<open>The routes\<close>

definition problem :: "nat set \<Rightarrow> exc \<Rightarrow> bool" where
  "problem statuses e \<longleftrightarrow> (\<exists>c \<in> statuses. \<exists>detail. e = HTTPException c detail)"

lemma raises_get_session: "raises P m \<Longrightarrow> raises P (get_session m)"
  by (auto simp: raises_def get_session_run split: prod.splits sum.splits)

lemma event_problem_bound: "event_error e \<Longrightarrow> is_sqlalchemy_error (event_problem e) \<or> problem {404, 409, 422} (event_problem e)"
  by (cases e) (auto simp: event_error_def problem_def)

lemma replay_problem_bound: "replay_error e \<Longrightarrow>
   is_sqlalchemy_error (replay_problem e) \<or> unexpected_error (replay_problem e) \<or> problem {404, 409} (replay_problem e)"
  by (cases e) (auto simp: replay_error_def problem_def unexpected_error_def)

lemma attempt_problem_bound: "attempt_error e \<Longrightarrow>
   is_sqlalchemy_error (attempt_problem e) \<or> unexpected_error (attempt_problem e) \<or> problem {404, 409} (attempt_problem e)"
  by (cases e) (auto simp: attempt_error_def problem_def unexpected_error_def)

lemma job_problem_bound: "job_error e \<Longrightarrow>
   is_sqlalchemy_error (job_problem e) \<or> problem {404, 409} (job_problem e) \<or> job_problem e = WebhookDeliveryJobStatusValidationError"
  by (cases e) (auto simp: job_error_def problem_def)

text \<open>
  C19: No service exception leaves a route unmapped. Whatever the database, the other transactions, the
  clock and the HTTP client do, the exception of a request is a problem with one of the documented
  statuses of its route (404, 409 or 422 for a creation; 404 or 409 for a replay, an attempt and a job)
  or comes from the database or from outside the service. A job route can also fail on a stored status
  the service does not know, which the schema excludes.
\<close>

theorem route_errors:
  "raises (\<lambda>e. is_sqlalchemy_error e \<or> problem {404, 409, 422} e) (get_session (create_webhook_event payload key)) \<and>
   raises (\<lambda>e. is_sqlalchemy_error e \<or> unexpected_error e \<or> problem {404, 409} e)
     (get_session (replay_webhook_event_route i)) \<and>
   raises (\<lambda>e. is_sqlalchemy_error e \<or> unexpected_error e \<or> problem {404, 409} e)
     (get_session (create_webhook_delivery_attempt httpx2_post_json i t)) \<and>
   raises (\<lambda>e. is_sqlalchemy_error e \<or> problem {404, 409} e \<or> e = WebhookDeliveryJobStatusValidationError)
     (get_session (get_webhook_delivery_job_route i)) \<and>
   raises is_sqlalchemy_error (get_session (create_webhook_endpoint new)) \<and>
   raises (\<lambda>e. is_sqlalchemy_error e \<or> problem {404} e) (get_session (list_webhook_delivery_attempts i))"
proof (intro conjI raises_get_session)
  show "raises (\<lambda>e. is_sqlalchemy_error e \<or> problem {404, 409, 422} e) (create_webhook_event payload key)"
    unfolding create_webhook_event_def
    by (intro raises_intros raises_mapped [OF raises_create_event] event_problem_bound) simp_all
  show "raises (\<lambda>e. is_sqlalchemy_error e \<or> unexpected_error e \<or> problem {404, 409} e) (replay_webhook_event_route i)"
    unfolding replay_webhook_event_route_def
    by (intro raises_intros raises_mapped [OF raises_replay] replay_problem_bound) simp_all
  show "raises (\<lambda>e. is_sqlalchemy_error e \<or> unexpected_error e \<or> problem {404, 409} e)
      (create_webhook_delivery_attempt httpx2_post_json i t)"
    unfolding create_webhook_delivery_attempt_def
    by (intro raises_intros raises_mapped [OF raises_delivery] attempt_problem_bound) simp_all
  show "raises (\<lambda>e. is_sqlalchemy_error e \<or> problem {404, 409} e \<or> e = WebhookDeliveryJobStatusValidationError)
      (get_webhook_delivery_job_route i)"
    unfolding get_webhook_delivery_job_route_def
    by (intro raises_intros raises_mapped [OF raises_get_job] job_problem_bound)
  show "raises is_sqlalchemy_error (create_webhook_endpoint new)"
    unfolding create_webhook_endpoint_def Let_def by (intro raises_intros) (auto dest: write_errors)
  show "raises (\<lambda>e. is_sqlalchemy_error e \<or> problem {404} e) (list_webhook_delivery_attempts i)"
    unfolding list_webhook_delivery_attempts_def by (intro raises_intros) (simp_all add: problem_def)
qed

end
