(* ===== verification/Api_Requests.thy ===== *)
theory Api_Requests
  imports Api
begin

text \<open>
  The writing requests from end to end, when nothing interferes: status code, body and what is committed, on
  every branch. A request that ends in a problem commits nothing.
\<close>

lemma refresh_quiet: "w_script w = [] \<Longrightarrow> get (w_working w) = Some r \<Longrightarrow> refresh get w = (Inr r, w)"
  by (simp add: refresh_def bindE_def query_quiet returnE_def)

lemma mapped_run:
  "try_except m (\<lambda>e. raiseE (f e)) w = (case m w of (Inl e, w1) \<Rightarrow> (Inl (f e), w1) | (Inr x, w1) \<Rightarrow> (Inr x, w1))"
  by (simp add: try_except_def raiseE_def split: prod.splits sum.splits)

lemma get_session_table:
  "fst (get_session m w) = fst (m (opened w))" "w_committed (snd (get_session m w)) = w_committed (snd (m (opened w)))"
  by (simp_all add: get_session_run split: prod.splits sum.splits)

lemma parse_endpoint_length:
  "parse_endpoint_create trim http_url name url = Some p \<Longrightarrow> length (ec_name p) \<le> 255"
  by (auto simp: parse_endpoint_create_def constrained_str_def Let_def split: option.splits if_splits)


text \<open>
  C18: Replaying an event. The request answers 202 and commits the job, pending and due now with a fresh
  retry budget, exactly when the event is recorded, its endpoint active and its job finished; it
  answers 404 for an unknown event and 409 for the other reasons, in that order, and then commits
  nothing.
\<close>

theorem replay_request:
  assumes "w_script w = []" and "schema_ok (w_committed w)"
    and "e_utc_now (w_env w) (w_ticks w) = utc_datetime t" and "datetime_in_range t"
  shows "(let d = w_committed w; res = get_session (replay_webhook_event_route i) w in
    case get_event i d of
      None \<Rightarrow> fst res = Inl (HTTPException 404 ''Webhook event not found'') \<and> w_committed (snd res) = d
    | Some ev \<Rightarrow>
        if \<not> ep_is_active (the (get_endpoint (ev_endpoint_id ev) d))
        then fst res = Inl (HTTPException 409 ''Webhook endpoint is inactive'') \<and> w_committed (snd res) = d
        else (case get_event_job i d of
            None \<Rightarrow> fst res = Inl (HTTPException 409 ''Webhook delivery job not found'') \<and> w_committed (snd res) = d
          | Some j \<Rightarrow>
              if job_status j \<notin> {''succeeded'', ''dead_letter''}
              then fst res = Inl (HTTPException 409 ''Webhook delivery job is not replayable'') \<and> w_committed (snd res) = d
              else fst res = Inr (202, \<lparr>rp_event_id = i, rp_delivery_job_id = job_id j, rp_status = ''pending'',
                     rp_next_attempt_at = t\<rparr>) \<and>
                w_committed (snd res) = d\<lparr>jobs := update_by job_id
                  (j\<lparr>job_status := ''pending'', job_next_attempt_at := Some t, job_updated_at := t,
                     job_attempt_count := 0\<rparr>) (jobs d)\<rparr>))"
proof -
  let ?w = "(opened w)\<lparr>w_ticks := Suc (w_ticks w)\<rparr>"
  have norm: "normalize_replayed_at (VDatetime (utc_datetime t)) = Inr t"
    using assms(4) by (simp add: normalize_replayed_at_def)
  note run = replay_table [of ?w "VDatetime (utc_datetime t)" t i]
  have pre: "w_script ?w = []" "schema_ok (w_working ?w)" using assms(1,2) by simp_all
  have route: "replay_webhook_event_route i (opened w) =
      bindE (try_except (replay_webhook_event i (VDatetime (utc_datetime t))) (\<lambda>error. raiseE (replay_problem error)))
        (\<lambda>res. bindE session_commit (\<lambda>_. returnE (202, res))) ?w"
    by (simp add: replay_webhook_event_route_def bindE_def tick_def assms(3))
  show ?thesis
    unfolding Let_def get_session_table route bindE_def mapped_run run [OF pre norm]
    using assms(1) by (simp add: session_commit_quiet returnE_def split: option.splits)
qed

lemma insert_attempt_found:
  assumes "insert_attempt a d = Inr d'"
  shows "d' = d\<lparr>attempts := attempts d @ [a]\<rparr> \<and> get_attempt (at_id a) d' = Some a"
proof -
  have "lookup_by at_id (at_id a) (attempts d) = None" using assms by (simp add: insert_attempt_Inr lookup_by_None)
  then show ?thesis using assms by (simp add: insert_attempt_Inr get_attempt_def lookup_by_append)
qed

text \<open>The delivery of a direct attempt, when nothing interferes.\<close>

lemma direct_delivery:
  assumes "w_script w = []" and "e_utc_now (w_env w) (w_ticks w) = utc_datetime now"
    and "check_post_timeout t = Inr ()"
    and "get_event i (w_committed w) = Some ev" and "get_endpoint (ev_endpoint_id ev) (w_committed w) = Some ep"
    and "ep_is_active ep"
    and "outcome_of (e_http (w_env w) (w_ticks w + 2) (ep_target_url ep) (ev_payload ev)) = Some res"
  obtains a w1 where
    "execute_webhook_delivery httpx2_post_json i t (opened w) =
       (case insert_attempt a (w_committed w) of
          Inl x \<Rightarrow> (Inl x, w1) | Inr d \<Rightarrow> (Inr a, w1\<lparr>w_working := d\<rparr>))"
    "at_event_id a = i" "at_attempt_number a = next_attempt_number (max_attempt_number i (w_committed w))"
    "(at_outcome a, at_response_status_code a, at_error_message a) = classify res"
    "w_script w1 = []" "w_committed w1 = w_committed w"
    "w_trace w1 = w_trace w @ [Session_open, Http_post (ep_target_url ep) (ev_payload ev) t]"
proof -
  let ?u = "ep_target_url ep" and ?p = "ev_payload ev"
  have clock: "dt_tz (e_utc_now (w_env (opened w)) (w_ticks (opened w))) = Tz_offset 0"
    using assms(2) by (simp add: utc_datetime_def)
  have http: "outcome_of (e_http (w_env (opened w)) (w_ticks (opened w) + 2) ?u ?p) = Some res"
    using assms(7) by simp
  obtain a w1 where run: "execute_webhook_delivery httpx2_post_json i t (opened w) =
      (case insert_attempt a (w_committed w) of
         Inl x \<Rightarrow> (Inl x, w1) | Inr d \<Rightarrow> (Inr a, w1\<lparr>w_working := d\<rparr>))"
    and a: "a = completed_attempt (e_uuid4 (w_env w) (w_ticks w + 4))
      (prepared_for ev ep (max_attempt_number i (w_committed w)))
      (dt_local (e_utc_now (w_env w) (w_ticks w)) - 0)
      (e_monotonic_ns (w_env w) (w_ticks w + 1)) (e_monotonic_ns (w_env w) (w_ticks w + 3)) res"
    and w1: "w1 = (emit (Http_post ?u ?p t) (opened w))\<lparr>w_ticks := w_ticks w + 5\<rparr>"
    using delivery_explicit [of "opened w" i ev ep 0 t res] assms(1,3-6) clock http
    by (metis opened_sel)
  have "ev_id ev = i" using get_event_Some [OF assms(4)] by simp
  then have fields: "at_event_id a = i" "at_attempt_number a = next_attempt_number (max_attempt_number i (w_committed w))"
    "(at_outcome a, at_response_status_code a, at_error_message a) = classify res"
    by (simp_all add: a prepared_for_def)
  have "w_script w1 = []" "w_committed w1 = w_committed w" "w_trace w1 = w_trace w @ [Session_open, Http_post ?u ?p t]"
    using assms(1) by (simp_all add: w1)
  with run fields show thesis by (rule that)
qed

text \<open>
  C17: A direct attempt, on every branch. For a recorded event with an active endpoint the request sends one
  POST and then commits exactly the new attempt, numbered after the event's last one, and answers 201
  with it; the delivery job, its status and its budget stay as they are. When the table rejects the
  attempt, or the client fails with anything but a timeout or a request error of its own, the POST has
  been sent, the request ends in that error and nothing is committed. A timeout that is not a positive finite
  number is refused before anything is sent. Without the event (404) or with an inactive endpoint (409)
  nothing is sent and nothing is committed.
\<close>

theorem attempt_request:
  assumes "w_script w = []" and "schema_ok (w_committed w)"
    and "e_utc_now (w_env w) (w_ticks w) = utc_datetime now"
  shows "(let d = w_committed w; r = get_session (create_webhook_delivery_attempt httpx2_post_json i t) w in
    case get_event i d of
      None \<Rightarrow> fst r = Inl (HTTPException 404 ''Webhook event not found'') \<and> w_committed (snd r) = d \<and>
        w_trace (snd r) = w_trace w @ [Session_open, Session_rollback, Session_close]
    | Some ev \<Rightarrow>
        (let ep = the (get_endpoint (ev_endpoint_id ev) d); post = Http_post (ep_target_url ep) (ev_payload ev) t;
             answer = e_http (w_env w) (w_ticks w + 2) (ep_target_url ep) (ev_payload ev) in
         if \<not> ep_is_active ep
         then fst r = Inl (HTTPException 409 ''Webhook endpoint is inactive'') \<and> w_committed (snd r) = d \<and>
           w_trace (snd r) = w_trace w @ [Session_open, Session_rollback, Session_close]
         else (case (check_post_timeout t, outcome_of answer) of
           (Inl e, _) \<Rightarrow> fst r = Inl e \<and> w_committed (snd r) = d \<and>
             w_trace (snd r) = w_trace w @ [Session_open, Session_rollback, Session_close]
         | (Inr _, None) \<Rightarrow> fst r = Inl (unexpected_error answer) \<and> w_committed (snd r) = d \<and>
             w_trace (snd r) = w_trace w @ [Session_open, post, Session_rollback, Session_close]
         | (Inr _, Some res) \<Rightarrow>
             \<exists>a. at_event_id a = i \<and> at_attempt_number a = next_attempt_number (max_attempt_number i d) \<and>
               (at_outcome a, at_response_status_code a, at_error_message a) = classify res \<and>
               (case insert_attempt a d of
                  Inl e \<Rightarrow> fst r = Inl e \<and> w_committed (snd r) = d \<and>
                    w_trace (snd r) = w_trace w @ [Session_open, post, Session_rollback, Session_close]
                | Inr d' \<Rightarrow> fst r = Inr (201, a) \<and> w_committed (snd r) = d' \<and>
                    d' = d\<lparr>attempts := attempts d @ [a]\<rparr> \<and>
                    w_trace (snd r) = w_trace w @ [Session_open, post, Session_commit, Session_close]))))"
proof (cases "get_event i (w_committed w)")
  case None
  then show ?thesis using assms(1)
    by (simp add: Let_def get_session_run create_webhook_delivery_attempt_def execute_webhook_delivery_def
        prepare_webhook_delivery_def bindE_def mapped_run query_quiet raiseE_def)
next
  case (Some ev)
  obtain ep where ep: "get_endpoint (ev_endpoint_id ev) (w_committed w) = Some ep"
    using schema_ok_endpoint [OF assms(2) Some] by auto
  let ?answer = "e_http (w_env w) (w_ticks w + 2) (ep_target_url ep) (ev_payload ev)"
  have clock: "dt_tz (e_utc_now (w_env (opened w)) (w_ticks (opened w))) = Tz_offset 0"
    using assms(3) by (simp add: utc_datetime_def)
  note failed = get_session_run create_webhook_delivery_attempt_def bindE_def mapped_run
  consider (inactive) "\<not> ep_is_active ep" | (timeout) e where "ep_is_active ep" "check_post_timeout t = Inl e"
    | (unexpected) "ep_is_active ep" "check_post_timeout t = Inr ()" "outcome_of ?answer = None"
    | (ended) res where "ep_is_active ep" "check_post_timeout t = Inr ()" "outcome_of ?answer = Some res"
    by (cases "check_post_timeout t"; cases "outcome_of ?answer") auto
  then show ?thesis
  proof cases
    case inactive
    then show ?thesis using assms(1) Some ep
      by (simp add: Let_def get_session_run create_webhook_delivery_attempt_def execute_webhook_delivery_def
          prepare_webhook_delivery_def bindE_def mapped_run query_quiet raiseE_def)
  next
    case timeout
    have "attempt_problem e = e" using check_post_timeout_error [OF timeout(2)] by auto
    then show ?thesis
      using delivery_unsent [of "opened w" i ev ep 0 t e] assms(1) Some ep timeout clock
      by (simp add: Let_def failed)
  next
    case unexpected
    have "attempt_problem (unexpected_error ?answer) = unexpected_error ?answer" by (cases ?answer) auto
    then show ?thesis
      using delivery_unexpected [of "opened w" i ev ep 0 t] assms(1) Some ep unexpected clock
      by (simp add: Let_def failed)
  next
    case ended
    obtain a w1 where run: "execute_webhook_delivery httpx2_post_json i t (opened w) =
        (case insert_attempt a (w_committed w) of
           Inl x \<Rightarrow> (Inl x, w1) | Inr d \<Rightarrow> (Inr a, w1\<lparr>w_working := d\<rparr>))"
      and fields: "at_event_id a = i" "at_attempt_number a = next_attempt_number (max_attempt_number i (w_committed w))"
        "(at_outcome a, at_response_status_code a, at_error_message a) = classify res"
      and w1': "w_script w1 = []" "w_committed w1 = w_committed w"
        "w_trace w1 = w_trace w @ [Session_open, Http_post (ep_target_url ep) (ev_payload ev) t]"
      by (rule direct_delivery [OF assms(1,3) ended(2) Some ep ended(1,3)])
    show ?thesis
    proof (cases "insert_attempt a (w_committed w)")
      case (Inl e)
      have sql: "attempt_problem e = e" using Inl
        by (auto simp: insert_attempt_def split: if_splits option.splits)
      have "get_session (create_webhook_delivery_attempt httpx2_post_json i t) w =
          (Inl e, discard Session_close (discard Session_rollback w1))"
        by (simp add: failed run Inl sql)
      then show ?thesis
        using Some ep ended fields w1' Inl by (auto simp: Let_def intro!: exI [of _ a])
    next
      case (Inr d')
      note found = insert_attempt_found [OF Inr]
      have "get_session (create_webhook_delivery_attempt httpx2_post_json i t) w =
          (Inr (201, a), discard Session_close (publish (w1\<lparr>w_working := d'\<rparr>)))"
        using refresh_quiet [of "publish (w1\<lparr>w_working := d'\<rparr>)" "get_attempt (at_id a)" a] found [THEN conjunct2] w1'(1)
        by (simp add: failed run Inr session_commit_quiet returnE_def)
      then show ?thesis
        using Some ep ended fields w1' Inr found by (auto simp: Let_def intro!: exI [of _ a])
    qed
  qed
qed

end
