(* ===== verification/Api_Witnesses.thy ===== *)
theory Api_Witnesses
  imports Witnesses Api_Errors Api_Requests
begin

text \<open>
  The properties of the operations summary, the cursor, the job list and the routes, each applied at a
  concrete input on the worlds of \<open>Sample\<close>.
\<close>

section \<open>Operations\<close>

abbreviation summary_of :: "world \<Rightarrow> (exc + operational_summary) \<times> world" where
  "summary_of w \<equiv> get_webhook_operational_summary (VDatetime sample_at) (VInt 60) w"

definition sample_summary :: operational_summary where
  "sample_summary =
     \<lparr>os_generated_at = sample_now,
      os_delivery_jobs = \<lparr>oc_pending = 1, oc_processing = 0, oc_succeeded = 0, oc_dead_letter = 0,
        oc_due_pending = 1, oc_stale_processing = 0\<rparr>,
      os_oldest_due_pending_at = Some 10, os_oldest_processing_updated_at = None,
      os_stale_processing_before = sample_now - 60000000\<rparr>"

lemma sample_summary_run: "summary_of pending_world = (Inr sample_summary, snd (summary_of pending_world))"
proof -
  have "fst (summary_of pending_world) = Inr sample_summary" by code_simp
  then show ?thesis by (simp add: prod_eq_iff)
qed

lemma sample_summary_sel: "os_generated_at sample_summary = sample_now"
  "oc_due_pending (os_delivery_jobs sample_summary) = 1" "oc_pending (os_delivery_jobs sample_summary) = 1"
  by (simp_all add: sample_summary_def)

theorem summary_snapshot_witness:
  "oc_due_pending (os_delivery_jobs sample_summary) \<le> oc_pending (os_delivery_jobs sample_summary) \<and>
   os_stale_processing_before sample_summary \<le> sample_now"
  using summary_snapshot [OF sample_growing [OF sample_schema_ok(1)] wf_VInt sample_summary_run]
  by (simp add: Let_def sample_summary_sel)

theorem summary_matches_workers_witness:
  "\<exists>js w1. claim_due_webhook_delivery_jobs (VDatetime (utc_datetime sample_now)) (VInt 5) pending_world = (Inr js, w1) \<and>
     length js = 1"
proof -
  have "length (jobs (w_working pending_world)) \<le> nat 5" by code_simp
  then show ?thesis
    using summary_matches_workers [OF _ _ wf_VInt sample_summary_run, of 5] sample_schema_ok(1) sample_limits(3)
    by (auto simp: sample_summary_sel)
qed

theorem summary_timeout_overflow_witness:
  "fst (operational_summary_route (VInt 80000000000) pending_world) = Inl (OverflowError ''date value out of range'')"
proof -
  have "datetime_in_range sample_now" "sample_now < 80000000000 * 1000000" by code_simp+
  then show ?thesis
    using summary_timeout_overflow [of pending_world 80000000000] by (simp add: sample_env_def)
qed

section \<open>The cursor\<close>

abbreviation sample_snapshot :: delivery_job_snapshot where
  "sample_snapshot \<equiv> row_snapshot (sample_job ''pending'' (Some 10))"

lemma sample_env_depth [simp]: "e_json_depth (sample_env http) = 1000"
  by (simp add: sample_env_def)

lemma known_statuses: "known_status None" "known_status (Some ''pending'')"
  by (simp_all add: known_status_def job_statuses_def)

theorem cursor_round_trip_witness:
  "decode_cursor (sample_env (Httpx_response 200)) (encode_cursor sample_snapshot (Some ''pending'')) (Some ''pending'') =
     Inr (10, 3)"
proof -
  have "js_updated_at sample_snapshot = 10" "js_id sample_snapshot = 3" by (simp_all add: sample_job_def)
  moreover have "datetime_in_range 10" by code_simp
  ultimately show ?thesis using cursor_round_trip [of sample_snapshot "Some ''pending''"] known_statuses(2) by simp
qed

theorem cursor_decode_errors_witness:
  "decode_cursor (sample_env (Httpx_response 200)) (codes ''AAAA'') None = Inl WebhookDeliveryJobCursorValidationError"
proof -
  have "documented_errors (sample_env (Httpx_response 200))"
    by (simp add: documented_errors_def sample_env_def)
  moreover have "decode_cursor (sample_env (Httpx_response 200)) (codes ''AAAA'') None \<noteq> Inl RecursionError"
    "isl (decode_cursor (sample_env (Httpx_response 200)) (codes ''AAAA'') None)"
    by code_simp+
  ultimately show ?thesis
    using cursor_decode_errors [of "sample_env (Httpx_response 200)" None]
    by (cases "decode_cursor (sample_env (Httpx_response 200)) (codes ''AAAA'') None") auto
qed

section \<open>The job list\<close>

definition sample_two_db :: db where
  "sample_two_db =
     (sample_db [sample_job ''pending'' (Some 10)])
       \<lparr>events := [sample_event, sample_event\<lparr>ev_id := 5, ev_idempotency_key := None\<rparr>],
        jobs := [sample_job ''pending'' (Some 10),
                 (sample_job ''processing'' (Some 20))\<lparr>job_id := 6, job_event_id := 5, job_updated_at := 20\<rparr>]\<rparr>"

abbreviation two_world :: world where
  "two_world \<equiv> sample_world (Httpx_response 200) sample_two_db"

lemma two_world_listable: "listable two_world"
proof -
  have "schema_ok sample_two_db" "\<forall>j \<in> set (jobs sample_two_db). datetime_in_range (job_updated_at j)"
    by code_simp+
  then show ?thesis by (simp add: listable_def)
qed

lemma two_jobs:
  "map job_id (rev (sort_key list_order (filter (status_clause None) (jobs sample_two_db)))) = [6, 3]"
  "length (filter (status_clause None) (jobs sample_two_db)) = 2"
  by code_simp+

theorem job_pages_complete_witness:
  "map_sum id (map_prod (map js_id) id) (walk_pages None (VInt 1) None [two_world, two_world]) = Inr ([6, 3], True)"
proof -
  have "replicate 2 two_world = [two_world, two_world]" by (simp add: numeral_2_eq_2)
  moreover have "js_id \<circ> row_snapshot = job_id" by (simp add: fun_eq_iff)
  ultimately show ?thesis
    using job_pages_complete [OF two_world_listable known_statuses(1), of 1 2] two_jobs
    by (simp del: walk_pages.simps)
qed

theorem job_pages_once_witness:
  "\<exists>items finished. walk_pages None (VInt 1) None [pending_world, two_world] = Inr (items, finished) \<and>
     (finished \<longrightarrow> filter (\<lambda>s. js_id s = 3) items = [sample_snapshot])"
proof -
  have "sample_job ''pending'' (Some 10) \<in> set (jobs sample_two_db)"
    "datetime_in_range (job_updated_at (sample_job ''pending'' (Some 10)))"
    "job_id (sample_job ''pending'' (Some 10)) = 3"
    by code_simp+
  moreover from this have "listable pending_world"
    using sample_schema_ok(1) by (simp add: listable_def) (simp add: sample_db_def)
  ultimately show ?thesis
    using job_pages_once [of "[pending_world, two_world]" "sample_job ''pending'' (Some 10)" None 1]
      two_world_listable known_statuses(1)
    by (simp add: status_clause_def) (simp add: sample_db_def)
qed

section \<open>The routes\<close>

abbreviation paid_event :: event_create where
  "paid_event \<equiv> \<lparr>vc_endpoint_id = 1, vc_event_type = ''order.paid'', vc_payload = JObj []\<rparr>"

abbreviation repeated_event :: event_create where
  "repeated_event \<equiv> \<lparr>vc_endpoint_id = 1, vc_event_type = ''order.created'', vc_payload = JObj []\<rparr>"


abbreviation new_endpoint :: endpoint_create where
  "new_endpoint \<equiv> \<lparr>ec_name = ''billing'', ec_target_url = ''http://b/''\<rparr>"

text \<open>A parser that adds the missing slash, and a host of 2041 characters.\<close>

definition slash_url :: "string \<Rightarrow> string option" where
  "slash_url s = Some (if s \<noteq> [] \<and> last s = CHR 0x2F then s else s @ [CHR 0x2F])"

abbreviation long_url :: string where
  "long_url \<equiv> ''http://'' @ replicate 2041 CHR ''a''"

abbreviation long_endpoint :: endpoint_create where
  "long_endpoint \<equiv> \<lparr>ec_name = ''billing'', ec_target_url = long_url @ [CHR 0x2F]\<rparr>"

lemma long_url_accepted: "parse_endpoint_create id slash_url ''billing'' long_url = Some long_endpoint"
proof -
  have "ascii (codes long_url)" by (simp add: ascii_def codes_def)
  then have "utf8_length long_url = length long_url" by (rule utf8_length_ascii)
  then show ?thesis
    by (simp add: parse_endpoint_create_def constrained_str_def endpoint_url_def slash_url_def Let_def)
qed


theorem replay_request_witness:
  "\<exists>r. fst (get_session (replay_webhook_event_route 2) finished_world) = Inr (202, r) \<and> rp_next_attempt_at r = sample_now"
proof -
  have "get_event 2 (w_committed finished_world) = Some sample_event"
    "get_event_job 2 (w_committed finished_world) = Some (sample_job ''succeeded'' None)"
    "ep_is_active (the (get_endpoint (ev_endpoint_id sample_event) (w_committed finished_world)))"
    "job_status (sample_job ''succeeded'' None) = ''succeeded''" "datetime_in_range sample_now"
    by code_simp+
  then show ?thesis
    using replay_request [of finished_world sample_now 2] sample_schema_ok(3) by (simp add: sample_env_def Let_def)
qed

theorem attempt_request_witness:
  "fst (get_session (create_webhook_delivery_attempt httpx2_post_json 9 (VInt 5)) pending_world) =
     Inl (HTTPException 404 ''Webhook event not found'') \<and>
   (\<exists>a. fst (get_session (create_webhook_delivery_attempt httpx2_post_json 2 (VInt 5)) pending_world) = Inr (201, a) \<and>
     at_event_id a = 2 \<and> at_attempt_number a = 1 \<and> at_outcome a = ''succeeded'') \<and>
   fst (get_session (create_webhook_delivery_attempt httpx2_post_json 2 (VInt 5))
     (sample_world (Httpx_other ''RuntimeError'') (sample_db [sample_job ''pending'' (Some 10)]))) =
     Inl (HttpClientError ''RuntimeError'')"
proof -
  let ?w = "sample_world (Httpx_other ''RuntimeError'') (sample_db [sample_job ''pending'' (Some 10)])"
  have pre: "check_post_timeout (VInt 5) = Inr ()" "get_event 9 (w_committed pending_world) = None"
    "get_event 2 (w_committed pending_world) = Some sample_event"
    "get_endpoint 1 (w_committed pending_world) = Some sample_endpoint" "ep_is_active sample_endpoint"
    "max_attempt_number 2 (w_committed pending_world) = None"
    by code_simp+
  have ok: "\<not> isl (fst (get_session (create_webhook_delivery_attempt httpx2_post_json 2 (VInt 5)) pending_world))"
    by code_simp
  have unknown: "fst (get_session (create_webhook_delivery_attempt httpx2_post_json 9 (VInt 5)) pending_world) =
      Inl (HTTPException 404 ''Webhook event not found'')"
    using attempt_request [of pending_world sample_now 9 "VInt 5"] pre sample_schema_ok(1)
    by (simp add: sample_env_def Let_def)
  have failed: "fst (get_session (create_webhook_delivery_attempt httpx2_post_json 2 (VInt 5)) ?w) =
      Inl (HttpClientError ''RuntimeError'')"
    using attempt_request [of ?w sample_now 2 "VInt 5"] pre sample_schema_ok(1)
    by (simp add: sample_env_def sample_event_sel Let_def)
  let ?d = "w_committed pending_world"
  let ?r = "fst (get_session (create_webhook_delivery_attempt httpx2_post_json 2 (VInt 5)) pending_world)"
  have "\<exists>a. at_event_id a = 2 \<and> at_attempt_number a = 1 \<and>
      (at_outcome a, at_response_status_code a, at_error_message a) = classify (Responded 200) \<and>
      (case insert_attempt a ?d of Inl e \<Rightarrow> ?r = Inl e | Inr d' \<Rightarrow> ?r = Inr (201, a))"
    using attempt_request [of pending_world sample_now 2 "VInt 5"] pre sample_schema_ok(1)
    by (simp add: sample_env_def sample_event_sel Let_def next_attempt_number_def)
      (erule exE, rule exI, auto split: sum.split_asm sum.split)
  then obtain a where a: "at_event_id a = 2" "at_attempt_number a = 1" "at_outcome a = ''succeeded''"
    and inserted: "case insert_attempt a ?d of Inl e \<Rightarrow> ?r = Inl e | Inr d' \<Rightarrow> ?r = Inr (201, a)"
    by auto
  then have sent: "\<exists>a. ?r = Inr (201, a) \<and> at_event_id a = 2 \<and> at_attempt_number a = 1 \<and> at_outcome a = ''succeeded''"
    using ok by (cases "insert_attempt a ?d") auto
  show ?thesis using unknown sent failed by blast
qed

end
