(* ===== verification/Worker_Process.thy ===== *)
theory Worker_Process
  imports Config
begin

text \<open>
  \<open>worker.py\<close>: the process around the worker loop: settings, engine, signal handlers and HTTP client are set up
  in this order and taken down in the reverse one. The process has its signal table, the calls of the
  libraries may fail, and what it sets up and takes down goes into a log. The worker loop is a
  parameter of the process; the properties put the modelled loop in its place.
\<close>

section \<open>Signals\<close>

datatype signal = SIGINT | SIGTERM

text \<open>\<open>getsignal\<close> answers None for a handler that Python did not install.\<close>

datatype handler = Foreign | Python_handler nat | Request_shutdown

datatype process_event =
    Engine_created
  | Engine_disposed
  | Client_created
  | Client_entered
  | Client_closed
  | Worker_run worker_config

record process =
  pr_handlers :: "signal \<Rightarrow> handler"
  pr_main_thread :: bool
  pr_has_sigterm :: bool
  pr_raw_settings :: "string \<Rightarrow> pyval option"
  pr_faults :: "bool list"
  pr_context_entered :: bool
  pr_log :: "process_event list"
  pr_world :: world

definition log_event :: "process_event \<Rightarrow> process \<Rightarrow> process" where
  "log_event ev p = p\<lparr>pr_log := pr_log p @ [ev]\<rparr>"

text \<open>\<open>signal.signal\<close>: only in the main thread, and not with None.\<close>

definition signal_signal :: "signal \<Rightarrow> handler \<Rightarrow> (process, unit) io" where
  "signal_signal s h p =
     (if \<not> pr_main_thread p then (Inl (ValueError ''signal only works in main thread of the main interpreter''), p)
      else if h = Foreign
        then (Inl (TypeError ''signal handler must be signal.SIG_IGN, signal.SIG_DFL, or a callable object''), p)
      else (Inr (), p\<lparr>pr_handlers := (pr_handlers p)(s := h)\<rparr>))"

definition signals_to_install :: "process \<Rightarrow> signal list" where
  "signals_to_install p = SIGINT # (if pr_has_sigterm p then [SIGTERM] else [])"

text \<open>The loop over the signals, with the handlers replaced so far and the exception that stopped it.\<close>

fun install_handlers ::
  "signal list \<Rightarrow> (signal \<times> handler) list \<Rightarrow> process \<Rightarrow> (exc option \<times> (signal \<times> handler) list) \<times> process" where
  "install_handlers [] previous_handlers p = ((None, previous_handlers), p)"
| "install_handlers (s # ss) previous_handlers p =
     (let previous_handler = pr_handlers p s in
      case signal_signal s Request_shutdown p of
        (Inl e, p1) \<Rightarrow> ((Some e, previous_handlers), p1)
      | (Inr _, p1) \<Rightarrow> install_handlers ss (previous_handlers @ [(s, previous_handler)]) p1)"

fun restore_handlers :: "(signal \<times> handler) list \<Rightarrow> (process, unit) io" where
  "restore_handlers [] = returnE ()"
| "restore_handlers ((s, h) # rest) = bindE (signal_signal s h) (\<lambda>_. restore_handlers rest)"

definition installed_shutdown_handlers :: "(process, 'a) io \<Rightarrow> (process, 'a) io" where
  "installed_shutdown_handlers body p =
     (case install_handlers (signals_to_install p) [] p of
        ((Some e, previous_handlers), p1) \<Rightarrow>
          bindE (restore_handlers (rev previous_handlers)) (\<lambda>_. raiseE e) p1
      | ((None, previous_handlers), p1) \<Rightarrow>
          try_finally body (restore_handlers (rev previous_handlers)) p1)"

section \<open>The process\<close>

text \<open>A library call that may raise.\<close>

definition library_call :: "process_event \<Rightarrow> (process, unit) io" where
  "library_call ev p =
     (case pr_faults p of
        True # rest \<Rightarrow> (Inl (RuntimeError ''library call''), p\<lparr>pr_faults := rest\<rparr>)
      | False # rest \<Rightarrow> (Inr (), log_event ev (p\<lparr>pr_faults := rest\<rparr>))
      | [] \<Rightarrow> (Inr (), log_event ev p))"

definition logged :: "process_event \<Rightarrow> (process, unit) io" where
  "logged ev p = (Inr (), log_event ev p)"

definition worker_config_of :: "settings \<Rightarrow> worker_config" where
  "worker_config_of s =
     \<lparr>wc_poll_interval_seconds = VFloat (webhook_worker_poll_interval_seconds s),
      wc_stale_processing_timeout_seconds = VFloat (webhook_worker_stale_processing_timeout_seconds s),
      wc_recovery_limit = VInt (webhook_worker_recovery_limit s),
      wc_processing_limit = VInt (webhook_worker_processing_limit s),
      wc_timeout_seconds = VFloat (webhook_delivery_timeout_seconds s),
      wc_max_attempts = VInt (webhook_delivery_max_attempts s),
      wc_base_delay_seconds = VFloat (webhook_delivery_retry_base_seconds s),
      wc_max_delay_seconds = VFloat (webhook_delivery_retry_max_seconds s)\<rparr>"

type_synonym worker = "worker_config \<Rightarrow> world \<Rightarrow> (exc + worker_run_result) \<times> world"

definition run_worker :: "worker \<Rightarrow> worker_config \<Rightarrow> (process, worker_run_result) io" where
  "run_worker worker cfg p =
     (case worker cfg (pr_world p) of
        (r, w) \<Rightarrow> (r, log_event (Worker_run cfg) (p\<lparr>pr_world := w\<rparr>)))"

definition set_context_entered :: "bool \<Rightarrow> (process, unit) io" where
  "set_context_entered b p = (Inr (), p\<lparr>pr_context_entered := b\<rparr>)"

text \<open>\<open>with owned_http_client as raw_http_client: ...\<close> inside its \<open>try\<close> and \<open>finally\<close>.\<close>

definition with_http_client :: "worker \<Rightarrow> worker_config \<Rightarrow> (process, worker_run_result) io" where
  "with_http_client worker cfg =
     bindE (library_call Client_created) (\<lambda>_.
     bindE (set_context_entered False) (\<lambda>_.
     try_finally
       (bindE (library_call Client_entered) (\<lambda>_.
        try_finally
          (bindE (set_context_entered True) (\<lambda>_. run_worker worker cfg))
          (logged Client_closed)))
       (\<lambda>p. if \<not> pr_context_entered p then logged Client_closed p else returnE () p)))"

definition run_worker_process :: "coercions \<Rightarrow> worker \<Rightarrow> (process, worker_run_result) io" where
  "run_worker_process co worker p =
     (case make_settings co (pr_raw_settings p) of
        Inl e \<Rightarrow> (Inl e, p)
      | Inr s \<Rightarrow>
          bindE (library_call Engine_created) (\<lambda>_.
          try_finally
            (installed_shutdown_handlers (with_http_client worker (worker_config_of s)))
            (logged Engine_disposed)) p)"

definition main_worker :: "coercions \<Rightarrow> worker \<Rightarrow> (process, int) io" where
  "main_worker co worker =
     try_except (bindE (run_worker_process co worker) (\<lambda>res. returnE 0)) (\<lambda>error. returnE 1)"

section \<open>The settings reach the worker\<close>

lemma accepted_worker_config:
  assumes "make_settings co raw = Inr s"
  shows "validate_worker_config (worker_config_of s) = Inr ()"
proof -
  note ok = make_settings_Inr [OF assms]
  show ?thesis
    using ok(5,6) positive_finite_checks(1) [OF ok(1)] positive_finite_checks(1) [OF ok(3)]
      positive_finite_checks(1) [OF ok(4)]
    by (simp add: worker_config_of_def validate_worker_config_def validate_named_limit_def positive_int_def)
qed

text \<open>
  C37: Accepted settings pass every later check. The validators of the settings are at least as strict as
  those of the worker loop, the worker iteration, the processing cycle, the retry policy and the HTTP
  client: with the configuration built from accepted settings, none of them raises.
\<close>

theorem settings_pass_every_check:
  assumes "make_settings co raw = Inr s"
  shows "(let cfg = worker_config_of s in
    validate_worker_config cfg = Inr () \<and>
    validate_timeout_seconds (wc_timeout_seconds cfg) = Inr () \<and>
    check_post_timeout (wc_timeout_seconds cfg) = Inr () \<and>
    (\<exists>n. validate_claim_limit (wc_processing_limit cfg) = Inr n) \<and>
    (\<exists>n. validate_recovery_limit (wc_recovery_limit cfg) = Inr n) \<and>
    (\<exists>n. validate_positive_integer ''max_attempts'' (wc_max_attempts cfg) = Inr n) \<and>
    (\<exists>d. validate_delays (wc_base_delay_seconds cfg) (wc_max_delay_seconds cfg) = Inr d))"
proof -
  note ok = make_settings_Inr [OF assms]
  obtain b m where "webhook_delivery_retry_base_seconds s = Fin b" "webhook_delivery_retry_max_seconds s = Fin m"
    "0 < b" "b \<le> m"
    using ok(7) by blast
  then show ?thesis
    using ok(2,5,6) positive_finite_checks(2,3) [OF ok(1)] accepted_worker_config [OF assms]
    by (simp add: Let_def worker_config_of_def validate_claim_limit_def validate_recovery_limit_def positive_int_def validate_positive_integer_def validate_delays_def
        validate_delay_seconds_def)
qed

section \<open>Setting up and taking down\<close>

lemma log_event_sel [simp]:
  "pr_handlers (log_event ev p) = pr_handlers p" "pr_main_thread (log_event ev p) = pr_main_thread p"
  "pr_has_sigterm (log_event ev p) = pr_has_sigterm p" "pr_faults (log_event ev p) = pr_faults p"
  "pr_context_entered (log_event ev p) = pr_context_entered p" "pr_log (log_event ev p) = pr_log p @ [ev]"
  "pr_world (log_event ev p) = pr_world p" "pr_raw_settings (log_event ev p) = pr_raw_settings p"
  by (simp_all add: log_event_def)

text \<open>What a computation does to the signal table and the log.\<close>

definition quiet_signals :: "(process, 'a) io \<Rightarrow> bool" where
  "quiet_signals m \<longleftrightarrow>
     (\<forall>p. pr_handlers (snd (m p)) = pr_handlers p \<and> pr_main_thread (snd (m p)) = pr_main_thread p \<and>
        pr_has_sigterm (snd (m p)) = pr_has_sigterm p)"

lemma quiet_with_client: "quiet_signals (with_http_client worker cfg)"
  by (auto simp: quiet_signals_def with_http_client_def block_simps library_call_def set_context_entered_def
      run_worker_def logged_def returnE_def split: list.splits bool.splits prod.splits sum.splits)

lemma client_log:
  "\<exists>ls. pr_log (snd (with_http_client worker cfg p)) = pr_log p @ ls \<and>
     (ls \<in> {[], [Client_created, Client_closed]} \<and> isl (fst (with_http_client worker cfg p)) \<or>
      ls = [Client_created, Client_entered, Worker_run cfg, Client_closed] \<and>
        fst (with_http_client worker cfg p) = fst (worker cfg (pr_world p)))"
  by (auto simp: with_http_client_def block_simps library_call_def set_context_entered_def run_worker_def
      logged_def returnE_def split: list.splits bool.splits prod.splits sum.splits)

lemma install_run:
  "install_handlers (signals_to_install p) [] p =
    (if \<not> pr_main_thread p
     then ((Some (ValueError ''signal only works in main thread of the main interpreter''), []), p)
     else ((None, map (\<lambda>s. (s, pr_handlers p s)) (signals_to_install p)),
           p\<lparr>pr_handlers := (\<lambda>s. if s \<in> set (signals_to_install p) then Request_shutdown else pr_handlers p s)\<rparr>))"
  by (auto simp: signals_to_install_def signal_signal_def fun_eq_iff Let_def)

lemma restore_run:
  assumes "pr_main_thread p" and "\<forall>(s, h) \<in> set hs. h \<noteq> Foreign" and "distinct (map fst hs)"
  shows "restore_handlers hs p =
    (Inr (), p\<lparr>pr_handlers := (\<lambda>s. case map_of hs s of None \<Rightarrow> pr_handlers p s | Some h \<Rightarrow> h)\<rparr>)"
  using assms
proof (induction hs arbitrary: p)
  case Nil
  then show ?case by (simp add: returnE_def)
next
  case (Cons sh hs)
  obtain s h where sh: "sh = (s, h)" by (cases sh)
  have "map_of hs s = None" using Cons.prems(3) by (simp add: sh map_of_eq_None_iff)
  then show ?case
    using Cons by (auto simp: sh bindE_def signal_signal_def fun_eq_iff split: option.splits)
qed

lemma restore_keeps_log: "pr_log (snd (restore_handlers hs p)) = pr_log p"
  by (induction hs arbitrary: p) (auto simp: returnE_def bindE_def signal_signal_def split: sum.splits prod.splits if_splits)

text \<open>
  The context manager puts the table back and lets the body's result through. A handler that Python did not
  install cannot be put back: \<open>getsignal\<close> answered None, which \<open>signal.signal\<close> refuses, in place of
  whatever the body did.
\<close>

definition all_python :: "process \<Rightarrow> bool" where
  "all_python p \<longleftrightarrow> (\<forall>s \<in> set (signals_to_install p). pr_handlers p s \<noteq> Foreign)"

definition refused_handler :: exc where
  "refused_handler = TypeError ''signal handler must be signal.SIG_IGN, signal.SIG_DFL, or a callable object''"

definition handlers_after :: "process \<Rightarrow> exc + 'a \<Rightarrow> exc + 'a \<Rightarrow> process \<Rightarrow> bool" where
  "handlers_after p body_result r p' \<longleftrightarrow>
     (if all_python p then r = body_result \<and> pr_handlers p' = pr_handlers p
      else r = Inl refused_handler \<and> pr_handlers p' SIGINT = Request_shutdown)"

lemma restore_foreign:
  assumes "pr_main_thread q" and "\<not> all_python p"
    and "\<And>s. s \<in> set (signals_to_install p) \<Longrightarrow> pr_handlers q s = Request_shutdown"
  shows "fst (restore_handlers (rev (map (\<lambda>s. (s, pr_handlers p s)) (signals_to_install p))) q) = Inl refused_handler \<and>
    pr_handlers (snd (restore_handlers (rev (map (\<lambda>s. (s, pr_handlers p s)) (signals_to_install p))) q)) SIGINT =
      Request_shutdown"
  using assms
  by (cases "pr_handlers p SIGTERM = Foreign"; cases "pr_has_sigterm p")
    (auto simp: signals_to_install_def all_python_def bindE_def signal_signal_def refused_handler_def)

lemma handlers_run:
  assumes "quiet_signals body" and "installed_shutdown_handlers body p = (r, p')"
  obtains (outside) "isl r" "pr_log p' = pr_log p" "pr_handlers p' = pr_handlers p"
  | (inside) p1 where "pr_log p1 = pr_log p" "pr_world p1 = pr_world p" "pr_log p' = pr_log (snd (body p1))"
      "handlers_after p (fst (body p1)) r p'"
proof (cases "pr_main_thread p")
  case False
  then show thesis
    using assms(2) outside by (auto simp: installed_shutdown_handlers_def install_run bindE_def returnE_def raiseE_def)
next
  case True
  let ?sigs = "signals_to_install p"
  define p1 where "p1 = p\<lparr>pr_handlers := (\<lambda>s. if s \<in> set ?sigs then Request_shutdown else pr_handlers p s)\<rparr>"
  define hs where "hs = rev (map (\<lambda>s. (s, pr_handlers p s)) ?sigs)"
  obtain r1 p2 where body: "body p1 = (r1, p2)" by fastforce
  moreover have "pr_handlers (snd (body p1)) = pr_handlers p1 \<and> pr_main_thread (snd (body p1)) = pr_main_thread p1"
    using assms(1) by (simp add: quiet_signals_def)
  ultimately have p2: "pr_handlers p2 = pr_handlers p1" "pr_main_thread p2"
    using True by (simp_all add: p1_def)
  have run: "(r, p') = (case restore_handlers hs p2 of (Inl e, q) \<Rightarrow> (Inl e, q) | (Inr _, q) \<Rightarrow> (r1, q))"
    using assms(2) True body
    by (simp add: installed_shutdown_handlers_def install_run p1_def [symmetric] hs_def [symmetric] try_finally_def)
  have log: "pr_log p' = pr_log p2"
    using run restore_keeps_log [of hs p2] by (auto split: prod.split_asm sum.split_asm)
  have "handlers_after p r1 r p'"
  proof (cases "all_python p")
    case True
    have distinct: "distinct (map fst hs)" by (simp add: hs_def rev_map [symmetric] signals_to_install_def o_def)
    have good: "\<forall>(s, h) \<in> set hs. h \<noteq> Foreign" using True by (auto simp: hs_def all_python_def)
    have lookup: "map_of hs s = (if s \<in> set ?sigs then Some (pr_handlers p s) else None)" for s
      by (auto simp: hs_def signals_to_install_def)
    have "restore_handlers hs p2 = (Inr (), p2\<lparr>pr_handlers := pr_handlers p\<rparr>)"
      unfolding restore_run [OF p2(2) good distinct] lookup
      by (simp add: p2(1) p1_def fun_eq_iff)
    then show ?thesis using run True by (simp add: handlers_after_def)
  next
    case False
    have "pr_handlers p2 s = Request_shutdown" if "s \<in> set ?sigs" for s using that by (simp add: p2(1) p1_def)
    from restore_foreign [OF p2(2) False this] show ?thesis
      using run False by (cases "restore_handlers hs p2") (auto simp: handlers_after_def hs_def)
  qed
  then show thesis using inside [of p1] body log by (simp add: p1_def)
qed

lemma process_log:
  assumes "run_worker_process co worker p = (r, p')"
  shows "\<exists>ls. pr_log p' = pr_log p @ ls \<and>
    (ls \<in> {[], [Engine_created, Engine_disposed], [Engine_created, Client_created, Client_closed, Engine_disposed]} \<and> isl r \<or>
     (\<exists>s. make_settings co (pr_raw_settings p) = Inr s \<and>
        ls = [Engine_created, Client_created, Client_entered, Worker_run (worker_config_of s), Client_closed, Engine_disposed] \<and>
        handlers_after p (fst (worker (worker_config_of s) (pr_world p))) r p')) \<and>
    (all_python p \<longrightarrow> pr_handlers p' = pr_handlers p)"
proof (cases "make_settings co (pr_raw_settings p)")
  case (Inl e)
  then show ?thesis using assms by (auto simp: run_worker_process_def)
next
  case (Inr s)
  let ?client = "with_http_client worker (worker_config_of s)"
  define p0 where "p0 = snd (library_call Engine_created p)"
  have same: "pr_handlers p0 = pr_handlers p" "pr_world p0 = pr_world p" "signals_to_install p0 = signals_to_install p"
    by (auto simp: p0_def library_call_def signals_to_install_def split: list.splits bool.splits)
  then have same_table: "all_python p0 = all_python p" by (simp add: all_python_def)
  with same(1) have after: "handlers_after p0 = (handlers_after p :: exc + worker_run_result \<Rightarrow> _)"
    by (intro ext) (simp add: handlers_after_def)
  consider (failed) "r = Inl (RuntimeError ''library call'')" "p' = p0" "pr_log p0 = pr_log p"
    | (started) p1 where "installed_shutdown_handlers ?client p0 = (r, p1)"
        "p' = log_event Engine_disposed p1" "pr_log p0 = pr_log p @ [Engine_created]"
    using assms Inr
    by (cases "installed_shutdown_handlers ?client p0")
      (auto simp: run_worker_process_def bindE_def try_finally_def logged_def p0_def library_call_def
        split: list.splits bool.splits sum.splits prod.splits)
  then show ?thesis
  proof cases
    case failed
    then show ?thesis using same by auto
  next
    case started
    from quiet_with_client started(1) show ?thesis
    proof (cases rule: handlers_run)
      case outside
      then show ?thesis using started same by auto
    next
      case (inside q)
      have handlers: "all_python p \<longrightarrow> pr_handlers p' = pr_handlers p"
        using inside(4) same(1) same_table started(2) by (auto simp: handlers_after_def split: if_split_asm)
      have result: "handlers_after p (fst (?client q)) r p'"
        using inside(4) unfolding after by (simp add: handlers_after_def started(2))
      obtain ls where ls: "pr_log (snd (?client q)) = pr_log q @ ls"
        "ls \<in> {[], [Client_created, Client_closed]} \<and> isl (fst (?client q)) \<or>
         ls = [Client_created, Client_entered, Worker_run (worker_config_of s), Client_closed] \<and>
           fst (?client q) = fst (worker (worker_config_of s) (pr_world q))"
        using client_log by blast
      have log: "pr_log p' = pr_log p @ (Engine_created # ls @ [Engine_disposed])"
        using started(2,3) inside(1,3) ls(1) by simp
      from ls(2) show ?thesis
      proof
        assume no_run: "ls \<in> {[], [Client_created, Client_closed]} \<and> isl (fst (?client q))"
        then have "isl r" using result by (auto simp: handlers_after_def split: if_split_asm)
        then show ?thesis using log no_run handlers
          by (intro exI [of _ "Engine_created # ls @ [Engine_disposed]"]) auto
      next
        assume "ls = [Client_created, Client_entered, Worker_run (worker_config_of s), Client_closed] \<and>
           fst (?client q) = fst (worker (worker_config_of s) (pr_world q))"
        then show ?thesis using log result handlers Inr inside(2) same(2)
          by (intro exI [of _ "Engine_created # ls @ [Engine_disposed]"]) auto
      qed
    qed
  qed
qed


section \<open>A timeout the validators accept\<close>

text \<open>
  A stale-processing timeout that is accepted can stop the worker. When the timeout reaches back before
  the year 1, every validator lets it through, and the first turn of the loop raises OverflowError from the
  subtraction of the timeout: the worker does not run a single iteration, sends nothing and changes
  nothing, and the process exits with 1.
\<close>

theorem stale_timeout_stops_worker:
  assumes "make_settings co raw = Inr s"
    and "timedelta_seconds (webhook_worker_stale_processing_timeout_seconds s) = Inr us"
    and "e_iteration_now (w_env w) (w_ticks w) = utc_datetime now" and "datetime_in_range now" and "now < us"
    and "\<not> e_stop (w_env w) (w_polls w)"
  shows "\<exists>w'. run_webhook_worker httpx2_post_json (worker_config_of s) w =
      Some (Inl (OverflowError ''date value out of range''), w') \<and>
    w_trace w' = w_trace w \<and> w_committed w' = w_committed w \<and> w_working w' = w_working w"
proof -
  let ?cfg = "worker_config_of s" and ?e = "OverflowError ''date value out of range''"
  let ?w1 = "w\<lparr>w_polls := Suc (w_polls w)\<rparr>"
  let ?w2 = "?w1\<lparr>w_ticks := Suc (w_ticks w)\<rparr>"
  have "instant_add now (- us) = Inl ?e"
    using assms(5) by (simp add: instant_add_def datetime_in_range_def)
  moreover have "timedelta_of (wc_stale_processing_timeout_seconds ?cfg) = Inr us"
    using assms(2) by (simp add: timedelta_of_def worker_config_of_def)
  moreover have "normalize_iteration_at (VDatetime (utc_datetime now)) = Inr now"
    using assms(4) by (simp add: normalize_iteration_at_def)
  ultimately have "iteration_times ?cfg ?w1 = (Inl ?e, ?w2)"
    using assms(3) by (simp add: iteration_times_def bindE_def tick_def liftE_def)
  then have "worker_turn httpx2_post_json ?cfg no_totals w = (Inl ?e, ?w2)"
    using assms(6) by (simp add: worker_turn_def poll_stop_run) (simp add: bindE_def)
  moreover note accepted_worker_config [OF assms(1)]
  ultimately have "run_webhook_worker httpx2_post_json ?cfg w = Some (Inl ?e, ?w2)"
    by (simp add: run_webhook_worker_def worker_loop.simps)
  then show ?thesis by simp
qed

end
