(* ===== verification/Process_Witnesses.thy ===== *)
theory Process_Witnesses
  imports Witnesses Worker_Process
begin

text \<open>
  The properties of the settings and the worker process at concrete inputs: the default settings, read by a
  library that takes numbers as they are, and a timeout of five thousand years.
\<close>

definition plain_coercions :: coercions where
  "plain_coercions =
     \<lparr>co_str = (\<lambda>v. case v of VStr s \<Rightarrow> Some s | _ \<Rightarrow> None),
      co_float = (\<lambda>v. case v of VFloat f \<Rightarrow> Some f | VInt n \<Rightarrow> Some (Fin (n * float_unit)) | _ \<Rightarrow> None),
      co_int = (\<lambda>v. case v of VInt n \<Rightarrow> Some n | _ \<Rightarrow> None)\<rparr>"

definition long_timeout :: "string \<Rightarrow> pyval option" where
  "long_timeout name =
     (if name = ''webhook_worker_stale_processing_timeout_seconds'' then Some (VInt 157680000000) else None)"

lemma default_settings_accepted:
  "\<exists>s. make_settings plain_coercions (\<lambda>name. None) = Inr s"
proof -
  have "\<not> isl (make_settings plain_coercions (\<lambda>name. None))" by code_simp
  then show ?thesis by (cases "make_settings plain_coercions (\<lambda>name. None)") auto
qed

lemma long_timeout_accepted:
  "\<exists>s. make_settings plain_coercions long_timeout = Inr s \<and>
     timedelta_seconds (webhook_worker_stale_processing_timeout_seconds s) = Inr 157680000000000000"
proof -
  have "\<not> isl (make_settings plain_coercions long_timeout)" by code_simp
  moreover have "map_sum id (\<lambda>s. timedelta_seconds (webhook_worker_stale_processing_timeout_seconds s))
      (make_settings plain_coercions long_timeout) = Inr (Inr 157680000000000000)"
    by code_simp
  ultimately show ?thesis by (cases "make_settings plain_coercions long_timeout") auto
qed

theorem settings_pass_every_check_witness:
  "\<exists>s. make_settings plain_coercions (\<lambda>name. None) = Inr s \<and> validate_worker_config (worker_config_of s) = Inr ()"
  using default_settings_accepted settings_pass_every_check by (fastforce simp: Let_def)

definition sample_process :: process where
  "sample_process =
     \<lparr>pr_handlers = (\<lambda>s. Python_handler 7), pr_main_thread = True, pr_has_sigterm = True,
      pr_raw_settings = (\<lambda>name. None), pr_faults = [False, False, True], pr_context_entered = False,
      pr_log = [], pr_world = pending_world\<rparr>"

definition idle_worker :: worker where
  "idle_worker cfg w = (Inr (worker_result no_totals), w)"

definition foreign_process :: process where
  "foreign_process =
     sample_process\<lparr>pr_handlers := (\<lambda>s. if s = SIGTERM then Foreign else Python_handler 7), pr_faults := []\<rparr>"


theorem stale_timeout_stops_worker_witness:
  "\<exists>s w'. make_settings plain_coercions long_timeout = Inr s \<and>
     run_webhook_worker httpx2_post_json (worker_config_of s) pending_world =
       Some (Inl (OverflowError ''date value out of range''), w')"
proof -
  obtain s where s: "make_settings plain_coercions long_timeout = Inr s"
    "timedelta_seconds (webhook_worker_stale_processing_timeout_seconds s) = Inr 157680000000000000"
    using long_timeout_accepted by blast
  have "datetime_in_range sample_now" "sample_now < 157680000000000000" by code_simp+
  then show ?thesis
    using stale_timeout_stops_worker [OF s, of pending_world sample_now] s(1) by (auto simp: sample_env_def)
qed

end
