(* ===== verification/Responses.thy ===== *)
theory Responses
  imports Api Worker_Loop
begin

text \<open>
  The response models of \<open>schemas.py\<close>. The framework validates what a route returns against its response
  model and answers with a server error when that fails; \<open>None\<close> is such a failure. An aware datetime is
  an instant. The contract with the tables is \<open>conforming\<close>: the schema's constraints, and what the request
  models guarantee of the rows the API itself writes.
\<close>

section \<open>Models\<close>

record endpoint_response =
  xe_id :: uuid
  xe_name :: string
  xe_target_url :: string
  xe_is_active :: bool
  xe_created_at :: instant
  xe_updated_at :: instant

record event_response =
  xv_id :: uuid
  xv_endpoint_id :: uuid
  xv_event_type :: string
  xv_payload :: "(string \<times> json) list"
  xv_created_at :: instant

record replay_response =
  xr_event_id :: uuid
  xr_delivery_job_id :: uuid
  xr_status :: string
  xr_next_attempt_at :: instant

record delivery_job_response =
  xj_id :: uuid
  xj_event_id :: uuid
  xj_status :: string
  xj_attempt_count :: int
  xj_next_attempt_at :: "instant option"
  xj_created_at :: instant
  xj_updated_at :: instant

record job_list_response =
  xl_items :: "delivery_job_response list"
  xl_next_cursor :: "unicode option"

record counts_response =
  xc_pending :: int
  xc_processing :: int
  xc_succeeded :: int
  xc_dead_letter :: int
  xc_due_pending :: int
  xc_stale_processing :: int

record summary_response =
  xs_generated_at :: instant
  xs_delivery_jobs :: counts_response
  xs_oldest_due_pending_at :: "instant option"
  xs_oldest_processing_updated_at :: "instant option"
  xs_stale_processing_before :: instant

record attempt_response =
  xa_id :: uuid
  xa_event_id :: uuid
  xa_attempt_number :: int
  xa_outcome :: string
  xa_target_url :: string
  xa_response_status_code :: "int option"
  xa_error_message :: "string option"
  xa_duration_ms :: int
  xa_attempted_at :: instant

section \<open>Validation\<close>

definition literal :: "string list \<Rightarrow> string \<Rightarrow> string option" where
  "literal allowed s = (if s \<in> set allowed then Some s else None)"

definition non_negative :: "int \<Rightarrow> int option" where
  "non_negative n = (if 0 \<le> n then Some n else None)"

definition endpoint_to_response :: "(string \<Rightarrow> string option) \<Rightarrow> endpoint_row \<Rightarrow> endpoint_response option" where
  "endpoint_to_response http_url r =
     map_option (\<lambda>u. \<lparr>xe_id = ep_id r, xe_name = ep_name r, xe_target_url = u, xe_is_active = ep_is_active r,
         xe_created_at = ep_created_at r, xe_updated_at = ep_updated_at r\<rparr>)
       (endpoint_url http_url (ep_target_url r))"

definition event_to_response :: "event_row \<Rightarrow> event_response option" where
  "event_to_response r =
     (case ev_payload r of
        JObj kvs \<Rightarrow> Some \<lparr>xv_id = ev_id r, xv_endpoint_id = ev_endpoint_id r, xv_event_type = ev_event_type r,
                     xv_payload = kvs, xv_created_at = ev_created_at r\<rparr>
      | _ \<Rightarrow> None)"

definition job_to_response :: "delivery_job_snapshot \<Rightarrow> delivery_job_response option" where
  "job_to_response s =
     map_option (\<lambda>st. \<lparr>xj_id = js_id s, xj_event_id = js_event_id s, xj_status = st,
         xj_attempt_count = js_attempt_count s, xj_next_attempt_at = js_next_attempt_at s,
         xj_created_at = js_created_at s, xj_updated_at = js_updated_at s\<rparr>)
       (literal [''pending'', ''processing'', ''succeeded'', ''dead_letter''] (js_status s))"

definition attempt_to_response :: "attempt_row \<Rightarrow> attempt_response option" where
  "attempt_to_response r =
     map_option (\<lambda>outcome. \<lparr>xa_id = at_id r, xa_event_id = at_event_id r, xa_attempt_number = at_attempt_number r,
         xa_outcome = outcome, xa_target_url = at_target_url r, xa_response_status_code = at_response_status_code r,
         xa_error_message = at_error_message r, xa_duration_ms = at_duration_ms r,
         xa_attempted_at = at_attempted_at r\<rparr>)
       (literal [''succeeded'', ''failed''] (at_outcome r))"

text \<open>The routes build the last three from the service's result; the replay route writes its status itself.\<close>

definition replay_to_response :: "replay_result \<Rightarrow> replay_response option" where
  "replay_to_response r =
     map_option (\<lambda>st. \<lparr>xr_event_id = rp_event_id r, xr_delivery_job_id = rp_delivery_job_id r, xr_status = st,
         xr_next_attempt_at = rp_next_attempt_at r\<rparr>)
       (literal [''pending''] ''pending'')"

fun all_some :: "'a option list \<Rightarrow> 'a list option" where
  "all_some [] = Some []"
| "all_some (x # xs) =
     (case x of None \<Rightarrow> None | Some y \<Rightarrow> map_option (Cons y) (all_some xs))"

definition page_to_response :: "delivery_job_page \<Rightarrow> job_list_response option" where
  "page_to_response page =
     map_option (\<lambda>items. \<lparr>xl_items = items, xl_next_cursor = pg_next_cursor page\<rparr>)
       (all_some (map job_to_response (pg_items page)))"

definition counts_to_response :: "operational_counts \<Rightarrow> counts_response option" where
  "counts_to_response c =
     (case all_some (map non_negative
        [oc_pending c, oc_processing c, oc_succeeded c, oc_dead_letter c, oc_due_pending c, oc_stale_processing c]) of
        Some [p, r, s, l, d, t] \<Rightarrow> Some \<lparr>xc_pending = p, xc_processing = r, xc_succeeded = s, xc_dead_letter = l,
                                xc_due_pending = d, xc_stale_processing = t\<rparr>
      | _ \<Rightarrow> None)"

definition summary_to_response :: "operational_summary \<Rightarrow> summary_response option" where
  "summary_to_response s =
     map_option (\<lambda>c. \<lparr>xs_generated_at = os_generated_at s, xs_delivery_jobs = c,
         xs_oldest_due_pending_at = os_oldest_due_pending_at s,
         xs_oldest_processing_updated_at = os_oldest_processing_updated_at s,
         xs_stale_processing_before = os_stale_processing_before s\<rparr>)
       (counts_to_response (os_delivery_jobs s))"

definition readiness_valid :: "readiness_response \<Rightarrow> bool" where
  "readiness_valid r \<longleftrightarrow> rr_status r \<in> {''ready'', ''not_ready''} \<and> rr_database r \<in> {''ok'', ''unavailable''}"

section \<open>Conforming tables\<close>

definition conforming :: "(string \<Rightarrow> string option) \<Rightarrow> db \<Rightarrow> bool" where
  "conforming http_url d \<longleftrightarrow>
     schema_ok d \<and>
     (\<forall>r \<in> set (endpoints d). endpoint_url http_url (ep_target_url r) = Some (ep_target_url r)) \<and>
     (\<forall>r \<in> set (events d). \<exists>kvs. ev_payload r = JObj kvs)"

lemma all_some_map: "(\<And>x. x \<in> set xs \<Longrightarrow> f x = Some (g x)) \<Longrightarrow> all_some (map f xs) = Some (map g xs)"
  by (induction xs) simp_all

lemma schema_ok_outcome: "schema_ok d \<Longrightarrow> r \<in> set (attempts d) \<Longrightarrow> at_outcome r \<in> {''succeeded'', ''failed''}"
  by (auto simp: schema_ok_def attempt_check_def split: if_split_asm)

definition endpoint_answer :: "endpoint_row \<Rightarrow> endpoint_response" where
  "endpoint_answer r = \<lparr>xe_id = ep_id r, xe_name = ep_name r, xe_target_url = ep_target_url r,
     xe_is_active = ep_is_active r, xe_created_at = ep_created_at r, xe_updated_at = ep_updated_at r\<rparr>"

definition attempt_answer :: "attempt_row \<Rightarrow> attempt_response" where
  "attempt_answer r = \<lparr>xa_id = at_id r, xa_event_id = at_event_id r, xa_attempt_number = at_attempt_number r,
     xa_outcome = at_outcome r, xa_target_url = at_target_url r, xa_response_status_code = at_response_status_code r,
     xa_error_message = at_error_message r, xa_duration_ms = at_duration_ms r, xa_attempted_at = at_attempted_at r\<rparr>"

definition job_answer :: "job_row \<Rightarrow> delivery_job_response" where
  "job_answer j = \<lparr>xj_id = job_id j, xj_event_id = job_event_id j, xj_status = job_status j,
     xj_attempt_count = job_attempt_count j, xj_next_attempt_at = job_next_attempt_at j,
     xj_created_at = job_created_at j, xj_updated_at = job_updated_at j\<rparr>"

lemma conforming_answers:
  assumes "conforming http_url d"
  shows "e \<in> set (endpoints d) \<Longrightarrow> endpoint_to_response http_url e = Some (endpoint_answer e)"
    and "a \<in> set (attempts d) \<Longrightarrow> attempt_to_response a = Some (attempt_answer a)"
    and "j \<in> set (jobs d) \<Longrightarrow> job_to_response (row_snapshot j) = Some (job_answer j)"
    and "v \<in> set (events d) \<Longrightarrow> \<exists>x. event_to_response v = Some x \<and> xv_id x = ev_id v \<and> JObj (xv_payload x) = ev_payload v"
proof -
  have ok: "schema_ok d" using assms by (simp add: conforming_def)
  show "endpoint_to_response http_url e = Some (endpoint_answer e)" if "e \<in> set (endpoints d)"
    using assms that by (simp add: conforming_def endpoint_to_response_def endpoint_answer_def)
  show "attempt_to_response a = Some (attempt_answer a)" if "a \<in> set (attempts d)"
    using schema_ok_outcome [OF ok that] by (auto simp: attempt_to_response_def literal_def attempt_answer_def)
  show "job_to_response (row_snapshot j) = Some (job_answer j)" if "j \<in> set (jobs d)"
    using schema_ok_job_status [OF ok that]
    by (simp add: job_to_response_def literal_def job_answer_def row_snapshot_def job_statuses_def)
  show "\<exists>x. event_to_response v = Some x \<and> xv_id x = ev_id v \<and> JObj (xv_payload x) = ev_payload v" if "v \<in> set (events d)"
    using assms that by (auto simp: conforming_def event_to_response_def)
qed

lemma all_some_nonneg: "\<forall>n \<in> set ns. 0 \<le> n \<Longrightarrow> all_some (map non_negative ns) = Some ns"
  using all_some_map [of ns non_negative "\<lambda>n. n"] by (simp add: non_negative_def)

lemma summary_answers: "\<exists>x. counts_to_response (fst (summary_row t s d)) = Some x \<and> xc_pending x = oc_pending (fst (summary_row t s d))"
  by (simp add: counts_to_response_def summary_row_def non_negative_def)

section \<open>The service keeps the tables conforming\<close>

text \<open>
  Documented behaviour of the URL parser: a normalized URL is normal, and ASCII. The column bounds the
  normalized URL, so a URL that is stored is short enough to be read again.
\<close>

definition normal_url :: "(string \<Rightarrow> string option) \<Rightarrow> string \<Rightarrow> bool" where
  "normal_url http_url u \<longleftrightarrow> http_url u = Some u \<and> ascii (codes u)"

definition normalizing :: "(string \<Rightarrow> string option) \<Rightarrow> bool" where
  "normalizing http_url \<longleftrightarrow> (\<forall>s u. http_url s = Some u \<longrightarrow> normal_url http_url u)"

lemma endpoint_url_normal: "normal_url http_url u \<Longrightarrow> length u \<le> 2048 \<Longrightarrow> endpoint_url http_url u = Some u"
  by (simp add: endpoint_url_def normal_url_def utf8_length_ascii)

lemma conforming_insert_endpoint:
  assumes "conforming http_url d" and "insert_endpoint r d = Inr d'"
    and "normal_url http_url (ep_target_url r)"
  shows "conforming http_url d'"
  using assms schema_ok_insert_endpoint [of d r d'] endpoint_url_normal [OF assms(3)]
  by (auto simp: conforming_def insert_endpoint_Inr endpoint_data_ok_def varchar_def)

lemma conforming_insert_event:
  assumes "conforming http_url d" and "insert_event r d = Inr d'" and "ev_payload r = JObj kvs"
  shows "conforming http_url d'"
  using assms schema_ok_insert_event [of d r d'] by (auto simp: conforming_def insert_event_Inr)

lemma conforming_insert_job: "conforming http_url d \<Longrightarrow> insert_job r d = Inr d' \<Longrightarrow> conforming http_url d'"
  using schema_ok_insert_job [of d r d'] by (auto simp: conforming_def insert_job_Inr)

lemma conforming_insert_attempt: "conforming http_url d \<Longrightarrow> insert_attempt r d = Inr d' \<Longrightarrow> conforming http_url d'"
  using schema_ok_insert_attempt [of d r d'] by (auto simp: conforming_def insert_attempt_Inr)

lemma conforming_update_job:
  assumes "conforming http_url d" and "update_job old new d = Inr d'"
  shows "conforming http_url d'"
proof -
  have "schema_ok d'" using assms schema_ok_update_job unfolding conforming_def by blast
  moreover have "endpoints d' = endpoints d \<and> events d' = events d"
    using assms(2) by (cases rule: update_job_InrE) simp_all
  ultimately show ?thesis using assms(1) by (simp add: conforming_def)
qed

lemma keeps_conforming_flushes:
  "keeps R (conforming u) (flush (insert_job j))" "keeps R (conforming u) (flush (insert_attempt a))"
  "keeps R (conforming u) (flush (update_job old new))"
  "ev_payload v = JObj kvs \<Longrightarrow> keeps R (conforming u) (flush (insert_event v))"
  "normal_url u (ep_target_url e) \<Longrightarrow> keeps R (conforming u) (flush (insert_endpoint e))"
  by (rule keeps_flush, blast intro: conforming_insert_job conforming_insert_attempt conforming_update_job
      conforming_insert_event conforming_insert_endpoint)+

lemma keeps_refresh [keeps_intros]: "keeps R I (refresh get)"
  unfolding refresh_def by (intro keeps_intros)

lemma keeps_mapped [keeps_intros]: "keeps R I m \<Longrightarrow> keeps R I (try_except m (\<lambda>e. raiseE (f e)))"
  by (intro keeps_intros)

lemma keeps_conforming_creation:
  "keeps R (conforming u) (create_idempotent_webhook_event_with_delivery_job ep ty (JObj kvs) raw)"
proof -
  have pair: "keeps R (conforming u) (create_event_with_delivery_job ep ty (JObj kvs) k)" for k
    unfolding create_event_with_delivery_job_def Let_def
    by (intro keeps_intros keeps_conforming_flushes) simp
  have handler: "keeps R (conforming u) (resolve_after_conflict ep ty (JObj kvs) k e)" for k e
    unfolding resolve_after_conflict_def by (cases e) (auto intro!: keeps_intros simp del: not_None_eq)
  show ?thesis
    unfolding create_idempotent_webhook_event_with_delivery_job_def create_keyed_event_def
    by (intro keeps_intros pair handler)
qed

lemma keeps_conforming_delivery: "keeps R (conforming u) (execute_webhook_delivery httpx2_post_json i t)"
  unfolding execute_webhook_delivery_def deliver_prepared_def
  by (intro keeps_bindE keeps_prepare keeps_tick)
    (auto simp: Let_def intro!: keeps_bindE keeps_tick keeps_try_post httpx2.keeps_post_json
      keeps_conforming_flushes keeps_returnE keeps_raiseE split: pytz.splits)

interpretation conform: delivery_invariant R "conforming u" httpx2_post_json for R u
proof unfold_locales
  fix i t
  show "keeps R (conforming u) (execute_webhook_delivery httpx2_post_json i t)" by (rule keeps_conforming_delivery)
qed (rule conforming_update_job)

lemma parsed_endpoint_url:
  assumes "normalizing http_url" and "parse_endpoint_create trim http_url name url = Some p"
  shows "normal_url http_url (ec_target_url p)"
  using assms
  by (auto simp: parse_endpoint_create_def endpoint_url_def normalizing_def split: option.split_asm if_split_asm)

text \<open>
  C21: What the service writes, its routes can return. Whatever other transactions do in between, as long
  as they keep the tables conforming, every writing request and every iteration of the worker does: a
  registered URL is normal, a recorded payload is an object, and the constraints of the schema hold. The
  URL parser is only assumed to leave a normalized URL as it is.
\<close>

theorem requests_keep_conforming:
  assumes "normalizing http_url"
  shows "(\<forall>p. parse_endpoint_create trim http_url name url = Some p \<longrightarrow>
      keeps R (conforming http_url) (get_session (create_webhook_endpoint p))) \<and>
    (\<forall>p. parse_event_create trim endpoint_id event_type payload = Some p \<longrightarrow>
      keeps R (conforming http_url) (get_session (create_webhook_event p key))) \<and>
    keeps R (conforming http_url) (get_session (create_webhook_delivery_attempt httpx2_post_json i t)) \<and>
    keeps R (conforming http_url) (get_session (replay_webhook_event_route i)) \<and>
    keeps R (conforming http_url) (run_webhook_worker_iteration httpx2_post_json at sb rl pl t ma bd md)"
proof (intro conjI allI impI; (rule keeps_get_session)?)
  fix p assume "parse_endpoint_create trim http_url name url = Some p"
  from parsed_endpoint_url [OF assms this] show "keeps R (conforming http_url) (create_webhook_endpoint p)"
    unfolding create_webhook_endpoint_def Let_def by (intro keeps_intros keeps_conforming_flushes) simp
next
  fix p assume "parse_event_create trim endpoint_id event_type payload = Some p"
  then have "vc_payload p = JObj payload" by (auto simp: parse_event_create_def split: option.split_asm)
  then show "keeps R (conforming http_url) (create_webhook_event p key)"
    unfolding create_webhook_event_def by (simp only:) (intro keeps_intros keeps_conforming_creation)
next
  show "keeps R (conforming http_url) (create_webhook_delivery_attempt httpx2_post_json i t)"
    unfolding create_webhook_delivery_attempt_def by (intro keeps_intros conform.keeps_delivery)
  show "keeps R (conforming http_url) (run_webhook_worker_iteration httpx2_post_json at sb rl pl t ma bd md)"
    by (rule conform.keeps_iteration)
  show "keeps R (conforming http_url) (replay_webhook_event_route i)"
    unfolding replay_webhook_event_route_def by (intro keeps_intros conform.keeps_replay)
qed

end
