(* ===== verification/Application.thy ===== *)
theory Application
  imports Responses Config
begin

text \<open>
  \<open>main.py\<close> and \<open>dependencies.py\<close>: the lifespan that owns the HTTP client, the dependencies the routes ask
  for, the table of routes, and the answer to a request: dispatch, dependencies, route, response model and
  the status of every exception. The framework's dispatch is modelled as documented: the first route whose
  path and method match; a path without the method is 405, no path is 404. Its own documentation routes and
  the redirection of trailing slashes are left out.
\<close>

section \<open>State\<close>

record application =
  ap_world :: world
  ap_http_client :: "nat option"
  ap_open_clients :: "nat list"
  ap_clients :: nat
  ap_settings :: "settings option"
  ap_raw_settings :: "string \<Rightarrow> pyval option"
  ap_client_error :: "exc option"

definition in_world :: "(world, 'a) io \<Rightarrow> (application, 'a) io" where
  "in_world m a = (case m (ap_world a) of (r, w) \<Rightarrow> (r, a\<lparr>ap_world := w\<rparr>))"

section \<open>Lifespan and dependencies\<close>

text \<open>\<open>httpx2.Client()\<close> and its entry, which may fail.\<close>

definition open_client :: "(application, nat) io" where
  "open_client a =
     (case ap_client_error a of
        Some e \<Rightarrow> (Inl e, a)
      | None \<Rightarrow> (Inr (ap_clients a), a\<lparr>ap_clients := Suc (ap_clients a), ap_open_clients := ap_clients a # ap_open_clients a\<rparr>))"

definition close_client :: "nat \<Rightarrow> (application, unit) io" where
  "close_client c a = (Inr (), a\<lparr>ap_open_clients := filter (\<lambda>x. x \<noteq> c) (ap_open_clients a)\<rparr>)"

definition set_http_client :: "nat \<Rightarrow> (application, unit) io" where
  "set_http_client c a = (Inr (), a\<lparr>ap_http_client := Some c\<rparr>)"

definition del_http_client :: "(application, unit) io" where
  "del_http_client a =
     (case ap_http_client a of
        None \<Rightarrow> (Inl (AttributeError ''webhook_http_client''), a)
      | Some _ \<Rightarrow> (Inr (), a\<lparr>ap_http_client := None\<rparr>))"

definition lifespan :: "(application, 'a) io \<Rightarrow> (application, 'a) io" where
  "lifespan body =
     bindE open_client (\<lambda>raw_http_client.
     try_finally
       (bindE (set_http_client raw_http_client) (\<lambda>_. try_finally body del_http_client))
       (close_client raw_http_client))"

definition http_client_not_initialized :: string where
  "http_client_not_initialized = ''Webhook HTTP client is not initialized''"

definition get_webhook_http_client :: "(application, nat) io" where
  "get_webhook_http_client a =
     (case ap_http_client a of
        None \<Rightarrow> (Inl (RuntimeError http_client_not_initialized), a)
      | Some c \<Rightarrow> (Inr c, a))"

text \<open>\<open>lru_cache\<close>: the first settings that load are kept; an exception is not.\<close>

definition get_settings :: "coercions \<Rightarrow> (application, settings) io" where
  "get_settings co a =
     (case ap_settings a of
        Some s \<Rightarrow> (Inr s, a)
      | None \<Rightarrow>
          (case make_settings co (ap_raw_settings a) of
             Inl e \<Rightarrow> (Inl e, a)
           | Inr s \<Rightarrow> (Inr s, a\<lparr>ap_settings := Some s\<rparr>)))"

section \<open>Routes\<close>

datatype segment = Literal string | Event_id

datatype operation =
    Create_endpoint | List_endpoints
  | Create_event | List_attempts | Get_job | Replay_event | Create_attempt
  | List_jobs
  | Readiness | Summary
  | Health

record route =
  rt_method :: string
  rt_path :: "segment list"
  rt_operation :: operation

definition route :: "string \<Rightarrow> segment list \<Rightarrow> operation \<Rightarrow> route" where
  "route m p operation = \<lparr>rt_method = m, rt_path = p, rt_operation = operation\<rparr>"

text \<open>One route per decorator.\<close>

definition post_endpoint :: route where
  "post_endpoint = route ''POST'' [Literal ''webhook-endpoints''] Create_endpoint"

definition get_endpoints :: route where
  "get_endpoints = route ''GET'' [Literal ''webhook-endpoints''] List_endpoints"

definition post_event :: route where
  "post_event = route ''POST'' [Literal ''webhook-events''] Create_event"

definition get_attempts :: route where
  "get_attempts = route ''GET'' [Literal ''webhook-events'', Event_id, Literal ''delivery-attempts''] List_attempts"

definition get_delivery_job :: route where
  "get_delivery_job = route ''GET'' [Literal ''webhook-events'', Event_id, Literal ''delivery-job''] Get_job"

definition post_replay :: route where
  "post_replay = route ''POST'' [Literal ''webhook-events'', Event_id, Literal ''replay''] Replay_event"

definition post_attempt :: route where
  "post_attempt = route ''POST'' [Literal ''webhook-events'', Event_id, Literal ''delivery-attempts''] Create_attempt"

definition get_delivery_jobs :: route where
  "get_delivery_jobs = route ''GET'' [Literal ''webhook-delivery-jobs''] List_jobs"

definition get_ready :: route where
  "get_ready = route ''GET'' [Literal ''ready''] Readiness"

definition get_summary :: route where
  "get_summary = route ''GET'' [Literal ''operations'', Literal ''summary''] Summary"

text \<open>Each router holds its routes in the order the file declares them.\<close>

definition webhook_endpoint_router :: "route list" where
  "webhook_endpoint_router = [post_endpoint, get_endpoints]"

definition webhook_event_router :: "route list" where
  "webhook_event_router = [post_event, get_attempts, get_delivery_job, post_replay, post_attempt]"

definition webhook_delivery_job_router :: "route list" where
  "webhook_delivery_job_router = [get_delivery_jobs]"

definition operations_router :: "route list" where
  "operations_router = [get_ready, get_summary]"

definition create_app :: "route list" where
  "create_app =
     webhook_endpoint_router @ webhook_event_router @ webhook_delivery_job_router @ operations_router @
       [route ''GET'' [Literal ''health''] Health]"

text \<open>A path parameter is one nonempty segment.\<close>

fun match_path :: "segment list \<Rightarrow> string list \<Rightarrow> string list option" where
  "match_path [] [] = Some []"
| "match_path (Literal l # ps) (s # ss) = (if s = l then match_path ps ss else None)"
| "match_path (Event_id # ps) (s # ss) = (if s = [] then None else map_option (Cons s) (match_path ps ss))"
| "match_path _ _ = None"

datatype dispatched = Serve operation "string list" | Wrong_method | No_route

fun dispatch :: "route list \<Rightarrow> bool \<Rightarrow> string \<Rightarrow> string list \<Rightarrow> dispatched" where
  "dispatch [] partial m p = (if partial then Wrong_method else No_route)"
| "dispatch (r # rs) partial m p =
     (case match_path (rt_path r) p of
        None \<Rightarrow> dispatch rs partial m p
      | Some params \<Rightarrow> if rt_method r = m then Serve (rt_operation r) params else dispatch rs True m p)"

section \<open>Requests\<close>

text \<open>What the framework reads from a request; None where a part does not parse.\<close>

datatype int_query = Absent | Malformed | Given int

record http_request =
  rq_method :: string
  rq_path :: "string list"
  rq_endpoint :: "(string \<times> string) option"
  rq_event :: "(uuid \<times> string \<times> (string \<times> json) list) option"
  rq_idempotency_key :: "string option"
  rq_status :: "string option"
  rq_limit :: int_query
  rq_cursor :: "unicode option"

record framework =
  fw_uuid :: "string \<Rightarrow> uuid option"
  fw_trim :: "string \<Rightarrow> string"
  fw_http_url :: "string \<Rightarrow> string option"
  fw_coercions :: coercions

datatype body =
    Endpoint_body endpoint_response
  | Endpoint_list_body "endpoint_response list"
  | Event_body event_response
  | Attempt_body attempt_response
  | Attempt_list_body "attempt_response list"
  | Job_body delivery_job_response
  | Job_list_body job_list_response
  | Replay_body replay_response
  | Readiness_body string string
  | Summary_body summary_response
  | Health_body string
  | Problem_body string
  | Server_error

definition invalid_request :: exc where
  "invalid_request = HTTPException 422 ''Request validation''"

definition required :: "'a option \<Rightarrow> exc + 'a" where
  "required v = (case v of None \<Rightarrow> Inl invalid_request | Some x \<Rightarrow> Inr x)"

definition event_id_param :: "framework \<Rightarrow> string list \<Rightarrow> exc + uuid" where
  "event_id_param fw params = (case params of [p] \<Rightarrow> required (fw_uuid fw p) | _ \<Rightarrow> Inl invalid_request)"

text \<open>The result of a route against its response model.\<close>

definition respond :: "('a \<Rightarrow> 'b option) \<Rightarrow> ('b \<Rightarrow> body) \<Rightarrow> (world, nat \<times> 'a) io \<Rightarrow> (world, nat \<times> body) io" where
  "respond model wrap m =
     bindE m (\<lambda>(code, x).
     (case model x of None \<Rightarrow> raiseE ResponseValidationError | Some b \<Rightarrow> returnE (code, wrap b)))"

definition list_query :: "http_request \<Rightarrow> exc + string option \<times> int" where
  "list_query rq =
     (if (case rq_status rq of None \<Rightarrow> True | Some s \<Rightarrow> s \<in> set job_statuses)
      then (case rq_limit rq of
              Absent \<Rightarrow> Inr (rq_status rq, default_list_limit)
            | Malformed \<Rightarrow> Inl invalid_request
            | Given n \<Rightarrow> if 1 \<le> n \<and> n \<le> max_list_limit then Inr (rq_status rq, n) else Inl invalid_request)
      else Inl invalid_request)"

text \<open>The routes that need nothing but the session.\<close>

definition session_route :: "framework \<Rightarrow> operation \<Rightarrow> string list \<Rightarrow> http_request \<Rightarrow> (world, nat \<times> body) io" where
  "session_route fw operation params rq =
     (case operation of
        Create_endpoint \<Rightarrow>
          bindE (liftE (required (case rq_endpoint rq of None \<Rightarrow> None | Some (name, url) \<Rightarrow>
            parse_endpoint_create (fw_trim fw) (fw_http_url fw) name url))) (\<lambda>payload.
          respond (endpoint_to_response (fw_http_url fw)) Endpoint_body (create_webhook_endpoint payload))
      | List_endpoints \<Rightarrow>
          respond (\<lambda>rs. all_some (map (endpoint_to_response (fw_http_url fw)) rs)) Endpoint_list_body
            list_webhook_endpoints
      | Create_event \<Rightarrow>
          bindE (liftE (required (case rq_event rq of None \<Rightarrow> None | Some (i, ty, kvs) \<Rightarrow>
            parse_event_create (fw_trim fw) i ty kvs))) (\<lambda>payload.
          respond event_to_response Event_body (create_webhook_event payload (rq_idempotency_key rq)))
      | List_attempts \<Rightarrow>
          bindE (liftE (event_id_param fw params)) (\<lambda>i.
          respond (\<lambda>rs. all_some (map attempt_to_response rs)) Attempt_list_body (list_webhook_delivery_attempts i))
      | Get_job \<Rightarrow>
          bindE (liftE (event_id_param fw params)) (\<lambda>i.
          respond job_to_response Job_body (get_webhook_delivery_job_route i))
      | Replay_event \<Rightarrow>
          bindE (liftE (event_id_param fw params)) (\<lambda>i.
          respond replay_to_response Replay_body (replay_webhook_event_route i))
      | List_jobs \<Rightarrow>
          bindE (liftE (list_query rq)) (\<lambda>(status, limit).
          respond page_to_response Job_list_body (list_webhook_delivery_jobs_route status (VInt limit) (rq_cursor rq)))
      | Readiness \<Rightarrow>
          respond (\<lambda>r. if readiness_valid r then Some r else None) (\<lambda>r. Readiness_body (rr_status r) (rr_database r))
            (bindE readiness (\<lambda>r. returnE (rr_status_code r, r)))
      | _ \<Rightarrow> raiseE invalid_request)"

text \<open>Dependencies come before the parameters, the session first.\<close>

definition serve :: "framework \<Rightarrow> operation \<Rightarrow> string list \<Rightarrow> http_request \<Rightarrow> (application, nat \<times> body) io" where
  "serve fw operation params rq a =
     (case operation of
        Create_attempt \<Rightarrow>
          (case get_webhook_http_client a of
             (Inl e, a1) \<Rightarrow> in_world (get_session (raiseE e)) a1
           | (Inr _, a1) \<Rightarrow>
               (case get_settings (fw_coercions fw) a1 of
                  (Inl e, a2) \<Rightarrow> in_world (get_session (raiseE e)) a2
                | (Inr s, a2) \<Rightarrow>
                    in_world (get_session
                      (bindE (liftE (event_id_param fw params)) (\<lambda>i.
                       respond attempt_to_response Attempt_body
                         (create_webhook_delivery_attempt httpx2_post_json i
                           (VFloat (webhook_delivery_timeout_seconds s)))))) a2))
      | Summary \<Rightarrow>
          (case get_settings (fw_coercions fw) a of
             (Inl e, a1) \<Rightarrow> in_world (get_session (raiseE e)) a1
           | (Inr s, a1) \<Rightarrow>
               in_world (get_session
                 (respond summary_to_response Summary_body
                   (bindE (operational_summary_route
                       (VFloat (webhook_worker_stale_processing_timeout_seconds s))) (\<lambda>r. returnE (200, r))))) a1)
      | Health \<Rightarrow> (Inr (200, Health_body ''ok''), a)
      | _ \<Rightarrow> in_world (get_session (session_route fw operation params rq)) a)"

text \<open>What the client gets.\<close>

definition handle :: "framework \<Rightarrow> http_request \<Rightarrow> application \<Rightarrow> (nat \<times> body) \<times> application" where
  "handle fw rq a =
     (case dispatch create_app False (rq_method rq) (rq_path rq) of
        No_route \<Rightarrow> ((404, Problem_body ''Not Found''), a)
      | Wrong_method \<Rightarrow> ((405, Problem_body ''Method Not Allowed''), a)
      | Serve operation params \<Rightarrow>
          (case serve fw operation params rq a of
             (Inr answer, a1) \<Rightarrow> (answer, a1)
           | (Inl (HTTPException code detail), a1) \<Rightarrow> ((code, Problem_body detail), a1)
           | (Inl _, a1) \<Rightarrow> ((500, Server_error), a1)))"

section \<open>Dispatch\<close>

definition operation_path :: "operation \<Rightarrow> string \<Rightarrow> string \<times> string list" where
  "operation_path operation i =
     (case operation of
        Create_endpoint \<Rightarrow> (''POST'', [''webhook-endpoints''])
      | List_endpoints \<Rightarrow> (''GET'', [''webhook-endpoints''])
      | Create_event \<Rightarrow> (''POST'', [''webhook-events''])
      | List_attempts \<Rightarrow> (''GET'', [''webhook-events'', i, ''delivery-attempts''])
      | Get_job \<Rightarrow> (''GET'', [''webhook-events'', i, ''delivery-job''])
      | Replay_event \<Rightarrow> (''POST'', [''webhook-events'', i, ''replay''])
      | Create_attempt \<Rightarrow> (''POST'', [''webhook-events'', i, ''delivery-attempts''])
      | List_jobs \<Rightarrow> (''GET'', [''webhook-delivery-jobs''])
      | Readiness \<Rightarrow> (''GET'', [''ready''])
      | Summary \<Rightarrow> (''GET'', [''operations'', ''summary''])
      | Health \<Rightarrow> (''GET'', [''health'']))"

definition has_event_id :: "operation \<Rightarrow> bool" where
  "has_event_id operation \<longleftrightarrow> operation \<in> {List_attempts, Get_job, Replay_event, Create_attempt}"

lemmas route_defs = create_app_def webhook_endpoint_router_def webhook_event_router_def webhook_delivery_job_router_def
  operations_router_def post_endpoint_def get_endpoints_def post_event_def get_attempts_def get_delivery_job_def
  post_replay_def post_attempt_def get_delivery_jobs_def get_ready_def get_summary_def route_def

lemma dispatch_operation:
  "i \<noteq> '''' \<Longrightarrow> dispatch create_app False (fst (operation_path operation i)) (snd (operation_path operation i)) =
     Serve operation (if has_event_id operation then [i] else [])"
  by (cases operation) (simp_all add: operation_path_def route_defs has_event_id_def)

text \<open>The order of the routes does not matter: no request matches two of them.\<close>

fun overlap :: "segment list \<Rightarrow> segment list \<Rightarrow> bool" where
  "overlap [] [] = True"
| "overlap (Literal l # ps) (Literal k # qs) = (l = k \<and> overlap ps qs)"
| "overlap (_ # ps) (_ # qs) = overlap ps qs"
| "overlap _ _ = False"

lemma match_overlap: "match_path ps s \<noteq> None \<Longrightarrow> match_path qs s \<noteq> None \<Longrightarrow> overlap ps qs"
proof (induction ps s arbitrary: qs rule: match_path.induct)
  case (2 l ps s ss)
  then show ?case by (cases qs; cases "hd qs") (auto split: if_split_asm)
next
  case (3 ps s ss)
  then show ?case by (cases qs; cases "hd qs") (auto split: if_split_asm)
qed (case_tac qs; auto)+

lemma routes_apart: "\<forall>r \<in> set create_app. \<forall>s \<in> set create_app. rt_method r = rt_method s \<longrightarrow> overlap (rt_path r) (rt_path s) \<longrightarrow> r = s"
  by (simp add: route_defs)

lemma routes_disjoint:
  "r \<in> set create_app \<Longrightarrow> s \<in> set create_app \<Longrightarrow> rt_method r = rt_method s \<Longrightarrow>
   match_path (rt_path r) p \<noteq> None \<Longrightarrow> match_path (rt_path s) p \<noteq> None \<Longrightarrow> r = s"
  using routes_apart match_overlap by blast

end
