(* ===== verification/Application_Requests.thy ===== *)
theory Application_Requests
  imports Application
begin

text \<open>
  Requests from the wire to the tables and back: which requests reach which route, what the reading
  requests answer, that an accepted event can be followed, and that the HTTP client is there for every
  request of a running application and closed after it.
\<close>

section \<open>Dispatch\<close>

lemma match_path_simps:
  "match_path [] p = Some params \<longleftrightarrow> p = [] \<and> params = []"
  "match_path (Literal l # ps) p = Some params \<longleftrightarrow> (\<exists>ss. p = l # ss \<and> match_path ps ss = Some params)"
  "match_path (Event_id # ps) p = Some params \<longleftrightarrow>
     (\<exists>i ss qs. i \<noteq> '''' \<and> p = i # ss \<and> params = i # qs \<and> match_path ps ss = Some qs)"
  by (cases p; auto)+

lemma dispatch_served:
  "dispatch rs partial m p = Serve operation params \<Longrightarrow>
   \<exists>r \<in> set rs. rt_method r = m \<and> rt_operation r = operation \<and> match_path (rt_path r) p = Some params"
  by (induction rs arbitrary: partial) (auto split: option.split_asm if_split_asm)

text \<open>
  Every request reaches the route it names, and no other: the table of routes, in the order the
  application includes them, serves an operation exactly for its method and its path, with the event
  identifier of the path as parameter where it has one.
\<close>

theorem dispatch_exact:
  "dispatch create_app False m p = Serve operation params \<longleftrightarrow>
     (\<exists>i. i \<noteq> '''' \<and> (m, p) = operation_path operation i \<and> params = (if has_event_id operation then [i] else []))"
proof
  assume "\<exists>i. i \<noteq> '''' \<and> (m, p) = operation_path operation i \<and> params = (if has_event_id operation then [i] else [])"
  then show "dispatch create_app False m p = Serve operation params"
    using dispatch_operation by (metis fst_conv snd_conv)
next
  assume "dispatch create_app False m p = Serve operation params"
  from dispatch_served [OF this] obtain r where r: "r \<in> set create_app" "rt_method r = m" "rt_operation r = operation"
    "match_path (rt_path r) p = Some params" by blast
  have "\<exists>i. i \<noteq> '''' \<and> (rt_method r, p) = operation_path (rt_operation r) i \<and>
      params = (if has_event_id (rt_operation r) then [i] else [])"
    using r(1,4) by (auto simp: route_defs match_path_simps operation_path_def has_event_id_def intro: exI [of _ "''x''"])
  then show "\<exists>i. i \<noteq> '''' \<and> (m, p) = operation_path operation i \<and> params = (if has_event_id operation then [i] else [])"
    using r(2,3) by simp
qed

section \<open>Reading\<close>

lemma respond_run:
  "respond model wrap m w =
     (case m w of
        (Inl e, w1) \<Rightarrow> (Inl e, w1)
      | (Inr (code, x), w1) \<Rightarrow>
          (case model x of None \<Rightarrow> (Inl ResponseValidationError, w1) | Some b \<Rightarrow> (Inr (code, wrap b), w1)))"
  by (simp add: respond_def bindE_def raiseE_def returnE_def split: prod.split sum.split option.split)

lemma respond_Inr:
  assumes "respond model wrap m w = (Inr (code, b), w2)"
  shows "\<exists>x y. m w = (Inr (code, x), w2) \<and> model x = Some y \<and> b = wrap y"
  using assms unfolding respond_def bindE_Inr by (auto simp: raiseE_def returnE_def split: option.split_asm)

lemma handle_served:
  assumes "dispatch create_app False (rq_method rq) (rq_path rq) = Serve operation params"
    and "serve fw operation params rq a = in_world (get_session m) a"
  shows "handle fw rq a =
    (case get_session m (ap_world a) of
       (Inr answer, w) \<Rightarrow> (answer, a\<lparr>ap_world := w\<rparr>)
     | (Inl (HTTPException code detail), w) \<Rightarrow> ((code, Problem_body detail), a\<lparr>ap_world := w\<rparr>)
     | (Inl _, w) \<Rightarrow> ((500, Server_error), a\<lparr>ap_world := w\<rparr>))"
  by (simp add: handle_def assms in_world_def split: prod.split sum.split exc.split)

text \<open>A route that only reads, on the committed tables.\<close>

lemma get_session_reads:
  assumes "m (opened w) = (r, opened w)"
  shows "fst (get_session m w) = r \<and> w_committed (snd (get_session m w)) = w_committed w"
  using assms by (cases r) (simp_all add: get_session_run)

text \<open>The position of a cursor, the boundary of the summary, and the summary in its response model.\<close>

definition requested_position :: "env \<Rightarrow> http_request \<Rightarrow> string option \<Rightarrow> exc + (instant \<times> uuid) option" where
  "requested_position e rq status =
     (case rq_cursor rq of None \<Rightarrow> Inr None | Some c \<Rightarrow> map_sum id Some (decode_cursor e c status))"

definition summary_answer :: "instant \<Rightarrow> instant \<Rightarrow> db \<Rightarrow> summary_response" where
  "summary_answer t s d =
     (case summary_row t s d of (c, due, processing) \<Rightarrow>
       \<lparr>xs_generated_at = t,
        xs_delivery_jobs = \<lparr>xc_pending = oc_pending c, xc_processing = oc_processing c, xc_succeeded = oc_succeeded c,
          xc_dead_letter = oc_dead_letter c, xc_due_pending = oc_due_pending c,
          xc_stale_processing = oc_stale_processing c\<rparr>,
        xs_oldest_due_pending_at = due, xs_oldest_processing_updated_at = processing,
        xs_stale_processing_before = s\<rparr>)"

definition read_answer :: "framework \<Rightarrow> operation \<Rightarrow> string list \<Rightarrow> http_request \<Rightarrow> application \<Rightarrow> nat \<times> body" where
  "read_answer fw operation params rq a =
     (let w = ap_world a; d = w_committed w in
      case operation of
        List_endpoints \<Rightarrow>
          (200, Endpoint_list_body (map endpoint_answer (sort_key (\<lambda>e. (ep_created_at e, ep_id e)) (endpoints d))))
      | List_attempts \<Rightarrow>
          (case fw_uuid fw (hd params) of
             None \<Rightarrow> (422, Problem_body ''Request validation'')
           | Some i \<Rightarrow>
               if get_event i d = None then (404, Problem_body ''Webhook event not found'')
               else (200, Attempt_list_body (map attempt_answer
                 (sort_key (\<lambda>a. (at_attempt_number a, at_attempted_at a, at_id a))
                   (filter (\<lambda>a. at_event_id a = i) (attempts d))))))
      | Get_job \<Rightarrow>
          (case fw_uuid fw (hd params) of
             None \<Rightarrow> (422, Problem_body ''Request validation'')
           | Some i \<Rightarrow>
               if get_event i d = None then (404, Problem_body ''Webhook event not found'')
               else (case filter (\<lambda>j. job_event_id j = i) (jobs d) of
                   [] \<Rightarrow> (409, Problem_body ''Webhook delivery job not found'')
                 | j # _ \<Rightarrow> (200, Job_body (job_answer j))))
      | List_jobs \<Rightarrow>
          (case list_query rq of
             Inl _ \<Rightarrow> (422, Problem_body ''Request validation'')
           | Inr (status, n) \<Rightarrow>
               (case requested_position (w_env w) rq status of
                  Inl RecursionError \<Rightarrow> (500, Server_error)
                | Inl _ \<Rightarrow> (422, Problem_body ''Invalid webhook delivery job cursor'')
                | Inr pos \<Rightarrow>
                    (let rows = rev (sort_key list_order
                        (filter (\<lambda>j. status_clause status j \<and> cursor_clause pos j) (jobs d))) in
                     (200, Job_list_body \<lparr>xl_items = map job_answer (take (nat n) rows),
                        xl_next_cursor = (if nat n < length rows
                          then Some (encode_cursor (row_snapshot (last (take (nat n) rows))) status) else None)\<rparr>))))
      | Readiness \<Rightarrow> (200, Readiness_body ''ready'' ''ok'')
      | Summary \<Rightarrow>
          (case fst (get_settings (fw_coercions fw) a) of
             Inl _ \<Rightarrow> (500, Server_error)
           | Inr settings \<Rightarrow>
               (let t = dt_local (e_utc_now (w_env w) (w_ticks w)) in
                case stale_boundary t (VFloat (webhook_worker_stale_processing_timeout_seconds settings)) of
                  Inl _ \<Rightarrow> (500, Server_error)
                | Inr s \<Rightarrow> (200, Summary_body (summary_answer t s d))))
      | Health \<Rightarrow> (200, Health_body ''ok'')
      | _ \<Rightarrow> (500, Server_error))"

lemma list_endpoints_run:
  "w_script w = [] \<Longrightarrow> list_webhook_endpoints w =
     (Inr (200, sort_key (\<lambda>e. (ep_created_at e, ep_id e)) (endpoints (w_working w))), w)"
  by (simp add: list_webhook_endpoints_def bindE_def query_quiet returnE_def)

lemma list_attempts_run:
  "w_script w = [] \<Longrightarrow> list_webhook_delivery_attempts i w =
     (if get_event i (w_working w) = None then (Inl (HTTPException 404 ''Webhook event not found''), w)
      else (Inr (200, sort_key (\<lambda>a. (at_attempt_number a, at_attempted_at a, at_id a))
         (filter (\<lambda>a. at_event_id a = i) (attempts (w_working w)))), w))"
  by (simp add: list_webhook_delivery_attempts_def bindE_def query_quiet returnE_def raiseE_def)

lemma get_job_route_run:
  assumes "w_script w = []" and "schema_ok (w_working w)"
  shows "get_webhook_delivery_job_route i w =
    ((if get_event i (w_working w) = None then Inl (HTTPException 404 ''Webhook event not found'')
      else (case filter (\<lambda>j. job_event_id j = i) (jobs (w_working w)) of
          [] \<Rightarrow> Inl (HTTPException 409 ''Webhook delivery job not found'')
        | j # _ \<Rightarrow> Inr (200, row_snapshot j))), w)"
  unfolding get_webhook_delivery_job_route_def bindE_def try_except_def get_job_functional [OF assms] raiseE_def returnE_def
  by (auto split: option.split list.split)

lemma list_jobs_route_run:
  assumes "w_script w = []" and "schema_ok (w_working w)" and "list_query rq = Inr (status, n)"
    and "requested_position (w_env w) rq status = Inr pos"
  shows "list_webhook_delivery_jobs_route status (VInt n) (rq_cursor rq) w =
    (Inr (200, found_page status (nat n) (rev (sort_key list_order
       (filter (\<lambda>j. status_clause status j \<and> cursor_clause pos j) (jobs (w_working w)))))), w)"
proof -
  have q: "known_status status" "validate_list_limit (VInt n) = Inr n"
    using assms(3) by (auto simp: list_query_def known_status_def validate_list_limit_def
        default_list_limit_def max_list_limit_def split: option.split_asm int_query.split_asm if_split_asm)
  have rows: "rows_after list_order (status_clause status) pos (jobs (w_working w)) =
      rev (sort_key list_order (filter (\<lambda>j. status_clause status j \<and> cursor_clause pos j) (jobs (w_working w))))"
    by (simp add: rows_after_def newest_first_def cursor_clause_after)
  have "cursor_position (rq_cursor rq) status w = (Inr pos, w)"
    using assms(4) by (cases "rq_cursor rq"; cases "decode_cursor (w_env w) (the (rq_cursor rq)) status")
      (auto simp: requested_position_def cursor_position_def ask_run bindE_def liftE_def returnE_def)
  from list_run [OF assms(1,2) q this]
  show ?thesis by (simp add: list_webhook_delivery_jobs_route_def bindE_def try_except_def returnE_def rows)
qed

lemma list_jobs_route_cursor:
  assumes "list_query rq = Inr (status, n)" and "requested_position (w_env w) rq status = Inl e"
  shows "list_webhook_delivery_jobs_route status (VInt n) (rq_cursor rq) w = (Inl (list_problem e), w)"
proof -
  have q: "known_status status" "validate_list_limit (VInt n) = Inr n"
    using assms(1) by (auto simp: list_query_def known_status_def validate_list_limit_def
        default_list_limit_def max_list_limit_def split: option.split_asm int_query.split_asm if_split_asm)
  have "cursor_position (rq_cursor rq) status w = (Inl e, w)"
    using assms(2) by (cases "rq_cursor rq"; cases "decode_cursor (w_env w) (the (rq_cursor rq)) status")
      (auto simp: requested_position_def cursor_position_def ask_run bindE_def liftE_def returnE_def)
  then show ?thesis using q
    by (simp add: list_webhook_delivery_jobs_route_def list_webhook_delivery_jobs_def validate_job_status_known
        bindE_def try_except_def raiseE_def liftE_def)
qed

lemma requested_position_errors:
  assumes "documented_errors e" and "requested_position e rq status = Inl err"
  shows "err = WebhookDeliveryJobCursorValidationError \<or> err = RecursionError"
  using assms(2) by (cases "rq_cursor rq"; cases "decode_cursor e (the (rq_cursor rq)) status")
    (auto simp: requested_position_def dest: decode_cursor_errors [OF assms(1)])

lemma readiness_run:
  "w_script w = [] \<Longrightarrow>
   readiness w = (Inr \<lparr>rr_status_code = 200, rr_status = ''ready'', rr_database = ''ok''\<rparr>, w)"
  by (simp add: readiness_def check_database_readiness_def bindE_def try_except_def query_quiet returnE_def)

lemma summary_model:
  "summary_to_response (case summary_row t s d of (c, due, processing) \<Rightarrow>
     \<lparr>os_generated_at = t, os_delivery_jobs = c, os_oldest_due_pending_at = due,
      os_oldest_processing_updated_at = processing, os_stale_processing_before = s\<rparr>) = Some (summary_answer t s d)"
  by (simp add: summary_to_response_def counts_to_response_def summary_answer_def summary_row_def non_negative_def)

lemma conforming_lists:
  assumes "conforming url d"
  shows "all_some (map (endpoint_to_response url) (sort_key f (endpoints d))) = Some (map endpoint_answer (sort_key f (endpoints d)))"
    and "all_some (map attempt_to_response (sort_key g (filter P (attempts d)))) =
      Some (map attempt_answer (sort_key g (filter P (attempts d))))"
    and "set js \<subseteq> set (jobs d) \<Longrightarrow> all_some (map job_to_response (map row_snapshot js)) = Some (map job_answer js)"
proof -
  show "all_some (map (endpoint_to_response url) (sort_key f (endpoints d))) = Some (map endpoint_answer (sort_key f (endpoints d)))"
    by (rule all_some_map) (simp add: conforming_answers(1) [OF assms])
  show "all_some (map attempt_to_response (sort_key g (filter P (attempts d)))) =
      Some (map attempt_answer (sort_key g (filter P (attempts d))))"
    by (rule all_some_map) (simp add: conforming_answers(2) [OF assms])
  show "all_some (map job_to_response (map row_snapshot js)) = Some (map job_answer js)" if "set js \<subseteq> set (jobs d)"
    unfolding map_map by (rule all_some_map) (use conforming_answers(3) [OF assms] that in auto)
qed

lemma page_answer:
  assumes "conforming url d" and "set js \<subseteq> set (jobs d)"
  shows "page_to_response (found_page status n js) =
    Some \<lparr>xl_items = map job_answer (take n js),
      xl_next_cursor = (if n < length js then Some (encode_cursor (row_snapshot (last (take n js))) status) else None)\<rparr>"
proof -
  have "set (take n js) \<subseteq> set (jobs d)" using assms(2) set_take_subset by fast
  from conforming_lists(3) [OF assms(1) this] show ?thesis by (simp add: page_to_response_def found_page_def)
qed

lemma filter_head: "filter P xs = x # ys \<Longrightarrow> x \<in> set xs \<and> P x"
  by (metis filter_eq_ConsD in_set_conv_decomp)

lemma read_job:
  assumes "dispatch create_app False (rq_method rq) (rq_path rq) = Serve Get_job params" and "w_script (ap_world a) = []"
    and "conforming (fw_http_url fw) (w_committed (ap_world a))" and "params = [p]"
  shows "fst (handle fw rq a) = read_answer fw Get_job params rq a \<and>
    w_committed (ap_world (snd (handle fw rq a))) = w_committed (ap_world a)"
proof -
  let ?w = "ap_world a" and ?d = "w_committed (ap_world a)"
  have ok: "schema_ok ?d" using assms(3) by (simp add: conforming_def)
  have served: "serve fw Get_job params rq a = in_world (get_session (session_route fw Get_job params rq)) a"
    by (simp add: serve_def)
  show ?thesis
  proof (cases "fw_uuid fw p")
    case None
    then show ?thesis
      unfolding handle_served [OF assms(1) served]
      by (simp add: get_session_run session_route_def event_id_param_def required_def assms(4) bindE_def liftE_def
          invalid_request_def read_answer_def)
  next
    case (Some i)
    have in_jobs: "j \<in> set (jobs ?d)" if "filter (\<lambda>j. job_event_id j = i) (jobs ?d) = j # js" for j js
      using filter_head [OF that] by blast
    note step = handle_served [OF assms(1) served] get_session_run session_route_def event_id_param_def required_def
      assms(4) Some bindE_def liftE_def respond_run read_answer_def
    have route: "get_webhook_delivery_job_route i (opened ?w) =
      ((if get_event i ?d = None then Inl (HTTPException 404 ''Webhook event not found'')
        else (case filter (\<lambda>j. job_event_id j = i) (jobs ?d) of
            [] \<Rightarrow> Inl (HTTPException 409 ''Webhook delivery job not found'')
          | j # _ \<Rightarrow> Inr (200, row_snapshot j))), opened ?w)"
      using get_job_route_run [of "opened ?w" i] assms(2) ok by simp
    show ?thesis
    proof (cases "get_event i ?d")
      case None
      with route show ?thesis by (simp add: step)
    next
      case found: (Some v)
      show ?thesis
      proof (cases "filter (\<lambda>j. job_event_id j = i) (jobs ?d)")
        case Nil
        with route found show ?thesis by (simp add: step)
      next
        case (Cons j js)
        with route found conforming_answers(3) [OF assms(3) in_jobs [OF Cons]] show ?thesis by (simp add: step)
      qed
    qed
  qed
qed

lemma read_attempts:
  assumes "dispatch create_app False (rq_method rq) (rq_path rq) = Serve List_attempts [p]"
    and "w_script (ap_world a) = []" and "conforming (fw_http_url fw) (w_committed (ap_world a))"
  shows "fst (handle fw rq a) = read_answer fw List_attempts [p] rq a \<and>
    w_committed (ap_world (snd (handle fw rq a))) = w_committed (ap_world a)"
proof -
  let ?w = "ap_world a" and ?d = "w_committed (ap_world a)"
  have "serve fw List_attempts [p] rq a = in_world (get_session (session_route fw List_attempts [p] rq)) a"
    by (simp add: serve_def)
  note step = handle_served [OF assms(1) this] get_session_run session_route_def event_id_param_def required_def
    bindE_def liftE_def invalid_request_def respond_run read_answer_def
  show ?thesis
  proof (cases "fw_uuid fw p")
    case None
    then show ?thesis by (simp add: step)
  next
    case (Some i)
    then show ?thesis
      using list_attempts_run [of "opened ?w" i] assms(2)
      by (cases "get_event i ?d") (simp_all add: step conforming_lists(2) [OF assms(3)])
  qed
qed

lemma read_jobs:
  assumes "dispatch create_app False (rq_method rq) (rq_path rq) = Serve List_jobs params"
    and "w_script (ap_world a) = []" and "conforming (fw_http_url fw) (w_committed (ap_world a))"
    and "documented_errors (w_env (ap_world a))"
  shows "fst (handle fw rq a) = read_answer fw List_jobs params rq a \<and>
    w_committed (ap_world (snd (handle fw rq a))) = w_committed (ap_world a)"
proof -
  let ?w = "ap_world a" and ?d = "w_committed (ap_world a)"
  have "serve fw List_jobs params rq a = in_world (get_session (session_route fw List_jobs params rq)) a"
    by (simp add: serve_def)
  note step = handle_served [OF assms(1) this] get_session_run session_route_def bindE_def liftE_def read_answer_def
  show ?thesis
  proof (cases "list_query rq")
    case (Inl e)
    then have "e = invalid_request" by (auto simp: list_query_def split: option.split_asm int_query.split_asm if_split_asm)
    then show ?thesis using Inl by (simp add: step invalid_request_def)
  next
    case (Inr q)
    obtain status n where q: "q = (status, n)" by (cases q)
    show ?thesis
    proof (cases "requested_position (w_env ?w) rq status")
      case (Inl e)
      from requested_position_errors [OF assms(4) this] show ?thesis
        using list_jobs_route_cursor [of rq status n "opened ?w" e] Inl Inr q
        by (auto simp: step respond_run)
    next
      case pos: (Inr pos)
      have "set (rev (sort_key list_order (filter (\<lambda>j. status_clause status j \<and> cursor_clause pos j) (jobs ?d))))
          \<subseteq> set (jobs ?d)" by auto
      note page = page_answer [OF assms(3) this]
      have quiet: "w_script (opened ?w) = []" "schema_ok (w_working (opened ?w))"
        using assms(2,3) by (simp_all add: conforming_def)
      show ?thesis
        using Inr list_jobs_route_run [OF quiet, of rq status n pos] pos page
        by (simp add: step q respond_run Let_def)
    qed
  qed
qed

lemma read_summary:
  assumes "dispatch create_app False (rq_method rq) (rq_path rq) = Serve Summary params"
    and "w_script (ap_world a) = []" and "timestamps_in_range (opened (ap_world a))"
  shows "fst (handle fw rq a) = read_answer fw Summary params rq a \<and>
    w_committed (ap_world (snd (handle fw rq a))) = w_committed (ap_world a)"
proof -
  obtain r a1 where settings: "get_settings (fw_coercions fw) a = (r, a1)" by fastforce
  then have world: "ap_world a1 = ap_world a" and refused: "r = Inl e \<Longrightarrow> \<exists>m. e = ValueError m" for e
    using make_settings_Inl [of "fw_coercions fw" "ap_raw_settings a" e]
    by (auto simp: get_settings_def split: option.splits sum.splits)
  show ?thesis
  proof (cases r)
    case (Inl e)
    then obtain m where "e = ValueError m" using refused by blast
    then show ?thesis using Inl settings world
      by (simp add: handle_def assms(1) serve_def in_world_def get_session_run raiseE_def read_answer_def)
  next
    case (Inr s)
    let ?v = "VFloat (webhook_worker_stale_processing_timeout_seconds s)" and ?w = "opened (ap_world a)"
    let ?t = "dt_local (e_utc_now (w_env (ap_world a)) (w_ticks (ap_world a)))"
    have quiet: "w_script ?w = []" using assms(2) by simp
    note run = summary_route_run [OF quiet assms(3), of ?v]
    show ?thesis
    proof (cases "stale_boundary ?t ?v")
      case (Inl e)
      then show ?thesis using settings \<open>r = Inr s\<close> world run stale_boundary_error [OF Inl]
        by (auto simp: handle_def assms(1) serve_def in_world_def get_session_run respond_run bindE_def read_answer_def
            Let_def)
    next
      case before: (Inr b)
      obtain c due processing where "summary_row ?t b (w_committed (ap_world a)) = (c, due, processing)"
        by (rule prod_cases3)
      then show ?thesis using before settings Inr world run summary_model [of ?t b "w_committed (ap_world a)"]
        by (simp add: handle_def assms(1) serve_def in_world_def get_session_run respond_run bindE_def returnE_def
            read_answer_def Let_def)
    qed
  qed
qed


section \<open>Following an accepted event\<close>

lemma creation_key: "create_idempotent_webhook_event_with_delivery_job ep ty p raw w = (Inr x, w') \<Longrightarrow>
    \<exists>key. normalize_webhook_idempotency_key raw = Inr key"
  by (auto simp: create_idempotent_webhook_event_with_delivery_job_def bindE_Inr liftE_def)

lemma created_answer:
  assumes "growing (ap_world a)" and "(rq_method rq, rq_path rq) = operation_path Create_event []"
    and "handle fw rq a = ((201, Event_body v), a1)"
  obtains ev where "event_to_response ev = Some v" "ev \<in> set (events (w_committed (ap_world a1)))"
    "has_job ev (w_committed (ap_world a1))"
proof -
  have dispatched: "dispatch create_app False (rq_method rq) (rq_path rq) = Serve Create_event []"
    using assms(2) dispatch_operation [of "[CHR ''x'']" Create_event]
    by (simp add: operation_path_def has_event_id_def)
  have served: "serve fw Create_event [] rq a = in_world (get_session (session_route fw Create_event [] rq)) a"
    by (simp add: serve_def)
  from assms(3) obtain w1 where session: "get_session (session_route fw Create_event [] rq) (ap_world a) = (Inr (201, Event_body v), w1)"
    and a1: "a1 = a\<lparr>ap_world := w1\<rparr>"
    unfolding handle_served [OF dispatched served] by (auto split: prod.split_asm sum.split_asm exc.split_asm)
  from session obtain w2 where run: "session_route fw Create_event [] rq (opened (ap_world a)) = (Inr (201, Event_body v), w2)"
    and w1: "w1 = discard Session_close w2"
    by (rule get_session_Inr)
  from run obtain payload where
      responded: "respond event_to_response Event_body (create_webhook_event payload (rq_idempotency_key rq)) (opened (ap_world a)) =
        (Inr (201, Event_body v), w2)"
    by (simp add: session_route_def bindE_Inr liftE_def) blast
  from respond_Inr [OF this] obtain ev where
      route: "create_webhook_event payload (rq_idempotency_key rq) (opened (ap_world a)) = (Inr (201, ev), w2)"
    and model: "event_to_response ev = Some v" by auto
  from route obtain key where key: "normalize_webhook_idempotency_key (rq_idempotency_key rq) = Inr key"
    using creation_key by (fastforce simp: create_webhook_event_def bindE_Inr try_except_Inr raiseE_def)
  have "get_session (create_webhook_event payload (rq_idempotency_key rq)) (ap_world a) = (Inr (201, ev), w1)"
    by (simp add: get_session_run route w1)
  from accepted_event [OF assms(1) key this]
  have committed: "ev \<in> set (events (w_committed w1))" "has_job ev (w_committed w1)" by simp_all
  with model that show thesis by (simp add: a1)
qed

text \<open>
  C7: An accepted event can be followed. When a request to create an event is answered 201, whatever else is
  going on, a later request for the delivery job of the event it returned, at any time and whatever
  happened to the tables in between short of losing history, is answered 200 with a job of that event.
\<close>

theorem accepted_event_followed:
  assumes "growing (ap_world a)" and "(rq_method rq, rq_path rq) = operation_path Create_event ''''"
    and "handle fw rq a = ((201, Event_body v), a1)"
    and "history_kept (w_committed (ap_world a1)) (w_committed (ap_world a2))" and "w_script (ap_world a2) = []"
    and "conforming (fw_http_url fw) (w_committed (ap_world a2))"
    and "(rq_method rq2, rq_path rq2) = operation_path Get_job i" and "i \<noteq> ''''" and "fw_uuid fw i = Some (xv_id v)"
  shows "\<exists>j \<in> set (jobs (w_committed (ap_world a2))). job_event_id j = xv_id v \<and>
    fst (handle fw rq2 a2) = (200, Job_body (job_answer j))"
proof -
  have d2: "dispatch create_app False (rq_method rq2) (rq_path rq2) = Serve Get_job [i]"
    using assms(7) dispatch_operation [OF assms(8), of Get_job] by (simp add: operation_path_def has_event_id_def)
  obtain ev where model: "event_to_response ev = Some v"
      and committed: "ev \<in> set (events (w_committed (ap_world a1)))" "has_job ev (w_committed (ap_world a1))"
    by (rule created_answer [OF assms(1-3)])
  let ?d = "w_committed (ap_world a2)"
  have later: "ev \<in> set (events ?d)" "has_job ev ?d"
    using committed assms(4) by (auto intro: event_history has_job_history)
  have id: "xv_id v = ev_id ev" using model by (auto simp: event_to_response_def split: json.split_asm)
  have found: "get_event (xv_id v) ?d \<noteq> None"
    using get_event_in [OF _ later(1)] assms(6) by (simp add: conforming_def id)
  obtain j js where js: "filter (\<lambda>j. job_event_id j = xv_id v) (jobs ?d) = j # js"
    using later(2) by (cases "filter (\<lambda>j. job_event_id j = xv_id v) (jobs ?d)") (auto simp: has_job_def id filter_empty_conv)
  have j: "j \<in> set (jobs ?d) \<and> job_event_id j = xv_id v"
    using filter_head [OF js] by blast
  have "fst (handle fw rq2 a2) = read_answer fw Get_job [i] rq2 a2"
    using read_job [OF d2 assms(5,6)] by simp
  then show ?thesis using j found js assms(9) by (intro bexI [of _ j]) (simp_all add: read_answer_def)
qed

section \<open>The HTTP client\<close>

fun serve_requests :: "framework \<Rightarrow> http_request list \<Rightarrow> application \<Rightarrow> (nat \<times> body) list \<times> application" where
  "serve_requests fw [] a = ([], a)"
| "serve_requests fw (rq # rqs) a =
     (case handle fw rq a of (answer, a1) \<Rightarrow>
       (case serve_requests fw rqs a1 of (answers, a2) \<Rightarrow> (answer # answers, a2)))"

definition running :: "framework \<Rightarrow> http_request list \<Rightarrow> (application, (nat \<times> body) list) io" where
  "running fw rqs a = (case serve_requests fw rqs a of (answers, a1) \<Rightarrow> (Inr answers, a1))"

definition client_state :: "application \<Rightarrow> nat option \<times> nat list \<times> nat" where
  "client_state a = (ap_http_client a, ap_open_clients a, ap_clients a)"

lemma client_state_world: "client_state (snd (in_world m a)) = client_state a"
  by (simp add: client_state_def in_world_def split: prod.split)

lemma client_state_settings: "client_state (snd (get_settings co a)) = client_state a"
  by (simp add: client_state_def get_settings_def split: option.split sum.split)

lemma client_state_client: "snd (get_webhook_http_client a) = a"
  by (simp add: get_webhook_http_client_def split: option.split)

lemma client_state_serve: "client_state (snd (serve fw operation params rq a)) = client_state a"
  using client_state_settings [of "fw_coercions fw" a] client_state_client [of a]
  by (auto simp: serve_def client_state_world split: operation.split prod.split sum.split)

lemma client_state_handle: "client_state (snd (handle fw rq a)) = client_state a"
  using client_state_serve
  by (auto simp: handle_def split: dispatched.split prod.split sum.split exc.split) (metis snd_conv)+

lemma client_state_requests: "client_state (snd (serve_requests fw rqs a)) = client_state a"
proof (induction rqs arbitrary: a)
  case Nil
  show ?case by simp
next
  case (Cons rq rqs)
  show ?case
    using Cons.IH [of "snd (handle fw rq a)"] client_state_handle [of fw rq a] by (simp add: case_prod_beta)
qed

text \<open>The application once its lifespan has opened the client.\<close>

definition started :: "application \<Rightarrow> application" where
  "started a = a\<lparr>ap_clients := Suc (ap_clients a), ap_open_clients := ap_clients a # ap_open_clients a,
     ap_http_client := Some (ap_clients a)\<rparr>"

lemma client_state_started:
  "client_state a = client_state (started b) \<longleftrightarrow>
     ap_http_client a = Some (ap_clients b) \<and> ap_open_clients a = ap_clients b # ap_open_clients b \<and>
     ap_clients a = Suc (ap_clients b)"
  by (auto simp: client_state_def started_def)

lemma lifespan_run:
  assumes "ap_client_error a = None" and "client_state (snd (m (started a))) = client_state (started a)"
    and "\<forall>c \<in> set (ap_open_clients a). c < ap_clients a"
  shows "lifespan m a = (fst (m (started a)),
    (snd (m (started a)))\<lparr>ap_http_client := None, ap_open_clients := ap_open_clients a\<rparr>)"
proof -
  obtain r b where m: "m (started a) = (r, b)" by (cases "m (started a)")
  have b: "ap_http_client b = Some (ap_clients a)" "ap_open_clients b = ap_clients a # ap_open_clients a"
    using assms(2) by (simp_all add: m client_state_started)
  have others: "filter (\<lambda>x. x \<noteq> ap_clients a) (ap_open_clients a) = ap_open_clients a"
    using assms(3) by (auto simp: filter_id_conv)
  show ?thesis
    using assms(1) m b others
    by (simp add: lifespan_def bindE_def try_finally_def open_client_def close_client_def set_http_client_def
        del_http_client_def started_def split: sum.split)
qed

lemma unserved_attempt:
  assumes "ap_http_client a = None" and "(rq_method rq, rq_path rq) = operation_path Create_attempt i" and "i \<noteq> ''''"
  shows "fst (handle fw rq a) = (500, Server_error) \<and>
    w_committed (ap_world (snd (handle fw rq a))) = w_committed (ap_world a)"
proof -
  have "dispatch create_app False (rq_method rq) (rq_path rq) = Serve Create_attempt [i]"
    using assms(2) dispatch_operation [OF assms(3), of Create_attempt] by (simp add: operation_path_def has_event_id_def)
  then show ?thesis
    using assms(1) by (simp add: handle_def serve_def get_webhook_http_client_def in_world_def get_session_run raiseE_def)
qed

text \<open>
  C23: The application owns its HTTP client. If the client opens, the lifespan answers the requests with
  one and the same open client in the state from the first to the last, and afterwards the state holds no
  client and that client is closed, while every other client stays open; so it is when serving ends with an
  exception. After the lifespan, a request for a delivery attempt answers 500 and commits nothing.
\<close>

theorem lifespan_owns_client:
  assumes "ap_client_error a = None" and "\<forall>c \<in> set (ap_open_clients a). c < ap_clients a"
    and "served = serve_requests fw rqs (started a)"
    and "lifespan (if fails then (\<lambda>b. (Inl e, snd (running fw rqs b))) else running fw rqs) a = (r, a1)"
  shows "r = (if fails then Inl e else Inr (fst served)) \<and> ap_world a1 = ap_world (snd served) \<and>
    (\<forall>k. let b = snd (serve_requests fw (take k rqs) (started a)) in
       fst (get_webhook_http_client b) = Inr (ap_clients a) \<and> ap_clients a \<in> set (ap_open_clients b)) \<and>
    ap_http_client a1 = None \<and> ap_open_clients a1 = ap_open_clients a \<and>
    (\<forall>rq i. (rq_method rq, rq_path rq) = operation_path Create_attempt i \<longrightarrow> i \<noteq> '''' \<longrightarrow>
       fst (handle fw rq a1) = (500, Server_error) \<and>
       w_committed (ap_world (snd (handle fw rq a1))) = w_committed (ap_world a1))"
proof -
  define m where "m = (if fails then (\<lambda>b. (Inl e, snd (running fw rqs b))) else running fw rqs)"
  have m: "fst (m (started a)) = (if fails then Inl e else Inr (fst served))" "snd (m (started a)) = snd served"
    by (simp_all add: m_def running_def case_prod_beta assms(3))
  have "client_state (snd (m (started a))) = client_state (started a)"
    using client_state_requests [of fw rqs "started a"] by (simp add: m(2) assms(3))
  from lifespan_run [where m = m, OF assms(1) this assms(2)]
  have run: "r = fst (m (started a))" "a1 = (snd served)\<lparr>ap_http_client := None, ap_open_clients := ap_open_clients a\<rparr>"
    using assms(4) by (simp_all add: m_def [symmetric] m(2))
  have inside: "let b = snd (serve_requests fw (take k rqs) (started a)) in
       fst (get_webhook_http_client b) = Inr (ap_clients a) \<and> ap_clients a \<in> set (ap_open_clients b)" for k
    using client_state_requests [of fw "take k rqs" "started a"]
    by (simp add: client_state_started get_webhook_http_client_def Let_def)
  have after: "ap_http_client a1 = None" by (simp add: run(2))
  show ?thesis
    using inside unserved_attempt [OF after] by (auto simp: m(1) run)
qed

end
