(* ===== verification/Migrations.thy ===== *)
theory Migrations
  imports Models
begin

text \<open>
  The migrations under \<open>migrations/versions\<close> as operations on a description of the tables, each with its
  upgrade and its downgrade, and the tables \<open>models.py\<close> declares in the same description. The order of the
  migrations is the one their \<open>down_revision\<close> links give. What an operation of the migration library does to
  the tables is its documented behaviour: it fails when the object it creates exists or the one it drops
  does not.
\<close>

section \<open>Descriptions of tables\<close>

datatype column_type = Uuid | Varchar nat | Text | Boolean | Int4 | Timestamptz | Jsonb

record column =
  co_name :: string
  co_type :: column_type
  co_nullable :: bool
  co_server_default :: "string option"

datatype check_expr =
    In_values string "string list"
  | Null string
  | Not_null string
  | At_least string int
  | Greater_than string int
  | Between string int int
  | Both check_expr check_expr
  | Either check_expr check_expr

datatype constr =
    Primary_key "string list"
  | Foreign_key "string list" string "string list" "string option"
  | Unique string "string list"
  | Check string check_expr

fun constr_name :: "constr \<Rightarrow> string option" where
  "constr_name (Unique n _) = Some n"
| "constr_name (Check n _) = Some n"
| "constr_name _ = None"

record table_schema =
  tb_columns :: "column list"
  tb_constraints :: "constr list"
  tb_indexes :: "(string \<times> string list) list"

type_synonym db_schema = "(string \<times> table_schema) list"

definition col :: "string \<Rightarrow> column_type \<Rightarrow> column" where
  "col n t = \<lparr>co_name = n, co_type = t, co_nullable = False, co_server_default = None\<rparr>"

definition nullable :: "column \<Rightarrow> column" where
  "nullable c = c\<lparr>co_nullable := True\<rparr>"

definition server_default :: "string \<Rightarrow> column \<Rightarrow> column" where
  "server_default e c = c\<lparr>co_server_default := Some e\<rparr>"

section \<open>Operations\<close>

datatype migration_op =
    Create_table string "column list" "constr list"
  | Drop_table string
  | Create_index string string "string list"
  | Drop_index string string
  | Add_column string column
  | Drop_column string string
  | Alter_column string string bool "string option"
  | Create_constraint string constr
  | Drop_constraint string string
  | Fill_attempt_count

text \<open>A change of one table, or \<open>None\<close> when there is no such table or the change fails.\<close>

definition alter_table ::
  "string \<Rightarrow> (table_schema \<Rightarrow> table_schema option) \<Rightarrow> db_schema \<Rightarrow> db_schema option" where
  "alter_table t f s =
     (case map_of s t of
        None \<Rightarrow> None
      | Some tb \<Rightarrow> map_option (\<lambda>tb'. map (\<lambda>(n, x). (n, if n = t then tb' else x)) s) (f tb))"

definition has_column :: "string \<Rightarrow> table_schema \<Rightarrow> bool" where
  "has_column c tb \<longleftrightarrow> c \<in> set (map co_name (tb_columns tb))"

fun apply_op :: "migration_op \<Rightarrow> db_schema \<Rightarrow> db_schema option" where
  "apply_op (Create_table t cols cs) s =
     (if t \<in> set (map fst s) then None
      else Some (s @ [(t, \<lparr>tb_columns = cols, tb_constraints = cs, tb_indexes = []\<rparr>)]))"
| "apply_op (Drop_table t) s = (if t \<in> set (map fst s) then Some (filter (\<lambda>x. fst x \<noteq> t) s) else None)"
| "apply_op (Create_index i t cols) s =
     alter_table t (\<lambda>tb. if i \<in> set (map fst (tb_indexes tb)) then None
       else Some (tb\<lparr>tb_indexes := tb_indexes tb @ [(i, cols)]\<rparr>)) s"
| "apply_op (Drop_index i t) s =
     alter_table t (\<lambda>tb. if i \<in> set (map fst (tb_indexes tb))
       then Some (tb\<lparr>tb_indexes := filter (\<lambda>x. fst x \<noteq> i) (tb_indexes tb)\<rparr>) else None) s"
| "apply_op (Add_column t c) s =
     alter_table t (\<lambda>tb. if has_column (co_name c) tb then None
       else Some (tb\<lparr>tb_columns := tb_columns tb @ [c]\<rparr>)) s"
| "apply_op (Drop_column t c) s =
     alter_table t (\<lambda>tb. if has_column c tb
       then Some (tb\<lparr>tb_columns := filter (\<lambda>x. co_name x \<noteq> c) (tb_columns tb)\<rparr>) else None) s"
| "apply_op (Alter_column t c n e) s =
     alter_table t (\<lambda>tb. if has_column c tb
       then Some (tb\<lparr>tb_columns := map (\<lambda>x. if co_name x = c
              then x\<lparr>co_nullable := n, co_server_default := e\<rparr> else x) (tb_columns tb)\<rparr>) else None) s"
| "apply_op (Create_constraint t k) s =
     alter_table t (\<lambda>tb. if constr_name k \<in> set (map constr_name (tb_constraints tb)) then None
       else Some (tb\<lparr>tb_constraints := tb_constraints tb @ [k]\<rparr>)) s"
| "apply_op (Drop_constraint t k) s =
     alter_table t (\<lambda>tb. if Some k \<in> set (map constr_name (tb_constraints tb))
       then Some (tb\<lparr>tb_constraints := filter (\<lambda>x. constr_name x \<noteq> Some k) (tb_constraints tb)\<rparr>) else None) s"
| "apply_op Fill_attempt_count s = Some s"

fun apply_ops :: "migration_op list \<Rightarrow> db_schema \<Rightarrow> db_schema option" where
  "apply_ops [] s = Some s"
| "apply_ops (x # xs) s = (case apply_op x s of None \<Rightarrow> None | Some s' \<Rightarrow> apply_ops xs s')"

record migration =
  mg_revision :: string
  mg_down_revision :: "string option"
  mg_upgrade :: "migration_op list"
  mg_downgrade :: "migration_op list"

section \<open>The migrations\<close>

definition create_webhook_endpoints :: migration where
  "create_webhook_endpoints =
     \<lparr>mg_revision = ''5933ef63fabf'', mg_down_revision = None,
      mg_upgrade =
        [Create_table ''webhook_endpoints''
          [col ''id'' Uuid, col ''name'' (Varchar 255), col ''target_url'' (Varchar 2048),
           server_default ''true'' (col ''is_active'' Boolean),
           server_default ''now()'' (col ''created_at'' Timestamptz),
           server_default ''now()'' (col ''updated_at'' Timestamptz)]
          [Primary_key [''id'']]],
      mg_downgrade = [Drop_table ''webhook_endpoints'']\<rparr>"

definition create_webhook_events :: migration where
  "create_webhook_events =
     \<lparr>mg_revision = ''df51b920cf81'', mg_down_revision = Some ''5933ef63fabf'',
      mg_upgrade =
        [Create_table ''webhook_events''
          [col ''id'' Uuid, col ''endpoint_id'' Uuid, col ''event_type'' (Varchar 255), col ''payload'' Jsonb,
           server_default ''now()'' (col ''created_at'' Timestamptz)]
          [Foreign_key [''endpoint_id''] ''webhook_endpoints'' [''id''] None, Primary_key [''id'']],
         Create_index ''ix_webhook_events_endpoint_id'' ''webhook_events'' [''endpoint_id'']],
      mg_downgrade =
        [Drop_index ''ix_webhook_events_endpoint_id'' ''webhook_events'', Drop_table ''webhook_events'']\<rparr>"

definition create_webhook_delivery_attempts :: migration where
  "create_webhook_delivery_attempts =
     \<lparr>mg_revision = ''10f4dd620e97'', mg_down_revision = Some ''df51b920cf81'',
      mg_upgrade =
        [Create_table ''webhook_delivery_attempts''
          [col ''id'' Uuid, col ''event_id'' Uuid, col ''attempt_number'' Int4, col ''outcome'' (Varchar 32),
           col ''target_url'' (Varchar 2048), nullable (col ''response_status_code'' Int4),
           nullable (col ''error_message'' Text), col ''duration_ms'' Int4,
           server_default ''now()'' (col ''attempted_at'' Timestamptz)]
          [Check ''ck_webhook_delivery_attempts_outcome'' (In_values ''outcome'' [''succeeded'', ''failed'']),
           Check ''ck_webhook_delivery_attempts_attempt_number_positive'' (Greater_than ''attempt_number'' 0),
           Check ''ck_webhook_delivery_attempts_duration_ms_non_negative'' (At_least ''duration_ms'' 0),
           Check ''ck_webhook_delivery_attempts_response_status_code''
             (Either (Null ''response_status_code'') (Between ''response_status_code'' 100 599)),
           Foreign_key [''event_id''] ''webhook_events'' [''id''] None,
           Primary_key [''id''],
           Unique ''uq_webhook_delivery_attempts_event_id_attempt_number'' [''event_id'', ''attempt_number'']],
         Create_index ''ix_webhook_delivery_attempts_event_id'' ''webhook_delivery_attempts'' [''event_id'']],
      mg_downgrade =
        [Drop_index ''ix_webhook_delivery_attempts_event_id'' ''webhook_delivery_attempts'',
         Drop_table ''webhook_delivery_attempts'']\<rparr>"

definition create_webhook_delivery_jobs :: migration where
  "create_webhook_delivery_jobs =
     \<lparr>mg_revision = ''200628ca5044'', mg_down_revision = Some ''10f4dd620e97'',
      mg_upgrade =
        [Create_table ''webhook_delivery_jobs''
          [col ''id'' Uuid, col ''event_id'' Uuid, col ''status'' (Varchar 32),
           nullable (col ''next_attempt_at'' Timestamptz),
           server_default ''now()'' (col ''created_at'' Timestamptz),
           server_default ''now()'' (col ''updated_at'' Timestamptz)]
          [Check ''ck_webhook_delivery_jobs_status_next_attempt_at''
             (Either (Both (In_values ''status'' [''pending'', ''processing'']) (Not_null ''next_attempt_at''))
                (Both (In_values ''status'' [''succeeded'', ''dead_letter'']) (Null ''next_attempt_at''))),
           Check ''ck_webhook_delivery_jobs_status''
             (In_values ''status'' [''pending'', ''processing'', ''succeeded'', ''dead_letter'']),
           Foreign_key [''event_id''] ''webhook_events'' [''id''] (Some ''CASCADE''),
           Primary_key [''id''],
           Unique ''uq_webhook_delivery_jobs_event_id'' [''event_id'']]],
      mg_downgrade = [Drop_table ''webhook_delivery_jobs'']\<rparr>"

definition add_webhook_event_idempotency_key :: migration where
  "add_webhook_event_idempotency_key =
     \<lparr>mg_revision = ''9970fa5ecbab'', mg_down_revision = Some ''200628ca5044'',
      mg_upgrade =
        [Add_column ''webhook_events'' (nullable (col ''idempotency_key'' (Varchar 255))),
         Create_constraint ''webhook_events''
           (Unique ''uq_webhook_events_endpoint_id_idempotency_key'' [''endpoint_id'', ''idempotency_key''])],
      mg_downgrade =
        [Drop_constraint ''webhook_events'' ''uq_webhook_events_endpoint_id_idempotency_key'',
         Drop_column ''webhook_events'' ''idempotency_key'']\<rparr>"

definition add_delivery_job_attempt_count :: migration where
  "add_delivery_job_attempt_count =
     \<lparr>mg_revision = ''c4f7a9e21b6d'', mg_down_revision = Some ''9970fa5ecbab'',
      mg_upgrade =
        [Add_column ''webhook_delivery_jobs'' (nullable (col ''attempt_count'' Int4)),
         Fill_attempt_count,
         Alter_column ''webhook_delivery_jobs'' ''attempt_count'' False (Some ''0''),
         Create_constraint ''webhook_delivery_jobs''
           (Check ''ck_webhook_delivery_jobs_attempt_count_non_negative'' (At_least ''attempt_count'' 0))],
      mg_downgrade =
        [Drop_constraint ''webhook_delivery_jobs'' ''ck_webhook_delivery_jobs_attempt_count_non_negative'',
         Drop_column ''webhook_delivery_jobs'' ''attempt_count'']\<rparr>"

text \<open>The UPDATE of the last migration, on the rows.\<close>

definition fill_attempt_count :: "db \<Rightarrow> db" where
  "fill_attempt_count d =
     d\<lparr>jobs := map (\<lambda>j. j\<lparr>job_attempt_count :=
         int (length (filter (\<lambda>a. at_event_id a = job_event_id j) (attempts d)))\<rparr>) (jobs d)\<rparr>"

definition migrations :: "migration list" where
  "migrations =
     [create_webhook_delivery_attempts, create_webhook_delivery_jobs, create_webhook_endpoints,
      add_webhook_event_idempotency_key, add_delivery_job_attempt_count, create_webhook_events]"

text \<open>The chain of revisions from a given one, as the migration library follows it; at most \<open>n\<close> links.\<close>

fun revision_chain :: "nat \<Rightarrow> string option \<Rightarrow> migration list \<Rightarrow> migration list" where
  "revision_chain 0 down ms = []"
| "revision_chain (Suc n) down ms =
     (case filter (\<lambda>m. mg_down_revision m = down) ms of
        [m] \<Rightarrow> m # revision_chain n (Some (mg_revision m)) ms
      | _ \<Rightarrow> [])"

definition upgrade_order :: "migration list" where
  "upgrade_order = revision_chain (length migrations) None migrations"

section \<open>The tables of the models\<close>

definition model_tables :: db_schema where
  "model_tables =
     [(''webhook_endpoints'',
       \<lparr>tb_columns =
          [col ''id'' Uuid, col ''name'' (Varchar 255), col ''target_url'' (Varchar 2048),
           server_default ''true'' (col ''is_active'' Boolean),
           server_default ''now()'' (col ''created_at'' Timestamptz),
           server_default ''now()'' (col ''updated_at'' Timestamptz)],
        tb_constraints = [Primary_key [''id'']], tb_indexes = []\<rparr>),
      (''webhook_events'',
       \<lparr>tb_columns =
          [col ''id'' Uuid, col ''endpoint_id'' Uuid, col ''event_type'' (Varchar 255), col ''payload'' Jsonb,
           nullable (col ''idempotency_key'' (Varchar 255)),
           server_default ''now()'' (col ''created_at'' Timestamptz)],
        tb_constraints =
          [Unique ''uq_webhook_events_endpoint_id_idempotency_key'' [''endpoint_id'', ''idempotency_key''],
           Primary_key [''id''], Foreign_key [''endpoint_id''] ''webhook_endpoints'' [''id''] None],
        tb_indexes = [(''ix_webhook_events_endpoint_id'', [''endpoint_id''])]\<rparr>),
      (''webhook_delivery_jobs'',
       \<lparr>tb_columns =
          [col ''id'' Uuid, col ''event_id'' Uuid, col ''status'' (Varchar 32),
           nullable (col ''next_attempt_at'' Timestamptz),
           server_default ''0'' (col ''attempt_count'' Int4),
           server_default ''now()'' (col ''created_at'' Timestamptz),
           server_default ''now()'' (col ''updated_at'' Timestamptz)],
        tb_constraints =
          [Check ''ck_webhook_delivery_jobs_status''
             (In_values ''status'' [''pending'', ''processing'', ''succeeded'', ''dead_letter'']),
           Check ''ck_webhook_delivery_jobs_status_next_attempt_at''
             (Either (Both (In_values ''status'' [''pending'', ''processing'']) (Not_null ''next_attempt_at''))
                (Both (In_values ''status'' [''succeeded'', ''dead_letter'']) (Null ''next_attempt_at''))),
           Check ''ck_webhook_delivery_jobs_attempt_count_non_negative'' (At_least ''attempt_count'' 0),
           Unique ''uq_webhook_delivery_jobs_event_id'' [''event_id''],
           Primary_key [''id''], Foreign_key [''event_id''] ''webhook_events'' [''id''] (Some ''CASCADE'')],
        tb_indexes = []\<rparr>),
      (''webhook_delivery_attempts'',
       \<lparr>tb_columns =
          [col ''id'' Uuid, col ''event_id'' Uuid, col ''attempt_number'' Int4, col ''outcome'' (Varchar 32),
           col ''target_url'' (Varchar 2048), nullable (col ''response_status_code'' Int4),
           nullable (col ''error_message'' Text), col ''duration_ms'' Int4,
           server_default ''now()'' (col ''attempted_at'' Timestamptz)],
        tb_constraints =
          [Check ''ck_webhook_delivery_attempts_attempt_number_positive'' (Greater_than ''attempt_number'' 0),
           Check ''ck_webhook_delivery_attempts_outcome'' (In_values ''outcome'' [''succeeded'', ''failed'']),
           Check ''ck_webhook_delivery_attempts_response_status_code''
             (Either (Null ''response_status_code'') (Between ''response_status_code'' 100 599)),
           Check ''ck_webhook_delivery_attempts_duration_ms_non_negative'' (At_least ''duration_ms'' 0),
           Unique ''uq_webhook_delivery_attempts_event_id_attempt_number'' [''event_id'', ''attempt_number''],
           Primary_key [''id''], Foreign_key [''event_id''] ''webhook_events'' [''id''] None],
        tb_indexes = [(''ix_webhook_delivery_attempts_event_id'', [''event_id''])]\<rparr>)]"

section \<open>The migrations build the tables of the models\<close>

text \<open>Equal up to the order of tables, columns, constraints and indexes.\<close>

definition same_list :: "'a list \<Rightarrow> 'a list \<Rightarrow> bool" where
  "same_list xs ys \<longleftrightarrow> length xs = length ys \<and> set xs = set ys"

definition same_table :: "table_schema \<Rightarrow> table_schema \<Rightarrow> bool" where
  "same_table a b \<longleftrightarrow> same_list (tb_columns a) (tb_columns b) \<and> same_list (tb_constraints a) (tb_constraints b) \<and>
     same_list (tb_indexes a) (tb_indexes b)"

definition same_schema :: "db_schema \<Rightarrow> db_schema \<Rightarrow> bool" where
  "same_schema s s' \<longleftrightarrow> same_list (map fst s) (map fst s') \<and>
     (\<forall>t \<in> set (map fst s). same_table (the (map_of s t)) (the (map_of s' t)))"

text \<open>Each upgrade from what the ones before have built, with the downgrade after it.\<close>

fun upgrades :: "migration list \<Rightarrow> db_schema \<Rightarrow> db_schema option" where
  "upgrades [] s = Some s"
| "upgrades (m # ms) s = (case apply_ops (mg_upgrade m) s of None \<Rightarrow> None | Some s' \<Rightarrow> upgrades ms s')"

fun reversible :: "migration list \<Rightarrow> db_schema \<Rightarrow> bool" where
  "reversible [] s = True"
| "reversible (m # ms) s =
     (case apply_ops (mg_upgrade m) s of
        None \<Rightarrow> False
      | Some s' \<Rightarrow> apply_ops (mg_downgrade m) s' = Some s \<and> reversible ms s')"

lemma fill_counts: "j \<in> set (jobs (fill_attempt_count d)) \<Longrightarrow>
    job_attempt_count j = int (length (filter (\<lambda>a. at_event_id a = job_event_id j) (attempts d)))"
  by (auto simp: fill_attempt_count_def)

lemma upgrade_from_empty: "\<exists>s. upgrades upgrade_order [] = Some s \<and> same_schema s model_tables"
proof -
  have "upgrades upgrade_order [] \<noteq> None" by code_simp
  moreover have "same_schema (the (upgrades upgrade_order [])) model_tables" by code_simp
  ultimately show ?thesis by force
qed


end
