(* ===== verification/Migration_Env.thy ===== *)
theory Migration_Env
  imports Config Migrations "HOL-Library.AList"
begin

text \<open>
  \<open>migrations/env.py\<close>: the script the migration tool runs. It writes the database URL of the settings into
  the tool's configuration, whose options go through the interpolation of \<open>configparser\<close>, and runs the
  migrations offline or online. The tool and the driver are parameters, with their documented behaviour: an
  online run is one transaction.
\<close>

section \<open>Interpolation\<close>

datatype env_error =
    Settings_rejected exc
  | Invalid_interpolation string
  | InterpolationSyntaxError
  | InterpolationMissingOptionError string
  | InterpolationDepthError
  | Missing_option string
  | Database_failed exc
  | Migration_failed

text \<open>\<open>value.replace("%", "%%")\<close> and \<open>value.replace("%%", "")\<close>\<close>

definition escape_percent :: "string \<Rightarrow> string" where
  "escape_percent s = concat (map (\<lambda>c. if c = CHR ''%'' then ''%%'' else [c]) s)"

fun without_escapes :: "string \<Rightarrow> string" where
  "without_escapes [] = []"
| "without_escapes [c] = [c]"
| "without_escapes (c # d # s) =
     (if c = CHR ''%'' \<and> d = CHR ''%'' then without_escapes s else c # without_escapes (d # s))"

text \<open>The pattern \<open>%\([^)]+\)s\<close>, matched at the start of a text: the name and what follows.\<close>

definition reference_at :: "string \<Rightarrow> (string \<times> string) option" where
  "reference_at s =
     (case s of
        c # d # rest \<Rightarrow>
          if c = CHR ''%'' \<and> d = CHR ''('' then
            (let name = takeWhile (\<lambda>x. x \<noteq> CHR '')'') rest in
             case dropWhile (\<lambda>x. x \<noteq> CHR '')'') rest of
               _ # e # after \<Rightarrow> if name \<noteq> [] \<and> e = CHR ''s'' then Some (name, after) else None
             | _ \<Rightarrow> None)
          else None
      | _ \<Rightarrow> None)"

lemma reference_at_shorter: "reference_at s = Some (name, rest) \<Longrightarrow> length rest < length s"
proof -
  assume a: "reference_at s = Some (name, rest)"
  then obtain c d s' x y where s: "s = c # d # s'" "dropWhile (\<lambda>x. x \<noteq> CHR '')'') s' = x # y # rest"
    by (auto simp: reference_at_def Let_def split: list.split_asm if_split_asm)
  have "length (dropWhile (\<lambda>x. x \<noteq> CHR '')'') s') \<le> length s'" by (rule length_dropWhile_le)
  then show ?thesis by (simp add: s)
qed

function without_references :: "string \<Rightarrow> string" where
  "without_references s =
     (case s of
        [] \<Rightarrow> []
      | c # cs \<Rightarrow> (case reference_at s of None \<Rightarrow> c # without_references cs | Some (_, rest) \<Rightarrow> without_references rest))"
  by pat_completeness auto
termination
  by (relation "measure length") (auto dest: reference_at_shorter)

declare without_references.simps [simp del]

definition before_set :: "string \<Rightarrow> env_error + string" where
  "before_set v =
     (if CHR ''%'' \<in> set (without_references (without_escapes v)) then Inl (Invalid_interpolation v) else Inr v)"

definition max_interpolation_depth :: nat where
  "max_interpolation_depth = 10"

text \<open>\<open>_interpolate_some\<close>; \<open>lookup\<close> reads an option by its normalized name.\<close>

function interpolate_some :: "(string \<Rightarrow> string option) \<Rightarrow> nat \<Rightarrow> string \<Rightarrow> env_error + string" where
  "interpolate_some lookup depth rest =
     (if max_interpolation_depth < depth then Inl InterpolationDepthError
      else case rest of
        [] \<Rightarrow> Inr []
      | c # cs \<Rightarrow>
          if c \<noteq> CHR ''%'' then map_sum id (Cons c) (interpolate_some lookup depth cs)
          else (case cs of
              [] \<Rightarrow> Inl InterpolationSyntaxError
            | d # ds \<Rightarrow>
                if d = CHR ''%'' then map_sum id (Cons d) (interpolate_some lookup depth ds)
                else if d = CHR ''('' then
                  (case reference_at rest of
                     None \<Rightarrow> Inl InterpolationSyntaxError
                   | Some (var, after) \<Rightarrow>
                       (case lookup var of
                          None \<Rightarrow> Inl (InterpolationMissingOptionError var)
                        | Some v \<Rightarrow>
                            (case (if CHR ''%'' \<in> set v then interpolate_some lookup (Suc depth) v else Inr v) of
                               Inl e \<Rightarrow> Inl e
                             | Inr x \<Rightarrow> map_sum id (append x) (interpolate_some lookup depth after))))
                else Inl InterpolationSyntaxError))"
  by pat_completeness auto
termination
  by (relation "measures [\<lambda>(_, depth, _). Suc max_interpolation_depth - depth, \<lambda>(_, _, rest). length rest]")
    (auto dest: reference_at_shorter)

declare interpolate_some.simps [simp del]

section \<open>The configuration\<close>

text \<open>The main section with the defaults, in order; option names are normalized by \<open>lower\<close>.\<close>

record env_config =
  ec_lower :: "string \<Rightarrow> string"
  ec_options :: "(string \<times> string) list"

definition set_main_option :: "string \<Rightarrow> string \<Rightarrow> env_config \<Rightarrow> env_error + env_config" where
  "set_main_option name v c =
     bindR (if v = [] then Inr v else before_set v) (\<lambda>v.
     Inr (c\<lparr>ec_options := AList.update (ec_lower c name) v (ec_options c)\<rparr>))"

definition option_value :: "env_config \<Rightarrow> string \<Rightarrow> env_error + string" where
  "option_value c v = interpolate_some (\<lambda>var. map_of (ec_options c) (ec_lower c var)) 1 v"

definition get_main_option :: "string \<Rightarrow> env_config \<Rightarrow> env_error + string option" where
  "get_main_option name c =
     (case map_of (ec_options c) (ec_lower c name) of
        None \<Rightarrow> Inr None
      | Some v \<Rightarrow> map_sum id Some (option_value c v))"

definition get_section :: "env_config \<Rightarrow> env_error + (string \<times> string) list" where
  "get_section c = foldR (\<lambda>kv done. map_sum id (\<lambda>x. done @ [(fst kv, x)]) (option_value c (snd kv))) (ec_options c) []"

section \<open>Running the migrations\<close>

definition url_option :: string where
  "url_option = ''sqlalchemy.url''"

datatype env_effect =
    Configure_url string
  | Configure_connection
  | Connect string
  | Begin_transaction
  | Run_migrations
  | Commit
  | Rollback
  | Disconnect

record env_world =
  ew_tables :: db_schema
  ew_trace :: "env_effect list"

text \<open>
  The driver and the tool: what connecting to a URL raises, what a run makes of the tables (or the error
  that stops it, with the tables it leaves), and whether writing the offline script fails.
\<close>

record env_tool =
  et_offline :: bool
  et_connect :: "string \<Rightarrow> exc option"
  et_migrate :: "db_schema \<Rightarrow> env_error option \<times> db_schema"
  et_script :: "env_error option"

definition note_effect :: "env_effect \<Rightarrow> env_world \<Rightarrow> env_world" where
  "note_effect x w = w\<lparr>ew_trace := ew_trace w @ [x]\<rparr>"

text \<open>\<open>with context.begin_transaction(): context.run_migrations()\<close>: committed, or undone by the error.\<close>

definition transaction ::
  "(db_schema \<Rightarrow> env_error option \<times> db_schema) \<Rightarrow> env_world \<Rightarrow> (env_error + unit) \<times> env_world" where
  "transaction run w =
     (let w1 = note_effect Run_migrations (note_effect Begin_transaction w) in
      case run (ew_tables w) of
        (None, s) \<Rightarrow> (Inr (), note_effect Commit (w1\<lparr>ew_tables := s\<rparr>))
      | (Some e, _) \<Rightarrow> (Inl e, note_effect Rollback w1))"

definition run_migrations_offline :: "env_tool \<Rightarrow> env_config \<Rightarrow> env_world \<Rightarrow> (env_error + unit) \<times> env_world" where
  "run_migrations_offline tool c w =
     (case get_main_option url_option c of
        Inl e \<Rightarrow> (Inl e, w)
      | Inr None \<Rightarrow> (Inl (Missing_option url_option), w)
      | Inr (Some url) \<Rightarrow> transaction (\<lambda>s. (et_script tool, s)) (note_effect (Configure_url url) w))"

text \<open>The engine takes the option with the prefix; the connection is closed whatever happens in the block.\<close>

definition run_migrations_online :: "env_tool \<Rightarrow> env_config \<Rightarrow> env_world \<Rightarrow> (env_error + unit) \<times> env_world" where
  "run_migrations_online tool c w =
     (case get_section c of
        Inl e \<Rightarrow> (Inl e, w)
      | Inr configuration \<Rightarrow>
          (case map_of configuration url_option of
             None \<Rightarrow> (Inl (Missing_option url_option), w)
           | Some url \<Rightarrow>
               (case et_connect tool url of
                  Some e \<Rightarrow> (Inl (Database_failed e), note_effect (Connect url) w)
                | None \<Rightarrow>
                    (case transaction (et_migrate tool) (note_effect Configure_connection (note_effect (Connect url) w)) of
                       (r, w1) \<Rightarrow> (r, note_effect Disconnect w1)))))"

definition migration_script ::
  "coercions \<Rightarrow> (string \<Rightarrow> pyval option) \<Rightarrow> env_tool \<Rightarrow> env_config \<Rightarrow> env_world \<Rightarrow> (env_error + unit) \<times> env_world" where
  "migration_script co raw tool c w =
     (case make_settings co raw of
        Inl e \<Rightarrow> (Inl (Settings_rejected e), w)
      | Inr s \<Rightarrow>
          (case set_main_option url_option (escape_percent (database_url s)) c of
             Inl e \<Rightarrow> (Inl e, w)
           | Inr c1 \<Rightarrow>
               if et_offline tool then run_migrations_offline tool c1 w else run_migrations_online tool c1 w))"

text \<open>The six migrations of the repository as the run of the tool.\<close>

definition upgrade_run :: "db_schema \<Rightarrow> env_error option \<times> db_schema" where
  "upgrade_run s = (case upgrades upgrade_order s of None \<Rightarrow> (Some Migration_failed, s) | Some s1 \<Rightarrow> (None, s1))"

section \<open>The URL survives\<close>

lemma escape_percent_simps [simp]:
  "escape_percent [] = []"
  "escape_percent (c # s) = (if c = CHR ''%'' then CHR ''%'' # CHR ''%'' # escape_percent s else c # escape_percent s)"
  by (simp_all add: escape_percent_def)

lemma without_escapes_skip: "c \<noteq> CHR ''%'' \<Longrightarrow> without_escapes (c # s) = c # without_escapes s"
  by (cases s) simp_all

lemma without_escapes_escape: "without_escapes (escape_percent s) = filter (\<lambda>c. c \<noteq> CHR ''%'') s"
  by (induction s) (simp_all add: without_escapes_skip)

lemma without_references_subset: "set (without_references s) \<subseteq> set s"
proof (induction s rule: without_references.induct)
  case (1 s)
  show ?case
  proof (cases s)
    case Nil
    then show ?thesis by (simp add: without_references.simps)
  next
    case (Cons c cs)
    show ?thesis
    proof (cases "reference_at s")
      case None
      then show ?thesis using 1(1) [OF Cons None] by (subst without_references.simps) (auto simp: Cons)
    next
      case (Some x)
      obtain name rest where x: "x = (name, rest)" by (cases x)
      have "set rest \<subseteq> set s"
        using Some unfolding x
        by (auto simp: reference_at_def Let_def split: list.split_asm if_split_asm)
          (metis in_set_dropD set_dropWhileD list.set_intros)
      then show ?thesis using 1(2) [OF Cons Some x [symmetric]] by (subst without_references.simps) (auto simp: Cons Some [unfolded Cons] x)
    qed
  qed
qed

lemma escaped_accepted: "before_set (escape_percent s) = Inr (escape_percent s)"
  using without_references_subset [of "filter (\<lambda>c. c \<noteq> CHR ''%'') s"]
  by (auto simp: before_set_def without_escapes_escape)

lemma interpolate_escaped:
  "depth \<le> max_interpolation_depth \<Longrightarrow> interpolate_some lookup depth (escape_percent s) = Inr s"
  by (induction s) (simp_all add: interpolate_some.simps)

lemma interpolate_plain:
  "depth \<le> max_interpolation_depth \<Longrightarrow> CHR ''%'' \<notin> set s \<Longrightarrow> interpolate_some lookup depth s = Inr s"
  by (induction s) (auto simp: interpolate_some.simps)

lemma set_update_subset: "set (AList.update k v kvs) \<subseteq> insert (k, v) (set kvs)"
  by (induction kvs) auto

definition plain_options :: "env_config \<Rightarrow> bool" where
  "plain_options c \<longleftrightarrow> (\<forall>kv \<in> set (ec_options c). CHR ''%'' \<notin> set (snd kv))"

definition with_url :: "string \<Rightarrow> env_config \<Rightarrow> env_config" where
  "with_url url c = c\<lparr>ec_options := AList.update url_option (escape_percent url) (ec_options c)\<rparr>"

lemma set_url:
  "ec_lower c url_option = url_option \<Longrightarrow>
     set_main_option url_option (escape_percent url) c = Inr (with_url url c)"
  by (simp add: set_main_option_def escaped_accepted with_url_def)

lemma option_value_escaped: "option_value c (escape_percent url) = Inr url"
  by (simp add: option_value_def interpolate_escaped max_interpolation_depth_def)

lemma option_value_plain: "CHR ''%'' \<notin> set v \<Longrightarrow> option_value c v = Inr v"
  by (simp add: option_value_def interpolate_plain max_interpolation_depth_def)

lemma with_url_option: "map_of (ec_options (with_url url c)) url_option = Some (escape_percent url)"
  by (simp add: with_url_def update_Some_unfold update_conv)

lemma get_url:
  "ec_lower c url_option = url_option \<Longrightarrow> get_main_option url_option (with_url url c) = Inr (Some url)"
  using with_url_option [of url c]
  by (simp add: get_main_option_def option_value_escaped) (simp add: with_url_def option_value_escaped)

lemma get_section_values:
  "(\<And>kv. kv \<in> set kvs \<Longrightarrow> option_value c (snd kv) = Inr (f (snd kv))) \<Longrightarrow>
   foldR (\<lambda>kv done. map_sum id (\<lambda>x. done @ [(fst kv, x)]) (option_value c (snd kv))) kvs done =
     Inr (done @ map (\<lambda>(k, v). (k, f v)) kvs)"
  by (induction kvs arbitrary: "done") auto

lemma get_section_url:
  assumes "plain_options c"
  shows "\<exists>configuration. get_section (with_url url c) = Inr configuration \<and> map_of configuration url_option = Some url"
proof -
  let ?c = "with_url url c"
  define f where "f v = projr (option_value ?c v)" for v
  have "option_value ?c (snd kv) = Inr (f (snd kv))" if "kv \<in> set (ec_options ?c)" for kv
  proof -
    have "kv = (url_option, escape_percent url) \<or> kv \<in> set (ec_options c)"
      using that set_update_subset [of url_option "escape_percent url" "ec_options c"] by (auto simp: with_url_def)
    then show ?thesis
      using assms by (auto simp: f_def plain_options_def option_value_escaped option_value_plain)
  qed
  from get_section_values [of "ec_options ?c" ?c f "[]", OF this]
  have "get_section ?c = Inr (map (\<lambda>(k, v). (k, f v)) (ec_options ?c))" by (simp add: get_section_def)
  moreover have "map_of (map (\<lambda>(k, v). (k, f v)) (ec_options ?c)) url_option = Some url"
    by (simp add: map_of_map with_url_option f_def option_value_escaped)
  ultimately show ?thesis by blast
qed

text \<open>
  C24: The migrations reach the database of the settings. Whatever characters its URL has, percent signs
  included, storing it never fails and reading it back through the interpolation gives it unchanged.
  Offline the script is written for that URL and no table changes; online the tool connects to exactly
  that URL, changes the tables in one transaction, all or nothing, and disconnects. On an empty database
  a run of the repository's migrations ends in the tables of the models.
\<close>

theorem migrations_reach_settings_url:
  assumes "make_settings co raw = Inr s" and "ec_lower c url_option = url_option" and "plain_options c"
    and "migration_script co raw tool c w = (r, w1)"
  shows "(\<exists>c1. set_main_option url_option (escape_percent (database_url s)) c = Inr c1 \<and>
      get_main_option url_option c1 = Inr (Some (database_url s))) \<and>
    (if et_offline tool then ew_tables w1 = ew_tables w \<and>
       ew_trace w1 = ew_trace w @ [Configure_url (database_url s), Begin_transaction, Run_migrations,
         if r = Inr () then Commit else Rollback]
     else if et_connect tool (database_url s) \<noteq> None then
       r \<noteq> Inr () \<and> ew_tables w1 = ew_tables w \<and> ew_trace w1 = ew_trace w @ [Connect (database_url s)]
     else
       ew_tables w1 = (if r = Inr () then snd (et_migrate tool (ew_tables w)) else ew_tables w) \<and>
       ew_trace w1 = ew_trace w @ [Connect (database_url s), Configure_connection, Begin_transaction, Run_migrations,
         if r = Inr () then Commit else Rollback, Disconnect] \<and>
       (et_migrate tool = upgrade_run \<and> ew_tables w = [] \<longrightarrow> r = Inr () \<and> same_schema (ew_tables w1) model_tables))"
proof -
  obtain configuration where section_url: "get_section (with_url (database_url s) c) = Inr configuration"
      "map_of configuration url_option = Some (database_url s)"
    using get_section_url [OF assms(3)] by blast
  note stored = set_url [OF assms(2)] get_url [OF assms(2)]
  obtain t where t: "upgrades upgrade_order [] = Some t" "same_schema t model_tables"
    using upgrade_from_empty by blast
  note run = assms(4) [unfolded migration_script_def assms(1), simplified, unfolded stored, simplified]
  show ?thesis
  proof (cases "et_offline tool")
    case True
    with run show ?thesis
      by (auto simp: stored run_migrations_offline_def transaction_def note_effect_def Let_def split: option.split_asm)
  next
    case False
    show ?thesis
    proof (cases "et_connect tool (database_url s)")
      case (Some e)
      with run False show ?thesis
        by (auto simp: stored run_migrations_online_def section_url note_effect_def)
    next
      case None
      obtain failure s1 where m: "et_migrate tool (ew_tables w) = (failure, s1)" by fastforce
      have built: "failure = None \<and> s1 = t" if "et_migrate tool = upgrade_run" and "ew_tables w = []"
        using m that by (simp add: upgrade_run_def t(1))
      from run False None built t(2) show ?thesis
        by (cases failure)
          (auto simp: stored run_migrations_online_def section_url note_effect_def transaction_def m Let_def)
    qed
  qed
qed

end
