(* ===== verification/Application_Witnesses.thy ===== *)
theory Application_Witnesses
  imports Api_Witnesses Process_Witnesses Application_Requests Migration_Env
begin

text \<open>
  The properties of the application and of the migration script at concrete requests, on the worlds
  of \<open>Sample\<close>.
\<close>

definition sample_url :: "string \<Rightarrow> string option" where
  "sample_url s = (if ascii (codes s) then Some s else None)"

lemma sample_normalizing: "normalizing sample_url"
  by (auto simp: normalizing_def normal_url_def sample_url_def split: if_splits)

definition sample_framework :: framework where
  "sample_framework =
     \<lparr>fw_uuid = (\<lambda>s. if s = ''2'' then Some 2 else if s = ''new'' then Some 100 else None),
      fw_trim = id, fw_http_url = sample_url, fw_coercions = plain_coercions\<rparr>"

definition sample_application :: "world \<Rightarrow> application" where
  "sample_application w =
     \<lparr>ap_world = w, ap_http_client = None, ap_open_clients = [], ap_clients = 0, ap_settings = None,
      ap_raw_settings = (\<lambda>name. None), ap_client_error = None\<rparr>"

definition sample_request :: "operation \<Rightarrow> string \<Rightarrow> http_request" where
  "sample_request operation i =
     \<lparr>rq_method = fst (operation_path operation i), rq_path = snd (operation_path operation i), rq_endpoint = None,
      rq_event = Some (1, ''order.paid'', []), rq_idempotency_key = Some ''new'', rq_status = None,
      rq_limit = Absent, rq_cursor = None\<rparr>"

lemma sample_sel [simp]:
  "ap_world (sample_application w) = w" "ap_http_client (sample_application w) = None"
  "ap_open_clients (sample_application w) = []" "ap_client_error (sample_application w) = None"
  "ap_clients (sample_application w) = 0"
  "rq_method (sample_request operation i) = fst (operation_path operation i)"
  "rq_path (sample_request operation i) = snd (operation_path operation i)"
  "rq_cursor (sample_request operation i) = None"
  by (simp_all add: sample_application_def sample_request_def)

abbreviation sample_created :: "(nat \<times> body) \<times> application" where
  "sample_created \<equiv> handle sample_framework (sample_request Create_event '''') (sample_application pending_world)"

section \<open>Requests\<close>

lemma sample_conforming: "conforming sample_url (sample_db [sample_job ''pending'' (Some 10)])"
proof -
  have "endpoint_url sample_url ''http://a/hook'' = Some ''http://a/hook''" by code_simp
  then show ?thesis
    using sample_schema_ok(1) by (simp add: conforming_def sample_db_def sample_endpoint_def sample_event_def)
qed

theorem requests_keep_conforming_witness:
  "keeps (\<lambda>d d1. True) (conforming sample_url) (get_session (replay_webhook_event_route 2))"
  using requests_keep_conforming [OF sample_normalizing] by blast

lemma sample_request_served:
  "dispatch create_app False (rq_method (sample_request operation ''2'')) (rq_path (sample_request operation ''2'')) =
     Serve operation (if has_event_id operation then [''2''] else [])"
  using dispatch_operation [of "''2''" operation] by simp


theorem accepted_event_followed_witness:
  "\<exists>j \<in> set (jobs (w_committed (ap_world (snd sample_created)))). job_event_id j = 100 \<and>
     fst (handle sample_framework (sample_request Get_job ''new'') (snd sample_created)) = (200, Job_body (job_answer j))"
proof -
  let ?v = "\<lparr>xv_id = 100, xv_endpoint_id = 1, xv_event_type = ''order.paid'', xv_payload = [],
      xv_created_at = 63000000000000000\<rparr>"
  and ?d = "w_committed (ap_world (snd sample_created))"
  have created: "fst sample_created = (201, Event_body ?v)" by code_simp
  have quiet: "w_script (ap_world (snd sample_created)) = []" by code_simp
  have "schema_ok ?d" "map ev_payload (events ?d) = [JObj [], JObj []]"
    "list_all (\<lambda>r. endpoint_url sample_url (ep_target_url r) = Some (ep_target_url r)) (endpoints ?d)"
    by code_simp+
  moreover have "\<exists>kvs. ev_payload r = JObj kvs" if "r \<in> set (events ?d)" for r
  proof -
    have "ev_payload r \<in> set (map ev_payload (events ?d))" using that by simp
    then show ?thesis unfolding calculation(2) by simp
  qed
  ultimately have "conforming sample_url ?d" by (auto simp: conforming_def list_all_iff)
  moreover have "fw_http_url sample_framework = sample_url" "fw_uuid sample_framework ''new'' = Some (xv_id ?v)"
    by (simp_all add: sample_framework_def)
  moreover have "growing (ap_world (sample_application pending_world))"
    using sample_growing [OF sample_schema_ok(1)] by simp
  moreover have "handle sample_framework (sample_request Create_event '''') (sample_application pending_world) =
      ((201, Event_body ?v), snd sample_created)"
    using created by (metis prod.collapse)
  ultimately show ?thesis
    using accepted_event_followed [of "sample_application pending_world" "sample_request Create_event ''''" sample_framework ?v
        "snd sample_created" "snd sample_created" "sample_request Get_job ''new''" "''new''"] quiet
    by simp
qed

theorem lifespan_owns_client_witness:
  "fst (lifespan (running sample_framework [sample_request Health '''']) (sample_application pending_world)) =
     Inr [(200, Health_body ''ok'')] \<and>
   ap_open_clients (snd (lifespan (running sample_framework [sample_request Health '''']) (sample_application pending_world))) = []"
proof -
  let ?a = "sample_application pending_world" and ?rqs = "[sample_request Health '''']"
  have "fst (serve_requests sample_framework ?rqs (started ?a)) = [(200, Health_body ''ok'')]" by code_simp
  then show ?thesis
    using lifespan_owns_client [of ?a "serve_requests sample_framework ?rqs (started ?a)" sample_framework ?rqs False undefined
        "fst (lifespan (running sample_framework ?rqs) ?a)" "snd (lifespan (running sample_framework ?rqs) ?a)"]
    by simp
qed

section \<open>Migrations\<close>

definition percent_url :: "string \<Rightarrow> pyval option" where
  "percent_url name = (if name = ''database_url'' then Some (VStr ''postgresql://a:p%40%(x)s@db/h'') else None)"

definition sample_env_config :: env_config where
  "sample_env_config = \<lparr>ec_lower = id, ec_options = [(''here'', ''/srv''), (''sqlalchemy.url'', [])]\<rparr>"

definition sample_tool :: env_tool where
  "sample_tool = \<lparr>et_offline = False, et_connect = (\<lambda>u. None), et_migrate = upgrade_run, et_script = None\<rparr>"

theorem migrations_reach_settings_url_witness:
  "ew_trace (snd (migration_script plain_coercions percent_url sample_tool sample_env_config \<lparr>ew_tables = [], ew_trace = []\<rparr>)) =
     [Connect ''postgresql://a:p%40%(x)s@db/h'', Configure_connection, Begin_transaction, Run_migrations, Commit, Disconnect]"
proof -
  let ?w = "\<lparr>ew_tables = [], ew_trace = []\<rparr>"
  let ?r = "migration_script plain_coercions percent_url sample_tool sample_env_config ?w"
  have "map_sum id database_url (make_settings plain_coercions percent_url) = Inr ''postgresql://a:p%40%(x)s@db/h''"
    by code_simp
  then obtain s where s: "make_settings plain_coercions percent_url = Inr s" "database_url s = ''postgresql://a:p%40%(x)s@db/h''"
    by (cases "make_settings plain_coercions percent_url") auto
  have c: "ec_lower sample_env_config url_option = url_option" "plain_options sample_env_config"
    by (simp_all add: sample_env_config_def plain_options_def)
  have t: "\<not> et_offline sample_tool" "et_connect sample_tool u = None" "et_migrate sample_tool = upgrade_run" for u
    by (simp_all add: sample_tool_def)
  show ?thesis
    using migrations_reach_settings_url [OF s(1) c, of sample_tool ?w "fst ?r" "snd ?r"] t by (simp add: s(2))
qed

end
