(* ===== verification/Py_Regex.thy ===== *)
theory Py_Regex
  imports Py_Iso
begin

text \<open>
  The regular expressions of the standard library, as far as the Markdown validator uses them. A
  backtracking match is the list of its outcomes in the order the engine tries them: \<open>re.match\<close> takes
  the first one, a sequence continues every outcome of its first part, a greedy repetition lists the
  longest one first and a lazy one the shortest. Repetitions are of character classes only. A scan
  takes the matches of a text from left to right, without overlaps.
\<close>

section \<open>Patterns and their outcomes\<close>

datatype regex =
    Greedy "nat \<Rightarrow> bool" nat "nat option"
  | Lazy "nat \<Rightarrow> bool" nat
  | Then regex regex
  | Either regex regex
  | Optional regex
  | Group nat regex
  | Line_start
  | Line_end
  | Not_after "nat \<Rightarrow> bool"

abbreviation one_of :: "(nat \<Rightarrow> bool) \<Rightarrow> regex" where
  "one_of c \<equiv> Greedy c 1 (Some 1)"

abbreviation the_char :: "nat \<Rightarrow> regex" where
  "the_char x \<equiv> one_of (\<lambda>c. c = x)"

text \<open>The text already passed (last character first), the text ahead, and the groups.\<close>

type_synonym position = "unicode \<times> unicode \<times> (nat \<times> unicode) list"

definition advance :: "nat \<Rightarrow> position \<Rightarrow> position" where
  "advance k m = (case m of (passed, ahead, g) \<Rightarrow> (rev (take k ahead) @ passed, drop k ahead, g))"

definition run_length :: "(nat \<Rightarrow> bool) \<Rightarrow> nat option \<Rightarrow> unicode \<Rightarrow> nat" where
  "run_length c hi ahead =
     (let n = length (takeWhile c ahead) in case hi of None \<Rightarrow> n | Some h \<Rightarrow> min h n)"

definition capture :: "nat \<Rightarrow> unicode \<Rightarrow> position \<Rightarrow> position" where
  "capture i from_here m =
     (case m of (passed, ahead, g) \<Rightarrow>
        (passed, ahead, (i, take (length from_here - length ahead) from_here) # g))"

fun outcomes :: "regex \<Rightarrow> position \<Rightarrow> position list" where
  "outcomes (Greedy c lo hi) m = map (\<lambda>k. advance k m) (rev [lo..<Suc (run_length c hi (fst (snd m)))])"
| "outcomes (Lazy c lo) m = map (\<lambda>k. advance k m) [lo..<Suc (run_length c None (fst (snd m)))]"
| "outcomes (Then r s) m = concat (map (outcomes s) (outcomes r m))"
| "outcomes (Either r s) m = outcomes r m @ outcomes s m"
| "outcomes (Optional r) m = outcomes r m @ [m]"
| "outcomes (Group i r) m = map (capture i (fst (snd m))) (outcomes r m)"
| "outcomes Line_start m = (if fst m = [] then [m] else [])"
| "outcomes Line_end m = (if fst (snd m) = [] \<or> fst (snd m) = [10] then [m] else [])"
| "outcomes (Not_after c) m = (if fst m \<noteq> [] \<and> c (hd (fst m)) then [] else [m])"

definition first_outcome :: "regex \<Rightarrow> position \<Rightarrow> position option" where
  "first_outcome r m = (case outcomes r m of [] \<Rightarrow> None | m' # _ \<Rightarrow> Some m')"

text \<open>\<open>pattern.match(s)\<close>: the groups of the first match at the start.\<close>

definition re_match :: "regex \<Rightarrow> unicode \<Rightarrow> (nat \<times> unicode) list option" where
  "re_match r s = map_option (snd \<circ> snd) (first_outcome r ([], s, []))"

definition match_group :: "nat \<Rightarrow> (nat \<times> unicode) list \<Rightarrow> unicode" where
  "match_group i g = (case map_of g i of None \<Rightarrow> [] | Some s \<Rightarrow> s)"

section \<open>Scans\<close>

text \<open>
  The text cut into matches and the characters between them. A match that takes no character counts
  as none: the patterns scanned for take at least one.
\<close>

function scan_from :: "regex \<Rightarrow> unicode \<Rightarrow> unicode \<Rightarrow> (nat + (nat \<times> unicode) list) list" where
  "scan_from r passed [] = []"
| "scan_from r passed (c # cs) =
     (case first_outcome r (passed, c # cs, []) of
        Some (passed', ahead', g) \<Rightarrow>
          if length ahead' < length (c # cs) then Inr g # scan_from r passed' ahead'
          else Inl c # scan_from r (c # passed) cs
      | None \<Rightarrow> Inl c # scan_from r (c # passed) cs)"
  by pat_completeness auto

termination
  by (relation "measure (\<lambda>(r, passed, ahead). length ahead)") auto

definition finditer :: "regex \<Rightarrow> unicode \<Rightarrow> (nat \<times> unicode) list list" where
  "finditer r s = concat (map (case_sum (\<lambda>_. []) (\<lambda>g. [g])) (scan_from r [] s))"

definition re_sub :: "regex \<Rightarrow> ((nat \<times> unicode) list \<Rightarrow> unicode) \<Rightarrow> unicode \<Rightarrow> unicode" where
  "re_sub r new s = concat (map (case_sum (\<lambda>c. [c]) new) (scan_from r [] s))"

section \<open>What outcomes look like\<close>

text \<open>An outcome moves forward in the same text.\<close>

definition same_text :: "position \<Rightarrow> position \<Rightarrow> bool" where
  "same_text m m' \<longleftrightarrow>
     (\<exists>w. fst (snd m) = w @ fst (snd m') \<and> fst m' = rev w @ fst m)"

lemma same_text_refl [simp]: "same_text m m"
  by (simp add: same_text_def)

lemma same_text_trans: "same_text a b \<Longrightarrow> same_text b c \<Longrightarrow> same_text a c"
  by (fastforce simp: same_text_def)

lemma same_text_advance [simp]: "same_text m (advance k m)"
  by (cases m) (auto simp: same_text_def advance_def intro!: exI [of _ "take k (fst (snd m))"])

lemma same_text_capture [simp]: "same_text m (capture i s m') = same_text m m'"
  by (cases m') (simp add: same_text_def capture_def)

lemma outcomes_same_text: "m' \<in> set (outcomes r m) \<Longrightarrow> same_text m m'"
proof (induction r arbitrary: m m')
  case (Then r s)
  from Then.prems obtain m1 where m1: "m1 \<in> set (outcomes r m)" "m' \<in> set (outcomes s m1)" by auto
  from Then.IH(1) [OF m1(1)] Then.IH(2) [OF m1(2)] show ?case by (rule same_text_trans)
qed (auto split: if_splits)

text \<open>The least number of characters a pattern takes.\<close>

fun least_taken :: "regex \<Rightarrow> nat" where
  "least_taken (Greedy c lo hi) = lo"
| "least_taken (Lazy c lo) = lo"
| "least_taken (Then r s) = least_taken r + least_taken s"
| "least_taken (Either r s) = min (least_taken r) (least_taken s)"
| "least_taken (Group i r) = least_taken r"
| "least_taken _ = 0"

lemma run_length_le: "run_length c hi s \<le> length s"
  using length_takeWhile_le [of c s] by (auto simp: run_length_def Let_def split: option.splits)

lemma outcomes_taken:
  "m' \<in> set (outcomes r m) \<Longrightarrow> length (fst (snd m')) + least_taken r \<le> length (fst (snd m))"
proof (induction r arbitrary: m m')
  case (Greedy c lo hi)
  then show ?case
    using run_length_le [of c hi "fst (snd m)"] by (cases m) (auto simp: advance_def)
next
  case (Lazy c lo)
  then show ?case
    using run_length_le [of c None "fst (snd m)"] by (cases m) (auto simp: advance_def)
next
  case (Then r s)
  from Then.prems obtain m1 where m1: "m1 \<in> set (outcomes r m)" "m' \<in> set (outcomes s m1)" by auto
  from Then.IH(1) [OF m1(1)] Then.IH(2) [OF m1(2)] show ?case by simp
next
  case (Either r s)
  from Either.prems have "m' \<in> set (outcomes r m) \<or> m' \<in> set (outcomes s m)" by simp
  then have "length (fst (snd m')) + least_taken r \<le> length (fst (snd m)) \<or>
      length (fst (snd m')) + least_taken s \<le> length (fst (snd m))"
    using Either.IH(1) [of m' m] Either.IH(2) [of m' m] by argo
  then show ?case by (simp add: min_def) linarith
next
  case (Optional r)
  from Optional.prems have "m' \<in> set (outcomes r m) \<or> m' = m" by auto
  then show ?case using Optional.IH [of m' m] by (elim disjE) simp_all
next
  case (Group i r)
  from Group.prems obtain m1 where m1: "m1 \<in> set (outcomes r m)" "m' = capture i (fst (snd m)) m1" by auto
  have "fst (snd m') = fst (snd m1)" by (cases m1) (simp add: m1(2) capture_def)
  then show ?case using Group.IH [OF m1(1)] by simp
qed (simp_all split: if_split_asm)

section \<open>First outcomes\<close>

text \<open>The first success of a function over a list; the first outcome of a sequence is one.\<close>

fun first_some :: "('a \<Rightarrow> 'b option) \<Rightarrow> 'a list \<Rightarrow> 'b option" where
  "first_some f [] = None"
| "first_some f (x # xs) = (case f x of None \<Rightarrow> first_some f xs | Some y \<Rightarrow> Some y)"

lemma first_some_append: "first_some f (xs @ ys) = (case first_some f xs of None \<Rightarrow> first_some f ys | r \<Rightarrow> r)"
  by (induction xs) (auto split: option.splits)

lemma first_some_None: "first_some f xs = None \<longleftrightarrow> (\<forall>x \<in> set xs. f x = None)"
  by (induction xs) (auto split: option.splits)

lemma first_some_map [simp]: "first_some f (map g xs) = first_some (f \<circ> g) xs"
  by (induction xs) (auto split: option.splits)

lemma first_some_cong: "(\<And>x. x \<in> set xs \<Longrightarrow> f x = g x) \<Longrightarrow> first_some f xs = first_some g xs"
  by (induction xs) (auto split: option.splits)

lemma first_of_concat:
  "(case concat (map f xs) of [] \<Rightarrow> None | y # _ \<Rightarrow> Some y) =
     first_some (\<lambda>x. case f x of [] \<Rightarrow> None | y # _ \<Rightarrow> Some y) xs"
proof (induction xs)
  case (Cons x xs)
  then show ?case by (cases "f x") simp_all
qed simp

lemma first_outcome_Then: "first_outcome (Then r s) m = first_some (first_outcome s) (outcomes r m)"
  unfolding first_outcome_def [abs_def] outcomes.simps by (rule first_of_concat)

lemma first_outcome_simps [simp]:
  "first_outcome Line_start m = (if fst m = [] then Some m else None)"
  "first_outcome Line_end m = (if fst (snd m) = [] \<or> fst (snd m) = [10] then Some m else None)"
  "first_outcome (Not_after c) m = (if fst m \<noteq> [] \<and> c (hd (fst m)) then None else Some m)"
  "first_outcome (Group i r) m = map_option (capture i (fst (snd m))) (first_outcome r m)"
  "first_outcome (Optional r) m = (case first_outcome r m of None \<Rightarrow> Some m | x \<Rightarrow> x)"
  "first_outcome (Either r s) m = (case first_outcome r m of None \<Rightarrow> first_outcome s m | x \<Rightarrow> x)"
  by (auto simp: first_outcome_def split: list.splits option.splits)

lemma first_outcome_Greedy:
  "first_outcome (Greedy c lo hi) m =
     (let n = run_length c hi (fst (snd m)) in if lo \<le> n then Some (advance n m) else None)"
  by (simp add: first_outcome_def Let_def)

text \<open>Evaluation stops at the first outcome of the whole pattern.\<close>

lemma first_outcome_code [code]:
  "first_outcome (Greedy c lo hi) m =
     (let n = run_length c hi (fst (snd m)) in if lo \<le> n then Some (advance n m) else None)"
  "first_outcome (Lazy c lo) m = (if lo \<le> run_length c None (fst (snd m)) then Some (advance lo m) else None)"
  "first_outcome (Then r s) m = first_some (first_outcome s) (outcomes r m)"
  "first_outcome (Either r s) m = (case first_outcome r m of None \<Rightarrow> first_outcome s m | Some x \<Rightarrow> Some x)"
  "first_outcome (Optional r) m = (case first_outcome r m of None \<Rightarrow> Some m | Some x \<Rightarrow> Some x)"
  "first_outcome (Group i r) m = map_option (capture i (fst (snd m))) (first_outcome r m)"
  "first_outcome Line_start m = (if fst m = [] then Some m else None)"
  "first_outcome Line_end m = (if fst (snd m) = [] \<or> fst (snd m) = [10] then Some m else None)"
  "first_outcome (Not_after c) m = (if fst m \<noteq> [] \<and> c (hd (fst m)) then None else Some m)"
proof -
  show "first_outcome (Lazy c lo) m = (if lo \<le> run_length c None (fst (snd m)) then Some (advance lo m) else None)"
    by (simp add: first_outcome_def upt_conv_Cons del: upt_Suc)
qed (rule first_outcome_Greedy first_outcome_Then first_outcome_simps)+

lemma one_of_outcomes [simp]:
  "outcomes (one_of c) (passed, [], g) = []"
  "outcomes (one_of c) (passed, x # xs, g) = (if c x then [(x # passed, xs, g)] else [])"
  by (simp_all add: run_length_def advance_def)

end
