(* ===== verification/Py_Strings.thy ===== *)
theory Py_Strings
  imports Py_Iso
begin

text \<open>
  Text functions of the standard library that the Markdown validator uses: white space, lines,
  \<open>urllib.parse.unquote\<close> and the first two components of \<open>urllib.parse.urlsplit\<close>, and POSIX paths as lists
  of parts whose first one is the root. The tables of the Unicode database and of the HTML entities are
  parameters.
\<close>

section \<open>Character tables\<close>

text \<open>
  \<open>html.unescape\<close>, \<open>str.lower\<close>, \<open>str.isalnum\<close> of a character, and whether \<open>urlsplit\<close> refuses a network
  location for its bracketed host or its normalization.
\<close>

record text_tables =
  tt_unescape :: "unicode \<Rightarrow> unicode"
  tt_lower :: "unicode \<Rightarrow> unicode"
  tt_isalnum :: "nat \<Rightarrow> bool"
  tt_bad_netloc :: "unicode \<Rightarrow> bool"

text \<open>\<open>str.isspace\<close>, which is also \<open>\s\<close> of the regular expressions.\<close>

definition white :: "nat \<Rightarrow> bool" where
  "white c \<longleftrightarrow> (9 \<le> c \<and> c \<le> 13) \<or> (28 \<le> c \<and> c \<le> 32) \<or> c = 133 \<or> c = 160 \<or> c = 5760 \<or>
     (8192 \<le> c \<and> c \<le> 8202) \<or> c = 8232 \<or> c = 8233 \<or> c = 8239 \<or> c = 8287 \<or> c = 12288"

section \<open>Lines\<close>

text \<open>Universal newlines of a file opened as text, and \<open>str.splitlines\<close> of the result.\<close>

fun translate_newlines :: "unicode \<Rightarrow> unicode" where
  "translate_newlines [] = []"
| "translate_newlines (c # cs) =
     (if c = 13 then 10 # (case cs of [] \<Rightarrow> [] | d # ds \<Rightarrow>
          if d = 10 then translate_newlines ds else translate_newlines (d # ds))
      else c # translate_newlines cs)"

definition line_break :: "nat \<Rightarrow> bool" where
  "line_break c \<longleftrightarrow> (10 \<le> c \<and> c \<le> 13) \<or> (28 \<le> c \<and> c \<le> 30) \<or> c = 133 \<or> c = 8232 \<or> c = 8233"

fun splitlines :: "unicode \<Rightarrow> unicode list" where
  "splitlines [] = []"
| "splitlines (c # cs) =
     (if line_break c then [] # splitlines (if c = 13 \<and> take 1 cs = [10] then tl cs else cs)
      else (case splitlines cs of [] \<Rightarrow> [[c]] | l # ls \<Rightarrow> (c # l) # ls))"

text \<open>A line holds no line break; in particular \<open>.\<close> matches every character of it.\<close>

lemma splitlines_no_break: "l \<in> set (splitlines s) \<Longrightarrow> c \<in> set l \<Longrightarrow> \<not> line_break c"
proof (induction s arbitrary: l c rule: splitlines.induct)
  case (2 x xs)
  let ?rest = "if x = 13 \<and> take 1 xs = [10] then tl xs else xs"
  show ?case
  proof (cases "line_break x")
    case True
    then have "l = [] \<or> l \<in> set (splitlines ?rest)" using "2.prems"(1) by auto
    then show ?thesis using "2.IH"(1) [OF True] "2.prems"(2) by auto
  next
    case False
    then have "splitlines (x # xs) = (case splitlines xs of [] \<Rightarrow> [[x]] | k # ks \<Rightarrow> (x # k) # ks)" by simp
    then show ?thesis
      using "2.IH"(2) [OF False] "2.prems" False by (cases "splitlines xs") (auto, blast)
  qed
qed simp

section \<open>Percent encoding\<close>

fun unquote_to_bytes :: "unicode \<Rightarrow> nat list" where
  "unquote_to_bytes (c # a # b # s) =
     (if c = 37 then
        (case (hex_value a, hex_value b) of
           (Some x, Some y) \<Rightarrow> (x * 16 + y) # unquote_to_bytes s
         | _ \<Rightarrow> c # unquote_to_bytes (a # b # s))
      else c # unquote_to_bytes (a # b # s))"
| "unquote_to_bytes s = s"

text \<open>\<open>bytes.decode("utf-8", "replace")\<close>: a malformed sequence is replaced up to its first wrong byte.\<close>

definition second_byte :: "nat \<Rightarrow> nat \<Rightarrow> bool" where
  "second_byte a b \<longleftrightarrow> continuation b \<and> (a = 224 \<longrightarrow> 160 \<le> b) \<and> (a = 237 \<longrightarrow> b < 160) \<and>
     (a = 240 \<longrightarrow> 144 \<le> b) \<and> (a = 244 \<longrightarrow> b < 144)"

fun utf8_replace :: "nat list \<Rightarrow> unicode" where
  "utf8_replace [] = []"
| "utf8_replace (a # bs) =
     (if a < 128 then a # utf8_replace bs
      else if 194 \<le> a \<and> a < 224 then
        (case bs of
           b # bs' \<Rightarrow>
             if second_byte a b then ((a - 192) * 64 + (b - 128)) # utf8_replace bs' else 65533 # utf8_replace bs
         | [] \<Rightarrow> [65533])
      else if 224 \<le> a \<and> a < 240 then
        (case bs of
           b # bs' \<Rightarrow>
             if second_byte a b then
               (case bs' of
                  c # bs'' \<Rightarrow>
                    if continuation c
                    then ((a - 224) * 4096 + (b - 128) * 64 + (c - 128)) # utf8_replace bs''
                    else 65533 # utf8_replace bs'
                | [] \<Rightarrow> [65533])
             else 65533 # utf8_replace bs
         | [] \<Rightarrow> [65533])
      else if 240 \<le> a \<and> a < 245 then
        (case bs of
           b # bs' \<Rightarrow>
             if second_byte a b then
               (case bs' of
                  c # bs'' \<Rightarrow>
                    if continuation c then
                      (case bs'' of
                         d # bs3 \<Rightarrow>
                           if continuation d
                           then ((a - 240) * 262144 + (b - 128) * 4096 + (c - 128) * 64 + (d - 128)) # utf8_replace bs3
                           else 65533 # utf8_replace bs''
                       | [] \<Rightarrow> [65533])
                    else 65533 # utf8_replace bs'
                | [] \<Rightarrow> [65533])
             else 65533 # utf8_replace bs
         | [] \<Rightarrow> [65533])
      else 65533 # utf8_replace bs)"

text \<open>\<open>unquote\<close> decodes each run of ASCII characters on its own and keeps the others.\<close>

function unquote :: "unicode \<Rightarrow> unicode" where
  "unquote [] = []"
| "unquote (c # cs) =
     (if c < 128
      then utf8_replace (unquote_to_bytes (takeWhile (\<lambda>x. x < 128) (c # cs))) @
             unquote (dropWhile (\<lambda>x. x < 128) cs)
      else c # unquote cs)"
  by pat_completeness auto

termination
  by (relation "measure length") (auto simp: length_dropWhile_le le_imp_less_Suc)

lemma unquote_to_bytes_plain: "37 \<notin> set s \<Longrightarrow> unquote_to_bytes s = s"
  by (induction s rule: unquote_to_bytes.induct) auto

lemma utf8_replace_ascii: "\<forall>b \<in> set s. b < 128 \<Longrightarrow> utf8_replace s = s"
  by (induction s) auto

text \<open>A text without a percent sign stays as it is.\<close>

lemma unquote_plain: "37 \<notin> set s \<Longrightarrow> unquote s = s"
proof (induction s rule: unquote.induct)
  case (2 c cs)
  let ?t = "takeWhile (\<lambda>x. x < 128) cs" and ?d = "dropWhile (\<lambda>x. x < 128) cs"
  show ?case
  proof (cases "c < 128")
    case True
    have t: "37 \<notin> set ?t" "37 \<notin> set ?d"
      using 2(3) by (auto dest: set_takeWhileD set_dropWhileD)
    have "unquote ?d = ?d" using True t(2) by (rule 2(1))
    moreover have "unquote_to_bytes (c # ?t) = c # ?t" using t(1) 2(3) by (intro unquote_to_bytes_plain) auto
    moreover have "utf8_replace (c # ?t) = c # ?t" using True by (intro utf8_replace_ascii) (auto dest: set_takeWhileD)
    ultimately show ?thesis using True by (simp del: utf8_replace.simps unquote_to_bytes.simps)
  next
    case False
    then show ?thesis using 2 by simp
  qed
qed simp

section \<open>URLs\<close>

definition url_letter :: "nat \<Rightarrow> bool" where
  "url_letter c \<longleftrightarrow> (65 \<le> c \<and> c \<le> 90) \<or> (97 \<le> c \<and> c \<le> 122)"

definition scheme_char :: "nat \<Rightarrow> bool" where
  "scheme_char c \<longleftrightarrow> url_letter c \<or> digit c \<or> c = 43 \<or> c = 45 \<or> c = 46"

text \<open>The scheme, without its case folding, and the rest of the URL.\<close>

definition url_scheme :: "unicode \<Rightarrow> unicode \<times> unicode" where
  "url_scheme url =
     (let name = takeWhile (\<lambda>c. c \<noteq> 58) url in
      if 58 \<in> set url \<and> name \<noteq> [] \<and> url_letter (hd name) \<and> (\<forall>c \<in> set name. scheme_char c)
      then (name, drop (length name + 1) url) else ([], url))"

text \<open>\<open>urlsplit(url)\<close>: scheme and network location, or the ValueError.\<close>

definition urlsplit :: "text_tables \<Rightarrow> unicode \<Rightarrow> exc + unicode \<times> unicode" where
  "urlsplit tt target =
     (let url = filter (\<lambda>c. c \<noteq> 9 \<and> c \<noteq> 10 \<and> c \<noteq> 13) (dropWhile (\<lambda>c. c \<le> 32) target);
          (scheme, rest) = url_scheme url in
      if take 2 rest = [47, 47] then
        (let netloc = takeWhile (\<lambda>c. c \<noteq> 47 \<and> c \<noteq> 63 \<and> c \<noteq> 35) (drop 2 rest) in
         if (91 \<in> set netloc) \<noteq> (93 \<in> set netloc) then Inl (ValueError ''Invalid IPv6 URL'')
         else if tt_bad_netloc tt netloc then Inl (ValueError ''netloc'')
         else Inr (scheme, netloc))
      else Inr (scheme, []))"

section \<open>Paths\<close>

type_synonym path = "unicode list"

text \<open>The parts of a path text: empty ones and single dots are dropped.\<close>

fun split_on :: "nat \<Rightarrow> unicode \<Rightarrow> unicode list" where
  "split_on x [] = [[]]"
| "split_on x (c # cs) =
     (if c = x then [] # split_on x cs else (c # hd (split_on x cs)) # tl (split_on x cs))"

definition path_parts :: "unicode \<Rightarrow> unicode list" where
  "path_parts s = filter (\<lambda>p. p \<noteq> [] \<and> p \<noteq> [46]) (split_on 47 s)"

text \<open>\<open>base / text\<close>: an absolute text replaces the base; exactly two leading slashes are a root of their own.\<close>

definition join_path :: "path \<Rightarrow> unicode \<Rightarrow> path" where
  "join_path base s =
     (if take 1 s = [47]
      then (if take 2 s = [47, 47] \<and> take 3 s \<noteq> [47, 47, 47] then [47, 47] else [47]) # path_parts s
      else base @ path_parts s)"

definition parent_path :: "path \<Rightarrow> path" where
  "parent_path p = (if length p \<le> 1 then p else butlast p)"

fun join_with :: "nat \<Rightarrow> unicode list \<Rightarrow> unicode" where
  "join_with x [] = []"
| "join_with x [p] = p"
| "join_with x (p # ps) = p @ x # join_with x ps"

definition as_posix :: "path \<Rightarrow> unicode" where
  "as_posix p =
     (case p of
        [] \<Rightarrow> [46]
      | r # ps \<Rightarrow> if r = [47] \<or> r = [47, 47] then r @ join_with 47 ps else join_with 47 p)"

definition relative_to :: "path \<Rightarrow> path \<Rightarrow> exc + path" where
  "relative_to p root =
     (if take (length root) p = root then Inr (drop (length root) p)
      else Inl (ValueError ''path is not in the subpath''))"

text \<open>The part of the name from its last dot on, unless the dot is the first or the last character.\<close>

definition path_suffix :: "path \<Rightarrow> unicode" where
  "path_suffix p =
     (case p of
        [] \<Rightarrow> []
      | _ \<Rightarrow>
        (let name = last p;
             ext = rev (takeWhile (\<lambda>c. c \<noteq> 46) (rev name)) in
         if 46 \<in> set name \<and> ext \<noteq> [] \<and> length ext + 1 < length name then 46 # ext else []))"

lemma relative_to_Inr: "relative_to p root = Inr r \<longleftrightarrow> p = root @ r"
  using append_eq_conv_conj [of root r p] by (simp add: relative_to_def) metis

lemma relative_to_append [simp]: "relative_to (root @ r) root = Inr r"
  by (simp add: relative_to_def)

end
