(* ===== verification/Markdown.thy ===== *)
theory Markdown
  imports Py_Regex Py_Strings "HOL-Library.List_Lexorder"
begin

text \<open>
  \<open>scripts/validate_markdown.py\<close>: the checker of the repository's documentation. It collects the
  headings and the lines outside code fences of every Markdown file and then follows every relative
  link of these lines to its file and its heading. The file system answers as it likes: listing,
  resolving, reading and probing a path are parameters.
\<close>

section \<open>Patterns\<close>

fun seq :: "regex list \<Rightarrow> regex" where
  "seq [] = Greedy (\<lambda>_. False) 0 None"
| "seq [r] = r"
| "seq (r # s # rs) = Then r (seq (s # rs))"

definition heading_pattern :: regex where
  "heading_pattern =
     seq [Line_start, Group 1 (Greedy (\<lambda>c. c = 35) 1 (Some 6)), Greedy white 1 None,
          Group 2 (Lazy (\<lambda>c. c \<noteq> 10) 1), Greedy white 0 None, Greedy (\<lambda>c. c = 35) 0 None,
          Greedy white 0 None, Line_end]"

definition link_title :: regex where
  "link_title =
     Either (seq [the_char 34, Greedy (\<lambda>c. c \<noteq> 34) 0 None, the_char 34])
       (Either (seq [the_char 39, Greedy (\<lambda>c. c \<noteq> 39) 0 None, the_char 39])
         (seq [the_char 40, Greedy (\<lambda>c. c \<noteq> 41) 0 None, the_char 41]))"

definition link_pattern :: regex where
  "link_pattern =
     seq [Not_after (\<lambda>c. c = 33), the_char 91, Greedy (\<lambda>c. c \<noteq> 93) 1 None, the_char 93, the_char 40,
          Group 1 (Greedy (\<lambda>c. c \<noteq> 41 \<and> \<not> white c) 1 None),
          Optional (Then (Greedy white 1 None) link_title), the_char 41]"

definition html_tag_pattern :: regex where
  "html_tag_pattern = seq [the_char 60, Greedy (\<lambda>c. c \<noteq> 62) 1 None, the_char 62]"

definition inline_link_pattern :: regex where
  "inline_link_pattern =
     seq [the_char 91, Group 1 (Greedy (\<lambda>c. c \<noteq> 93) 1 None), the_char 93, the_char 40,
          Greedy (\<lambda>c. c \<noteq> 41) 1 None, the_char 41]"

definition ignored_directories :: "unicode list" where
  "ignored_directories =
     [codes ''.git'', codes ''.mypy_cache'', codes ''.pytest_cache'', codes ''.ruff_cache'', codes ''.venv'',
      codes ''__pycache__'', codes ''build'', codes ''dist'']"

section \<open>Reports\<close>

record validation_error =
  ve_path :: path
  ve_line :: nat
  ve_kind :: string
  ve_message :: unicode

record validation_report =
  vr_markdown_files :: nat
  vr_headings :: nat
  vr_relative_links :: nat
  vr_anchor_links :: nat
  vr_missing_files :: nat
  vr_missing_anchors :: nat
  vr_duplicate_slugs :: nat
  vr_toc_errors :: nat
  vr_errors :: "validation_error list"

definition is_valid :: "validation_report \<Rightarrow> bool" where
  "is_valid report \<longleftrightarrow> vr_errors report = []"

record parsed_markdown =
  pm_headings :: "unicode set"
  pm_heading_count :: nat
  pm_duplicate_errors :: "validation_error list"
  pm_active_lines :: "(nat \<times> unicode) list"
  pm_toc_lines :: "nat set"

section \<open>Slugs\<close>

definition strip_white :: "unicode \<Rightarrow> unicode" where
  "strip_white = strip_while white"

definition github_slug :: "text_tables \<Rightarrow> unicode \<Rightarrow> unicode" where
  "github_slug tt heading =
     (let v1 = tt_unescape tt heading;
          v2 = re_sub inline_link_pattern (match_group 1) v1;
          v3 = re_sub html_tag_pattern (\<lambda>_. []) v2;
          v4 = filter (\<lambda>c. c \<noteq> 96 \<and> c \<noteq> 42 \<and> c \<noteq> 126) v3;
          characters = filter (\<lambda>c. tt_isalnum tt c \<or> c = 32 \<or> c = 9 \<or> c = 45 \<or> c = 95)
            (strip_white (tt_lower tt v4)) in
      re_sub (Greedy white 1 None) (\<lambda>_. [45]) characters)"

section \<open>Active lines\<close>

record file_system =
  fs_rglob_md :: "path \<Rightarrow> path list"
  fs_resolve :: "path \<Rightarrow> exc + path"
  fs_read_bytes :: "path \<Rightarrow> exc + nat list"
  fs_is_file :: "path \<Rightarrow> exc + bool"

definition read_text :: "file_system \<Rightarrow> path \<Rightarrow> exc + unicode" where
  "read_text fs p =
     bindR (fs_read_bytes fs p) (\<lambda>bytes. bindR (utf8_decode bytes) (\<lambda>s. Inr (translate_newlines s)))"

definition fence_markers :: "unicode list" where
  "fence_markers = [[96, 96, 96], [126, 126, 126]]"

definition line_marker :: "unicode \<Rightarrow> unicode" where
  "line_marker line = take 3 (dropWhile white line)"

fun active_from :: "nat \<Rightarrow> unicode option \<Rightarrow> unicode list \<Rightarrow> (nat \<times> unicode) list" where
  "active_from line_number fence_marker [] = []"
| "active_from line_number fence_marker (line # lines) =
     (let marker = line_marker line in
      if marker \<in> set fence_markers then
        active_from (Suc line_number)
          (if fence_marker = None then Some marker
           else if Some marker = fence_marker then None else fence_marker) lines
      else if fence_marker = None then (line_number, line) # active_from (Suc line_number) fence_marker lines
      else active_from (Suc line_number) fence_marker lines)"

definition active_lines :: "file_system \<Rightarrow> path \<Rightarrow> exc + (nat \<times> unicode) list" where
  "active_lines fs p = bindR (read_text fs p) (\<lambda>s. Inr (active_from 1 None (splitlines s)))"

section \<open>Headings of a file\<close>

record heading_scan =
  hs_headings :: "unicode set"
  hs_base_counts :: "unicode \<rightharpoonup> nat"
  hs_duplicate_errors :: "validation_error list"
  hs_toc_lines :: "nat set"
  hs_in_toc :: bool
  hs_heading_count :: nat

definition contents_titles :: "unicode list" where
  "contents_titles = [codes ''contents'', codes ''table of contents'']"

definition numbered_slug :: "unicode \<Rightarrow> nat \<Rightarrow> unicode" where
  "numbered_slug base_slug occurrence =
     (if occurrence = 0 then base_slug else base_slug @ [45] @ codes (show_nat occurrence))"

definition scan_heading ::
  "text_tables \<Rightarrow> path \<Rightarrow> path \<Rightarrow> nat \<Rightarrow> nat \<Rightarrow> unicode \<Rightarrow> heading_scan \<Rightarrow> exc + heading_scan" where
  "scan_heading tt p root line_number level title st =
     (let base_slug = github_slug tt title;
          occurrence = (case hs_base_counts st base_slug of None \<Rightarrow> 0 | Some n \<Rightarrow> n);
          st1 = st\<lparr>hs_base_counts := (hs_base_counts st)(base_slug \<mapsto> occurrence + 1),
                   hs_headings := insert (numbered_slug base_slug occurrence) (hs_headings st),
                   hs_heading_count := hs_heading_count st + 1\<rparr> in
      bindR (if occurrence \<noteq> 0
             then bindR (relative_to p root) (\<lambda>rel.
               Inr (st1\<lparr>hs_duplicate_errors := hs_duplicate_errors st1 @
                 [\<lparr>ve_path = rel, ve_line = line_number, ve_kind = ''duplicate-slug'',
                   ve_message = codes ''heading reuses base slug #'' @ base_slug\<rparr>]\<rparr>))
             else Inr st1) (\<lambda>st2.
      Inr (if level = 2
           then st2\<lparr>hs_in_toc := (tt_lower tt (strip_white title) \<in> set contents_titles)\<rparr> else st2)))"

definition scan_line ::
  "text_tables \<Rightarrow> path \<Rightarrow> path \<Rightarrow> nat \<times> unicode \<Rightarrow> heading_scan \<Rightarrow> exc + heading_scan" where
  "scan_line tt p root numbered st =
     (let (line_number, line) = numbered in
      case re_match heading_pattern line of
        Some m \<Rightarrow> scan_heading tt p root line_number (length (match_group 1 m)) (match_group 2 m) st
      | None \<Rightarrow>
          Inr (if hs_in_toc st then st\<lparr>hs_toc_lines := insert line_number (hs_toc_lines st)\<rparr> else st))"

definition no_headings :: heading_scan where
  "no_headings = \<lparr>hs_headings = {}, hs_base_counts = (\<lambda>_. None), hs_duplicate_errors = [], hs_toc_lines = {},
     hs_in_toc = False, hs_heading_count = 0\<rparr>"

definition parse_markdown :: "text_tables \<Rightarrow> file_system \<Rightarrow> path \<Rightarrow> path \<Rightarrow> exc + parsed_markdown" where
  "parse_markdown tt fs p root =
     bindR (active_lines fs p) (\<lambda>lines.
     bindR (foldR (scan_line tt p root) lines no_headings) (\<lambda>st.
     Inr \<lparr>pm_headings = hs_headings st, pm_heading_count = hs_heading_count st,
          pm_duplicate_errors = hs_duplicate_errors st, pm_active_lines = lines,
          pm_toc_lines = hs_toc_lines st\<rparr>))"

section \<open>Files\<close>

fun keep_unignored :: "path \<Rightarrow> path list \<Rightarrow> exc + path list" where
  "keep_unignored root [] = Inr []"
| "keep_unignored root (p # ps) =
     bindR (relative_to p root) (\<lambda>parts.
     bindR (keep_unignored root ps) (\<lambda>kept.
     Inr (if \<exists>part \<in> set parts. part \<in> set ignored_directories then kept else p # kept)))"

definition markdown_files :: "text_tables \<Rightarrow> file_system \<Rightarrow> path \<Rightarrow> exc + path list" where
  "markdown_files tt fs root =
     bindR (keep_unignored root (fs_rglob_md fs root)) (\<lambda>kept.
     Inr (sort_key (\<lambda>p. tt_lower tt (as_posix p)) kept))"

text \<open>A dict keeps the place of a key's first insertion and the value of its last one.\<close>

definition dict_set :: "'k \<Rightarrow> 'v \<Rightarrow> ('k \<times> 'v) list \<Rightarrow> ('k \<times> 'v) list" where
  "dict_set k v kvs =
     (if k \<in> fst ` set kvs then map (\<lambda>(k', v'). (k', if k' = k then v else v')) kvs else kvs @ [(k, v)])"

type_synonym documents = "(path \<times> parsed_markdown) list"

definition parse_file ::
  "text_tables \<Rightarrow> file_system \<Rightarrow> path \<Rightarrow> path \<Rightarrow> documents \<Rightarrow> exc + documents" where
  "parse_file tt fs root p docs =
     bindR (fs_resolve fs p) (\<lambda>resolved.
     bindR (parse_markdown tt fs p root) (\<lambda>parsed. Inr (dict_set resolved parsed docs)))"

section \<open>Links\<close>

definition is_external :: "text_tables \<Rightarrow> unicode \<Rightarrow> exc + bool" where
  "is_external tt target =
     bindR (urlsplit tt target) (\<lambda>(scheme, netloc). Inr (scheme \<noteq> [] \<or> netloc \<noteq> [] \<or> take 1 target = [47]))"

record link_counts =
  lc_relative_links :: nat
  lc_anchor_links :: nat
  lc_missing_files :: nat
  lc_missing_anchors :: nat
  lc_toc_errors :: nat
  lc_errors :: "validation_error list"

definition link_error :: "validation_error \<Rightarrow> bool \<Rightarrow> link_counts \<Rightarrow> link_counts" where
  "link_error e in_toc st =
     st\<lparr>lc_errors := lc_errors st @ [e], lc_toc_errors := lc_toc_errors st + (if in_toc then 1 else 0)\<rparr>"

definition check_link ::
  "text_tables \<Rightarrow> file_system \<Rightarrow> path \<Rightarrow> documents \<Rightarrow> path \<Rightarrow> parsed_markdown \<Rightarrow> nat \<Rightarrow> unicode \<Rightarrow>
     link_counts \<Rightarrow> exc + link_counts" where
  "check_link tt fs root docs source_path parsed line_number target st =
     bindR (is_external tt target) (\<lambda>external.
     if external then Inr st
     else
       (let path_text = takeWhile (\<lambda>c. c \<noteq> 35) target;
            separator = (35 \<in> set target);
            fragment = tt_lower tt (unquote (drop (length path_text + 1) target));
            st1 = st\<lparr>lc_relative_links := lc_relative_links st + 1,
                     lc_anchor_links := lc_anchor_links st + (if separator then 1 else 0)\<rparr>;
            in_toc = (line_number \<in> pm_toc_lines parsed) in
        bindR (if path_text = [] then Inr source_path
               else fs_resolve fs (join_path (parent_path source_path) (unquote path_text))) (\<lambda>target_path.
        bindR (relative_to source_path root) (\<lambda>relative_source.
        bindR (fs_is_file fs target_path) (\<lambda>is_file.
        if \<not> is_file then
          Inr (link_error
            \<lparr>ve_path = relative_source, ve_line = line_number, ve_kind = ''missing-file'',
             ve_message = codes ''linked file does not exist: '' @ target\<rparr> in_toc
            (st1\<lparr>lc_missing_files := lc_missing_files st1 + 1\<rparr>))
        else if fragment \<noteq> [] \<and> tt_lower tt (path_suffix target_path) = codes ''.md'' then
          (if (case map_of docs target_path of None \<Rightarrow> True | Some doc \<Rightarrow> fragment \<notin> pm_headings doc) then
             Inr (link_error
               \<lparr>ve_path = relative_source, ve_line = line_number, ve_kind = ''missing-anchor'',
                ve_message = codes ''linked anchor does not exist: '' @ target\<rparr> in_toc
               (st1\<lparr>lc_missing_anchors := lc_missing_anchors st1 + 1\<rparr>))
           else Inr st1)
        else Inr st1)))))"

definition link_targets :: "unicode \<Rightarrow> unicode list" where
  "link_targets line = map (match_group 1) (finditer link_pattern line)"

definition check_line ::
  "text_tables \<Rightarrow> file_system \<Rightarrow> path \<Rightarrow> documents \<Rightarrow> path \<Rightarrow> parsed_markdown \<Rightarrow> nat \<times> unicode \<Rightarrow>
     link_counts \<Rightarrow> exc + link_counts" where
  "check_line tt fs root docs source_path parsed numbered =
     foldR (check_link tt fs root docs source_path parsed (fst numbered)) (link_targets (snd numbered))"

definition check_document ::
  "text_tables \<Rightarrow> file_system \<Rightarrow> path \<Rightarrow> documents \<Rightarrow> path \<times> parsed_markdown \<Rightarrow> link_counts \<Rightarrow> exc + link_counts" where
  "check_document tt fs root docs doc =
     foldR (check_line tt fs root docs (fst doc) (snd doc)) (pm_active_lines (snd doc))"

definition no_links :: "validation_error list \<Rightarrow> link_counts" where
  "no_links errors = \<lparr>lc_relative_links = 0, lc_anchor_links = 0, lc_missing_files = 0, lc_missing_anchors = 0,
     lc_toc_errors = 0, lc_errors = errors\<rparr>"

definition validate_repository :: "text_tables \<Rightarrow> file_system \<Rightarrow> path \<Rightarrow> exc + validation_report" where
  "validate_repository tt fs given_root =
     bindR (fs_resolve fs given_root) (\<lambda>root.
     bindR (markdown_files tt fs root) (\<lambda>files.
     bindR (foldR (parse_file tt fs root) files []) (\<lambda>docs.
     bindR (foldR (check_document tt fs root docs) docs
              (no_links (concat (map (pm_duplicate_errors \<circ> snd) docs)))) (\<lambda>st.
     Inr \<lparr>vr_markdown_files = length files,
          vr_headings = sum_list (map (pm_heading_count \<circ> snd) docs),
          vr_relative_links = lc_relative_links st, vr_anchor_links = lc_anchor_links st,
          vr_missing_files = lc_missing_files st, vr_missing_anchors = lc_missing_anchors st,
          vr_duplicate_slugs = sum_list (map (length \<circ> pm_duplicate_errors \<circ> snd) docs),
          vr_toc_errors = lc_toc_errors st, vr_errors = lc_errors st\<rparr>))))"

section \<open>Output\<close>

definition error_line :: "validation_error \<Rightarrow> unicode" where
  "error_line e =
     as_posix (ve_path e) @ [58] @ codes (show_nat (ve_line e)) @ codes '': '' @ codes (ve_kind e) @ codes '': '' @
       ve_message e"

definition print_report :: "validation_report \<Rightarrow> unicode list" where
  "print_report report =
     map error_line (vr_errors report) @
     [codes ''Markdown files checked: '' @ codes (show_nat (vr_markdown_files report)),
      codes ''Headings checked: '' @ codes (show_nat (vr_headings report)),
      codes ''Relative links checked: '' @ codes (show_nat (vr_relative_links report)),
      codes ''Anchor links checked: '' @ codes (show_nat (vr_anchor_links report)),
      codes ''Missing files: '' @ codes (show_nat (vr_missing_files report)),
      codes ''Missing anchors: '' @ codes (show_nat (vr_missing_anchors report)),
      codes ''Duplicate heading slugs: '' @ codes (show_nat (vr_duplicate_slugs report)),
      codes ''TOC errors: '' @ codes (show_nat (vr_toc_errors report))]"

text \<open>The printed lines and the exit status for a root, the argument or the default.\<close>

definition validate_markdown_main ::
  "text_tables \<Rightarrow> file_system \<Rightarrow> path \<Rightarrow> path option \<Rightarrow> exc + unicode list \<times> nat" where
  "validate_markdown_main tt fs default_root argument =
     bindR (validate_repository tt fs (case argument of None \<Rightarrow> default_root | Some root \<Rightarrow> root)) (\<lambda>report.
     Inr (print_report report, if is_valid report then 0 else 1))"

end
