(* ===== verification/Markdown_Headings.thy ===== *)
theory Markdown_Headings
  imports Markdown
begin

text \<open>
  The headings of the Markdown validator: which lines the heading pattern accepts and what title it
  takes, how a code fence hides its lines, and the anchors a file offers.
\<close>

section \<open>Greedy runs\<close>

declare upt_Suc [simp del]

lemma greedy_split:
  assumes "m' \<in> set (outcomes (Greedy c lo hi) (passed, x, g))"
  shows "\<exists>u v. x = u @ v \<and> (\<forall>y \<in> set u. c y) \<and> m' = (rev u @ passed, v, g)"
proof -
  from assms obtain k where "k \<in> set [lo..<Suc (run_length c hi x)]" and m': "m' = advance k (passed, x, g)"
    by auto
  then have k: "k \<le> run_length c hi x" by simp
  have "k \<le> length (takeWhile c x)"
    using k by (auto simp: run_length_def Let_def split: option.splits)
  then have "take k x = take k (takeWhile c x)"
    by (metis append_take_drop_id take_append takeWhile_dropWhile_id diff_is_0_eq append_Nil2 take0)
  then have "\<forall>y \<in> set (take k x). c y" by (metis in_set_takeD set_takeWhileD)
  with m' show ?thesis by (intro exI [of _ "take k x"] exI [of _ "drop k x"]) (simp add: advance_def)
qed

text \<open>When the longest run succeeds, it is the one taken.\<close>

lemma greedy_outcomes_first:
  assumes "lo \<le> length (takeWhile c x)"
  shows "\<exists>ms. outcomes (Greedy c lo None) (passed, x, g) = (rev (takeWhile c x) @ passed, dropWhile c x, g) # ms"
proof -
  let ?n = "length (takeWhile c x)"
  have "rev [lo..<Suc ?n] = ?n # rev [lo..<?n]" using assms by (simp add: upt_Suc)
  moreover have "advance ?n (passed, x, g) = (rev (takeWhile c x) @ passed, dropWhile c x, g)"
    by (simp add: advance_def takeWhile_eq_take [symmetric] dropWhile_eq_drop [symmetric])
  ultimately show ?thesis by (simp add: run_length_def)
qed

lemma greedy_first:
  assumes "lo \<le> length (takeWhile c x)"
    and "first_outcome r (rev (takeWhile c x) @ passed, dropWhile c x, g) = Some m'"
  shows "first_outcome (Then (Greedy c lo None) r) (passed, x, g) = Some m'"
  using greedy_outcomes_first [OF assms(1), of passed g] assms(2) by (auto simp: first_outcome_Then)

lemma Then_None:
  assumes "\<And>u v. x = u @ v \<Longrightarrow> \<forall>y \<in> set u. c y \<Longrightarrow> first_outcome r (rev u @ passed, v, g) = None"
  shows "first_outcome (Then (Greedy c lo hi) r) (passed, x, g) = None"
  unfolding first_outcome_Then first_some_None
proof
  fix m' assume "m' \<in> set (outcomes (Greedy c lo hi) (passed, x, g))"
  then obtain u v where x: "x = u @ v" "\<forall>y \<in> set u. c y" and m': "m' = (rev u @ passed, v, g)"
    using greedy_split by meson
  show "first_outcome r m' = None" unfolding m' by (rule assms [OF x])
qed

section \<open>The end of a heading\<close>

definition closing :: "unicode \<Rightarrow> bool" where
  "closing x \<longleftrightarrow> (\<forall>c \<in> set (dropWhile (\<lambda>c. c = 35) (dropWhile white x)). white c)"

abbreviation closing_pattern :: regex where
  "closing_pattern \<equiv>
     Then (Greedy white 0 None) (Then (Greedy (\<lambda>c. c = 35) 0 None) (Then (Greedy white 0 None) Line_end))"

lemma white_hash [simp]: "\<not> white 35"
  by (simp add: white_def)

lemma closing_Nil [simp]: "closing []"
  by (simp add: closing_def)

lemma closing_parts:
  assumes "\<forall>c \<in> set u. white c" and "\<forall>c \<in> set h. c = 35" and "\<forall>c \<in> set v. white c"
  shows "closing (u @ h @ v)"
proof (cases h)
  case Nil
  then have "dropWhile white (u @ h @ v) = []" using assms by simp
  then show ?thesis by (simp only: closing_def) simp
next
  case (Cons y ys)
  then have "dropWhile white (u @ h @ v) = h @ v" using assms by (subst dropWhile_append2) auto
  moreover have "dropWhile (\<lambda>c. c = 35) (h @ v) = dropWhile (\<lambda>c. c = 35) v"
    using assms(2) by (subst dropWhile_append2) auto
  ultimately show ?thesis using assms(3) by (auto simp: closing_def dest: set_dropWhileD)
qed

lemma first_closing:
  assumes "10 \<notin> set x"
  shows "first_outcome closing_pattern (passed, x, g) = (if closing x then Some (rev x @ passed, [], g) else None)"
proof (cases "closing x")
  case True
  let ?a = "takeWhile white x" and ?x1 = "dropWhile white x"
  let ?b = "takeWhile (\<lambda>c. c = 35) ?x1" and ?x2 = "dropWhile (\<lambda>c. c = 35) ?x1"
  have white: "\<forall>c \<in> set ?x2. white c" using True by (simp add: closing_def)
  then have "takeWhile white ?x2 = ?x2 \<and> dropWhile white ?x2 = []" by simp
  moreover have "x = ?a @ ?b @ ?x2" by simp
  then have "rev x = rev ?x2 @ rev ?b @ rev ?a" by (metis rev_append append_assoc)
  ultimately show ?thesis
    using True by (intro greedy_first [THEN trans]) (auto intro!: greedy_first)
next
  case False
  have "first_outcome closing_pattern (passed, x, g) = None"
  proof (intro Then_None)
    fix u v u1 v1 u2 v2
    assume "x = u @ v" "\<forall>y \<in> set u. white y" "v = u1 @ v1" "\<forall>y \<in> set u1. y = 35" "v1 = u2 @ v2" "\<forall>y \<in> set u2. white y"
    then show "first_outcome Line_end (rev u2 @ rev u1 @ rev u @ passed, v2, g) = None"
      using False assms closing_parts [of u u1 u2] by auto
  qed
  then show ?thesis using False by simp
qed

section \<open>The title\<close>

fun title_from :: "unicode \<Rightarrow> unicode" where
  "title_from [] = []"
| "title_from (c # cs) = (if closing cs then [c] else c # title_from cs)"

lemma title_from_nonempty [simp]: "title_from x = [] \<longleftrightarrow> x = []"
  by (cases x) simp_all

lemma first_closing_prefix:
  assumes "x \<noteq> []"
  shows "first_some (\<lambda>k. if closing (drop k x) then Some (f (take k x)) else None) [1..<Suc (length x)] =
    Some (f (title_from x))"
  using assms
proof (induction x arbitrary: f)
  case (Cons c cs)
  have upt: "[1..<Suc (length (c # cs))] = 1 # map Suc [1..<Suc (length cs)]"
    by (simp add: upt_conv_Cons map_Suc_upt)
  show ?case
  proof (cases "closing cs")
    case True
    then show ?thesis unfolding upt by simp
  next
    case False
    then have "cs \<noteq> []" by auto
    from Cons.IH [OF this, of "\<lambda>t. f (c # t)"] False show ?thesis unfolding upt by (simp add: o_def cong: if_cong)
  qed
qed simp

lemma first_title:
  assumes "x \<noteq> []" and "10 \<notin> set x"
  shows "first_outcome (Then (Group i (Lazy (\<lambda>c. c \<noteq> 10) 1)) closing_pattern) (passed, x, g) =
    Some (rev x @ passed, [], (i, title_from x) # g)"
proof -
  have all: "takeWhile (\<lambda>c. c \<noteq> 10) x = x" using assms(2) by (auto intro: takeWhile_eq_all_conv [THEN iffD2])
  have stage: "first_outcome closing_pattern (capture i x (advance k (passed, x, g))) =
      (if closing (drop k x) then Some (rev x @ passed, [], (i, take k x) # g) else None)"
    if "k \<in> set [1..<Suc (length x)]" for k
  proof -
    have "10 \<notin> set (drop k x)" using assms(2) by (meson in_set_dropD)
    moreover have "rev (drop k x) @ rev (take k x) @ passed = rev x @ passed"
      by (metis append_assoc append_take_drop_id rev_append)
    ultimately show ?thesis using that by (simp add: advance_def capture_def first_closing min_def)
  qed
  have "first_outcome (Then (Group i (Lazy (\<lambda>c. c \<noteq> 10) 1)) closing_pattern) (passed, x, g) =
      first_some (\<lambda>k. first_outcome closing_pattern (capture i x (advance k (passed, x, g)))) [1..<Suc (length x)]"
    by (simp add: first_outcome_Then run_length_def all o_def)
  also have "\<dots> = first_some (\<lambda>k. if closing (drop k x) then Some (rev x @ passed, [], (i, take k x) # g) else None)
      [1..<Suc (length x)]"
    by (rule first_some_cong) (rule stage)
  finally show ?thesis using first_closing_prefix [OF assms(1), of "\<lambda>t. (rev x @ passed, [], (i, t) # g)"] by simp
qed

section \<open>Heading lines\<close>

text \<open>
  What a heading is, without backtracking: one to six number signs, white space, and a title, which is the
  shortest beginning of the rest after which only white space, number signs and white space follow. A line
  of number signs and white space alone has its last white space as title.
\<close>

definition heading_of :: "unicode \<Rightarrow> (nat \<times> unicode) option" where
  "heading_of line =
     (let level = length (takeWhile (\<lambda>c. c = 35) line);
          rest = drop level line in
      if 1 \<le> level \<and> level \<le> 6 \<and> 2 \<le> length rest \<and> white (hd rest)
      then Some (level, title_from (if \<forall>c \<in> set rest. white c then [last rest] else dropWhile white rest))
      else None)"

lemma first_after_space:
  assumes "10 \<notin> set x"
  shows "map_option (snd \<circ> snd) (first_outcome (Then (Greedy white 1 None)
      (Then (Group 2 (Lazy (\<lambda>c. c \<noteq> 10) 1)) closing_pattern)) (passed, x, g)) =
    (if 2 \<le> length x \<and> white (hd x)
     then Some ((2, title_from (if \<forall>c \<in> set x. white c then [last x] else dropWhile white x)) # g) else None)"
proof (cases "\<forall>c \<in> set x. white c")
  case False
  let ?w = "takeWhile white x" and ?d = "dropWhile white x"
  have d: "?d \<noteq> []" "10 \<notin> set ?d" using False assms by (auto dest: set_dropWhileD)
  show ?thesis
  proof (cases "white (hd x) \<and> x \<noteq> []")
    case True
    then have w: "1 \<le> length ?w" by (cases x) auto
    have "length x = length ?w + length ?d" by (metis length_append takeWhile_dropWhile_id)
    moreover have "0 < length ?d" using d(1) by simp
    ultimately have "2 \<le> length x" using w by linarith
    then show ?thesis using greedy_first [OF w first_title [OF d], of 2 passed g] True False by auto
  next
    case no: False
    have "run_length white None x = 0" using no by (cases x) (auto simp: run_length_def)
    then show ?thesis using no False by (auto simp: first_outcome_Then)
  qed
next
  case True
  show ?thesis
  proof (cases x rule: rev_cases)
    case Nil
    then show ?thesis by (simp add: first_outcome_Then run_length_def)
  next
    case (snoc y c)
    have run: "run_length white None x = Suc (length y)" using True snoc by (simp add: run_length_def)
    have none: "first_outcome (Then (Group 2 (Lazy (\<lambda>c. c \<noteq> 10) 1)) closing_pattern) (p, [], g) = None" for p
      by (simp add: first_outcome_Then run_length_def)
    show ?thesis
    proof (cases "y = []")
      case True
      then show ?thesis using run none snoc
        by (simp add: first_outcome_Then [of "Greedy white (Suc 0) None"] advance_def upt_Suc)
    next
      case False
      have c: "[c] \<noteq> []" "10 \<notin> set [c]" using assms snoc by auto
      have "rev [1..<Suc (Suc (length y))] = Suc (length y) # length y # rev [1..<length y]"
        using False by (simp add: upt_Suc Suc_le_eq)
      then have "first_outcome (Then (Greedy white 1 None)
          (Then (Group 2 (Lazy (\<lambda>c. c \<noteq> 10) 1)) closing_pattern)) (passed, x, g) =
          Some (rev [c] @ rev y @ passed, [], (2, title_from [c]) # g)"
        using run none first_title [OF c, of 2 "rev y @ passed" g] snoc
        by (simp add: first_outcome_Then [of "Greedy white (Suc 0) None"] advance_def)
      then show ?thesis using True snoc False by (cases y) simp_all
    qed
  qed
qed

lemma first_outcome_start: "first_outcome (Then Line_start r) ([], x, g) = first_outcome r ([], x, g)"
  by (simp add: first_outcome_Then split: option.splits)

lemma first_outcome_group:
  "first_outcome (Then (Group i (Greedy c lo hi)) r) m =
     first_some (\<lambda>k. first_outcome r (capture i (fst (snd m)) (advance k m)))
       (rev [lo..<Suc (run_length c hi (fst (snd m)))])"
  by (simp add: first_outcome_Then o_def)

lemma heading_match:
  assumes "10 \<notin> set line"
  shows "map_option (\<lambda>m. (length (match_group 1 m), match_group 2 m)) (re_match heading_pattern line) = heading_of line"
proof -
  let ?n = "length (takeWhile (\<lambda>c. c = 35) line)"
  let ?tail = "Then (Greedy white 1 None) (Then (Group 2 (Lazy (\<lambda>c. c \<noteq> 10) 1)) closing_pattern)"
  let ?at = "\<lambda>k. (rev (take k line), drop k line, [(1, take k line)])"
  have tail: "map_option (snd \<circ> snd) (first_outcome ?tail (?at k)) =
      (if 2 \<le> length (drop k line) \<and> white (hd (drop k line))
       then Some [(2, title_from (if \<forall>c \<in> set (drop k line). white c then [last (drop k line)]
         else dropWhile white (drop k line))), (1, take k line)] else None)" for k
    by (rule first_after_space) (meson assms in_set_dropD)
  have capture: "capture 1 line (advance k ([], line, [])) = ?at k" if "k \<le> length line" for k
    using that by (simp add: capture_def advance_def min_def)
  have n: "?n \<le> length line" by (rule length_takeWhile_le)
  have re: "re_match heading_pattern line =
      map_option (snd \<circ> snd) (first_some (\<lambda>k. first_outcome ?tail (?at k)) (rev [1..<Suc (min 6 ?n)]))"
    unfolding re_match_def heading_pattern_def seq.simps first_outcome_start first_outcome_group
    by (rule arg_cong [of _ _ "map_option (snd \<circ> snd)"])
      (simp only: fst_conv snd_conv run_length_def Let_def option.case, rule first_some_cong, rule arg_cong [OF capture],
       use n in auto)
  have none: "first_outcome ?tail (?at k) = None" if "k < ?n" for k
  proof -
    have "line ! k = 35"
      using nth_mem [OF that] takeWhile_nth [OF that] by (auto dest: set_takeWhileD)
    moreover have "k < length line" using that n by linarith
    ultimately have "drop k line = 35 # drop (Suc k) line" by (metis Cons_nth_drop_Suc)
    then show ?thesis using tail [of k] by simp
  qed
  show ?thesis
  proof (cases "1 \<le> ?n \<and> ?n \<le> 6")
    case True
    then have "min 6 ?n = ?n" by simp
    then have "rev [1..<Suc (min 6 ?n)] = ?n # rev [1..<?n]" using True by (simp add: upt_Suc)
    moreover have "first_some (\<lambda>k. first_outcome ?tail (?at k)) (rev [1..<?n]) = None"
      using none by (simp add: first_some_None)
    ultimately have "re_match heading_pattern line = map_option (snd \<circ> snd) (first_outcome ?tail (?at ?n))"
      unfolding re by (simp split: option.splits)
    then show ?thesis unfolding tail heading_of_def Let_def using True
      by (simp add: match_group_def takeWhile_eq_take [symmetric])
  next
    case False
    have less: "k < ?n" if "k \<in> set [1..<Suc (min 6 ?n)]" for k
      using that False by auto
    have "first_some (\<lambda>k. first_outcome ?tail (?at k)) (rev [1..<Suc (min 6 ?n)]) = None"
      unfolding first_some_None set_rev by (intro ballI none less)
    then have "re_match heading_pattern line = None" unfolding re by simp
    then show ?thesis using False by (auto simp: heading_of_def Let_def)
  qed
qed

text \<open>
  C40: The heading pattern means what its reading says. Matching it against a line, with all its backtracking,
  finds a heading exactly when the line starts with one to six number signs, then white space, then at
  least one more character; the level is the number of the signs and the title is the rest of the line
  without the white space around it and without a closing run of number signs.
\<close>

theorem heading_recognised:
  assumes "10 \<notin> set line"
  shows "map_option (\<lambda>m. (length (match_group 1 m), match_group 2 m)) (re_match heading_pattern line) = heading_of line"
  using assms by (rule heading_match)

section \<open>Code fences\<close>

lemma active_from_block:
  assumes "\<forall>l \<in> set body. line_marker l \<noteq> m"
  shows "active_from n (Some m) (body @ rest) = active_from (n + length body) (Some m) rest"
  using assms by (induction body arbitrary: n) (auto simp: Let_def)

text \<open>A fenced block is invisible, whatever is in it, up to the next line with its own marker.\<close>

lemma fenced_block_inactive:
  assumes "line_marker opening \<in> set fence_markers" and "\<forall>l \<in> set body. line_marker l \<noteq> line_marker opening"
    and "line_marker closing_line = line_marker opening"
  shows "active_from n None (opening # body @ closing_line # rest) = active_from (n + length body + 2) None rest"
  using assms by (simp add: Let_def active_from_block)

lemma active_from_nth:
  "(k, l) \<in> set (active_from n fence lines) \<Longrightarrow>
     n \<le> k \<and> k < n + length lines \<and> lines ! (k - n) = l \<and> line_marker l \<notin> set fence_markers"
proof (induction lines arbitrary: n fence)
  case (Cons x xs)
  from Cons.prems consider "k = n" "l = x" "line_marker x \<notin> set fence_markers"
    | fence' where "(k, l) \<in> set (active_from (Suc n) fence' xs)"
    by (auto simp: Let_def split: if_split_asm)
  then show ?case
  proof cases
    case 1
    then show ?thesis by simp
  next
    case 2
    note ih = Cons.IH [OF 2]
    then have "k - n = Suc (k - Suc n)" by linarith
    then show ?thesis using ih by simp
  qed
qed simp

section \<open>Anchors\<close>

definition line_title :: "nat \<times> unicode \<Rightarrow> unicode option" where
  "line_title numbered = map_option (match_group 2) (re_match heading_pattern (snd numbered))"

definition line_titles :: "(nat \<times> unicode) list \<Rightarrow> unicode list" where
  "line_titles lines = concat (map (\<lambda>l. case line_title l of None \<Rightarrow> [] | Some t \<Rightarrow> [t]) lines)"

definition anchors_inv :: "unicode list \<Rightarrow> heading_scan \<Rightarrow> bool" where
  "anchors_inv slugs st \<longleftrightarrow>
     hs_base_counts st = (\<lambda>s. if s \<in> set slugs then Some (count_list slugs s) else None) \<and>
     hs_heading_count st = length slugs \<and>
     length (hs_duplicate_errors st) + card (set slugs) = length slugs \<and>
     set slugs \<subseteq> hs_headings st \<and> (distinct slugs \<longrightarrow> hs_headings st = set slugs)"

lemma scan_heading_Inr:
  assumes "scan_heading tt p root n level title st = Inr st'"
  defines "s \<equiv> github_slug tt title"
  defines "occ \<equiv> case hs_base_counts st s of None \<Rightarrow> 0 | Some k \<Rightarrow> k"
  shows "hs_base_counts st' = (hs_base_counts st)(s \<mapsto> occ + 1)"
    "hs_headings st' = insert (numbered_slug s occ) (hs_headings st)"
    "hs_heading_count st' = hs_heading_count st + 1"
    "length (hs_duplicate_errors st') = length (hs_duplicate_errors st) + (if occ = 0 then 0 else 1)"
  using assms(1)
  by (auto simp: scan_heading_def Let_def bindR_eq_Inr s_def [symmetric] occ_def [symmetric] split: if_split_asm)

lemma scan_heading_anchors:
  assumes "scan_heading tt p root n level title st = Inr st'" and "anchors_inv slugs st"
  shows "anchors_inv (slugs @ [github_slug tt title]) st'"
proof -
  let ?s = "github_slug tt title"
  have inv: "hs_base_counts st = (\<lambda>s. if s \<in> set slugs then Some (count_list slugs s) else None)"
    "hs_heading_count st = length slugs" "length (hs_duplicate_errors st) + card (set slugs) = length slugs"
    "set slugs \<subseteq> hs_headings st" "distinct slugs \<longrightarrow> hs_headings st = set slugs"
    using assms(2) by (simp_all add: anchors_inv_def)
  note step = scan_heading_Inr [OF assms(1)]
  show ?thesis
  proof (cases "?s \<in> set slugs")
    case False
    then have "count_list slugs ?s = 0" by (simp add: count_list_0_iff)
    then show ?thesis using step inv False
      by (simp add: anchors_inv_def numbered_slug_def fun_eq_iff) blast
  next
    case True
    then have "count_list slugs ?s \<noteq> 0" by (simp add: count_list_0_iff)
    moreover have "insert ?s (set slugs) = set slugs" using True by blast
    ultimately show ?thesis using step inv True
      by (simp add: anchors_inv_def fun_eq_iff) blast
  qed
qed

lemma scan_line_anchors:
  assumes "scan_line tt p root l st = Inr st'" and "anchors_inv slugs st"
  shows "anchors_inv (slugs @ map (github_slug tt) (line_titles [l])) st'"
proof (cases "re_match heading_pattern (snd l)")
  case None
  then have "st' = st \<or> st' = st\<lparr>hs_toc_lines := insert (fst l) (hs_toc_lines st)\<rparr>"
    using assms(1) by (auto simp: scan_line_def split: prod.split_asm if_split_asm)
  then show ?thesis using assms(2) None by (auto simp: line_titles_def line_title_def anchors_inv_def)
next
  case (Some m)
  then show ?thesis using assms scan_heading_anchors
    by (simp add: scan_line_def line_titles_def line_title_def split: prod.split_asm)
qed

lemma scan_lines_anchors:
  assumes "foldR (scan_line tt p root) lines st = Inr st'" and "anchors_inv slugs st"
  shows "anchors_inv (slugs @ map (github_slug tt) (line_titles lines)) st'"
  using assms
proof (induction lines arbitrary: st slugs)
  case Nil
  then show ?case by (simp add: line_titles_def)
next
  case (Cons l lines)
  from Cons.prems(1) obtain st1 where st1: "scan_line tt p root l st = Inr st1" "foldR (scan_line tt p root) lines st1 = Inr st'"
    by (auto simp: bindR_eq_Inr)
  have "line_titles (l # lines) = line_titles [l] @ line_titles lines" by (simp add: line_titles_def)
  then show ?case using Cons.IH [OF st1(2) scan_line_anchors [OF st1(1) Cons.prems(2)]] by simp
qed

lemma parse_markdown_anchors:
  assumes "parse_markdown tt fs p root = Inr doc"
  defines "slugs \<equiv> map (github_slug tt) (line_titles (pm_active_lines doc))"
  shows "pm_heading_count doc = length slugs" "length (pm_duplicate_errors doc) + card (set slugs) = length slugs"
    "set slugs \<subseteq> pm_headings doc" "distinct slugs \<longrightarrow> pm_headings doc = set slugs"
    "pm_duplicate_errors doc = [] \<longleftrightarrow> distinct slugs"
proof -
  from assms(1) obtain lines st where fold: "foldR (scan_line tt p root) lines no_headings = Inr st"
    and doc: "pm_headings doc = hs_headings st" "pm_heading_count doc = hs_heading_count st"
      "pm_duplicate_errors doc = hs_duplicate_errors st" "pm_active_lines doc = lines"
    by (auto simp: parse_markdown_def bindR_eq_Inr)
  have "anchors_inv [] no_headings" by (simp add: anchors_inv_def no_headings_def)
  from scan_lines_anchors [OF fold this] have inv: "anchors_inv slugs st" by (simp add: slugs_def doc)
  then show "pm_heading_count doc = length slugs" "length (pm_duplicate_errors doc) + card (set slugs) = length slugs"
    "set slugs \<subseteq> pm_headings doc" "distinct slugs \<longrightarrow> pm_headings doc = set slugs"
    by (simp_all add: anchors_inv_def doc)
  then show "pm_duplicate_errors doc = [] \<longleftrightarrow> distinct slugs"
    using card_distinct [of slugs] distinct_card [of slugs] by fastforce
qed

text \<open>
  The anchors of a file. The headings counted are the heading lines outside code fences, each of them is an
  anchor under its slug, and the duplicate errors number exactly the headings beyond the first of each
  slug; a file without such an error has one anchor per heading, and no others.
\<close>

theorem file_anchors:
  assumes "parse_markdown tt fs p root = Inr doc"
  shows "let slugs = map (github_slug tt) (line_titles (pm_active_lines doc)) in
    pm_heading_count doc = length slugs \<and>
    length (pm_duplicate_errors doc) = length slugs - card (set slugs) \<and>
    set slugs \<subseteq> pm_headings doc \<and>
    (pm_duplicate_errors doc = [] \<longrightarrow> pm_headings doc = set slugs \<and> card (pm_headings doc) = pm_heading_count doc)"
  using parse_markdown_anchors [OF assms] by (auto simp: Let_def distinct_card)

end
