(* ===== verification/Markdown_Links.thy ===== *)
theory Markdown_Links
  imports Markdown_Headings
begin

text \<open>Which links the link pattern finds: one that is written in the usual way is found as it was written.\<close>

lemma first_one_of:
  "first_outcome (Then (one_of c) r) (passed, [], g) = None"
  "first_outcome (Then (one_of c) r) (passed, x # xs, g) = (if c x then first_outcome r (x # passed, xs, g) else None)"
  by (simp_all only: first_outcome_Then one_of_outcomes) (simp_all split: option.splits)

lemma first_one_of_last: "first_outcome (one_of c) (passed, x # xs, g) = (if c x then Some (x # passed, xs, g) else None)"
  by (simp only: first_outcome_def one_of_outcomes) simp

lemmas one_of_simps = first_one_of first_one_of [unfolded One_nat_def] first_one_of_last first_one_of_last [unfolded One_nat_def]

lemma first_not_after:
  "first_outcome (Then (Not_after c) r) (passed, x, g) =
     (if passed \<noteq> [] \<and> c (hd passed) then None else first_outcome r (passed, x, g))"
  by (simp add: first_outcome_Then split: option.splits)

text \<open>A greedy run up to a character outside its class.\<close>

lemma first_greedy_until:
  assumes "\<forall>y \<in> set u. c y" and "\<not> c z" and "1 \<le> length u"
    and "first_outcome r (rev u @ passed, z # v, g) = Some m'"
  shows "first_outcome (Then (Greedy c 1 None) r) (passed, u @ z # v, g) = Some m'"
proof -
  have "takeWhile c (u @ z # v) = u" "dropWhile c (u @ z # v) = z # v" using assms(1,2) by simp_all
  then show ?thesis using assms(3,4) by (intro greedy_first) simp_all
qed

lemma first_captured_until:
  assumes "\<forall>y \<in> set u. c y" and "\<not> c z" and "1 \<le> length u"
    and "first_outcome r (rev u @ passed, z # v, (i, u) # g) = Some m'"
  shows "first_outcome (Then (Group i (Greedy c 1 None)) r) (passed, u @ z # v, g) = Some m'"
proof -
  have tw: "takeWhile c (u @ z # v) = u" "dropWhile c (u @ z # v) = z # v" using assms(1,2) by simp_all
  obtain ms where "outcomes (Greedy c 1 None) (passed, u @ z # v, g) = (rev u @ passed, z # v, g) # ms"
    using greedy_outcomes_first [of 1 c "u @ z # v" passed g] assms(3) unfolding tw by blast
  then show ?thesis using assms(4) by (simp only: first_outcome_Then outcomes.simps) (simp add: capture_def)
qed

lemma skipped_optional:
  assumes "\<not> c z" and "first_outcome s (passed, z # v, g) = Some m'"
  shows "first_outcome (Then (Optional (Then (Greedy c 1 None) r)) s) (passed, z # v, g) = Some m'"
proof -
  have "outcomes (Greedy c 1 None) (passed, z # v, g) = []" using assms(1) by (simp add: run_length_def)
  then show ?thesis using assms(2) by (simp only: first_outcome_Then outcomes.simps) simp
qed

lemma first_link:
  assumes "label \<noteq> []" and "93 \<notin> set label" and "target \<noteq> []" and "\<forall>c \<in> set target. c \<noteq> 41 \<and> \<not> white c"
    and "passed \<noteq> [] \<longrightarrow> hd passed \<noteq> 33"
  shows "first_outcome link_pattern (passed, 91 # label @ [93, 40] @ target @ 41 # post, []) =
    Some (41 # rev target @ [40, 93] @ rev label @ 91 # passed, post, [(1, target)])"
proof -
  have label: "\<forall>y \<in> set label. y \<noteq> 93" "1 \<le> length label" using assms(1,2) by (auto simp: Suc_le_eq)
  have target: "1 \<le> length target" using assms(3) by (simp add: Suc_le_eq)
  have paren: "\<not> white 41" by (simp add: white_def)
  let ?closing = "the_char 41" and ?p = "rev target @ 40 # 93 # rev label @ 91 # passed"
  have "first_outcome ?closing (?p, 41 # post, [(1, target)]) = Some (41 # ?p, post, [(1, target)])"
    by (simp add: one_of_simps)
  then have "first_outcome (Then (Group 1 (Greedy (\<lambda>c. c \<noteq> 41 \<and> \<not> white c) 1 None))
      (Then (Optional (Then (Greedy white 1 None) link_title)) ?closing))
      (40 # 93 # rev label @ 91 # passed, target @ 41 # post, []) = Some (41 # ?p, post, [(1, target)])"
    by (intro first_captured_until skipped_optional paren) (use assms(4) target in auto)
  then have "first_outcome (Then (Greedy (\<lambda>c. c \<noteq> 93) 1 None) (Then (the_char 93) (Then (the_char 40)
      (Then (Group 1 (Greedy (\<lambda>c. c \<noteq> 41 \<and> \<not> white c) 1 None))
        (Then (Optional (Then (Greedy white 1 None) link_title)) ?closing)))))
      (91 # passed, label @ 93 # 40 # target @ 41 # post, []) = Some (41 # ?p, post, [(1, target)])"
    by (intro first_greedy_until) (use label in \<open>auto simp: one_of_simps\<close>)
  then show ?thesis using assms(5)
    by (cases passed) (simp_all add: link_pattern_def first_not_after one_of_simps)
qed

lemma scan_from_absent:
  assumes "\<And>c cs passed. c \<in> set s \<Longrightarrow> first_outcome r (passed, c # cs, []) = None"
  shows "scan_from r passed (s @ t) = map Inl s @ scan_from r (rev s @ passed) t"
  using assms by (induction s arbitrary: passed) simp_all

lemma first_absent:
  "c \<noteq> 91 \<Longrightarrow> first_outcome link_pattern (passed, c # cs, []) = None"
  "c \<noteq> 91 \<Longrightarrow> first_outcome inline_link_pattern (passed, c # cs, []) = None"
  "c \<noteq> 60 \<Longrightarrow> first_outcome html_tag_pattern (passed, c # cs, []) = None"
  "\<not> white c \<Longrightarrow> first_outcome (Greedy white 1 None) (passed, c # cs, []) = None"
  by (simp_all add: link_pattern_def inline_link_pattern_def html_tag_pattern_def first_not_after one_of_simps
      first_outcome_Greedy run_length_def)

lemma scan_link_prefix:
  "91 \<notin> set pre \<Longrightarrow> scan_from link_pattern passed (pre @ s) = map Inl pre @ scan_from link_pattern (rev pre @ passed) s"
  by (rule scan_from_absent, rule first_absent) blast

lemma scan_link_rest: "91 \<notin> set s \<Longrightarrow> scan_from link_pattern passed s = map Inl s"
  using scan_link_prefix [of s passed "[]"] by simp

lemma re_sub_absent:
  assumes "\<And>c cs passed. c \<in> set s \<Longrightarrow> first_outcome r (passed, c # cs, []) = None"
  shows "re_sub r new s = s"
  using scan_from_absent [of s r "[]" "[]", OF assms] by (simp add: re_sub_def o_def)

text \<open>A slug of a plain lower-case word is the word.\<close>

lemma github_slug_plain:
  assumes "tt_unescape tt word = word" and "tt_lower tt word = word"
    and "\<forall>c \<in> set word. tt_isalnum tt c \<and> \<not> white c \<and> c \<notin> {91, 60, 96, 42, 126}"
  shows "github_slug tt word = word"
proof -
  have "re_sub inline_link_pattern new word = word" for new
    by (rule re_sub_absent, rule first_absent(2)) (use assms(3) in blast)
  moreover have "re_sub html_tag_pattern new word = word" for new
    by (rule re_sub_absent, rule first_absent(3)) (use assms(3) in blast)
  moreover have "re_sub (Greedy white 1 None) new word = word" for new
    by (rule re_sub_absent, rule first_absent(4)) (use assms(3) in blast)
  moreover have keep: "dropWhile white s = s" if "\<forall>c \<in> set s. \<not> white c" for s
    using that by (cases s) simp_all
  have "dropWhile white word = word" "dropWhile white (rev word) = rev word"
    by (rule keep, use assms(3) in simp)+
  then have "strip_white word = word" by (simp add: strip_white_def strip_while_def)
  moreover have "filter (\<lambda>c. c \<noteq> 96 \<and> c \<noteq> 42 \<and> c \<noteq> 126) word = word"
    "filter (\<lambda>c. tt_isalnum tt c \<or> c = 32 \<or> c = 9 \<or> c = 45 \<or> c = 95) word = word"
    by (rule filter_True, use assms(3) in simp)+
  ultimately show ?thesis unfolding github_slug_def Let_def assms(1,2) by (simp only: assms(2))
qed

text \<open>
  C39: A written link is found. In a line in which the first opening bracket starts a link \<open>[label](target)\<close> that is
  no image, the first target collected is \<open>target\<close>, for every nonempty label without a closing bracket and
  every nonempty target without white space and without a closing parenthesis.
\<close>

theorem written_link_found:
  assumes "91 \<notin> set pre" and "pre = [] \<or> last pre \<noteq> 33" and "label \<noteq> []" and "93 \<notin> set label"
    and "target \<noteq> []" and "\<forall>c \<in> set target. c \<noteq> 41 \<and> \<not> white c"
  shows "\<exists>more. link_targets (pre @ codes ''['' @ label @ codes ''](''  @ target @ codes '')'' @ post) = target # more"
proof -
  let ?link = "91 # label @ [93, 40] @ target @ 41 # post"
  have "rev pre \<noteq> [] \<longrightarrow> hd (rev pre) \<noteq> 33" using assms(2) by (auto simp: hd_rev)
  note first = first_link [OF assms(3-6) this]
  have "scan_from link_pattern (rev pre) ?link =
      Inr [(1, target)] # scan_from link_pattern (41 # rev target @ [40, 93] @ rev label @ 91 # rev pre) post"
    using first by simp
  then have "finditer link_pattern (pre @ ?link) = [(1, target)] #
      concat (map (case_sum (\<lambda>_. []) (\<lambda>g. [g]))
        (scan_from link_pattern (41 # rev target @ [40, 93] @ rev label @ 91 # rev pre) post))"
    using scan_link_prefix [OF assms(1), of "[]" ?link]
    by (simp add: finditer_def o_def)
  moreover have "pre @ codes ''['' @ label @ codes ''](''  @ target @ codes '')'' @ post = pre @ ?link"
    by simp
  ultimately show ?thesis by (simp only: link_targets_def) (simp add: match_group_def)
qed

lemma link_targets_none: "91 \<notin> set s \<Longrightarrow> link_targets s = []"
  by (simp add: link_targets_def finditer_def scan_link_rest)

lemma single_link:
  assumes "label \<noteq> []" and "93 \<notin> set label" and "target \<noteq> []" and "\<forall>c \<in> set target. c \<noteq> 41 \<and> \<not> white c"
    and "91 \<notin> set post"
  shows "link_targets (91 # label @ [93, 40] @ target @ 41 # post) = [target]"
  using first_link [OF assms(1-4), of "[]" post] scan_link_rest [OF assms(5)]
  by (simp add: link_targets_def finditer_def match_group_def o_def)

end
