(* ===== verification/Markdown_Report.thy ===== *)
theory Markdown_Report
  imports Markdown_Links
begin

text \<open>
  The report of the Markdown validator against its meaning: it is valid exactly when no slug repeats in a
  file and every relative link outside code fences leads to an existing file and, where it names one, to
  a heading of it; and its counters agree with its errors.
\<close>

section \<open>Loops that collect\<close>

lemma foldR_appends:
  assumes "foldR f xs s = Inr s'"
    and "\<And>x s s'. x \<in> set xs \<Longrightarrow> f x s = Inr s' \<Longrightarrow> \<exists>es. get s' = get s @ es \<and> (es = [] \<longleftrightarrow> ok x)"
  shows "\<exists>es. get s' = get s @ es \<and> (es = [] \<longleftrightarrow> (\<forall>x \<in> set xs. ok x))"
  using assms
proof (induction xs arbitrary: s)
  case (Cons x xs)
  from Cons.prems(1) obtain s1 where s1: "f x s = Inr s1" "foldR f xs s1 = Inr s'" by (auto simp: bindR_eq_Inr)
  obtain es1 where es1: "get s1 = get s @ es1" "es1 = [] \<longleftrightarrow> ok x" using Cons.prems(2) s1(1) by force
  obtain es2 where es2: "get s' = get s1 @ es2" "es2 = [] \<longleftrightarrow> (\<forall>x \<in> set xs. ok x)"
    using Cons.IH [OF s1(2)] Cons.prems(2) by force
  show ?case using es1 es2 by (intro exI [of _ "es1 @ es2"]) simp
qed simp

lemma foldR_invariant:
  assumes "foldR f xs s = Inr s'" and "I s"
    and "\<And>x s s'. x \<in> set xs \<Longrightarrow> f x s = Inr s' \<Longrightarrow> I s \<Longrightarrow> I s'"
  shows "I s'"
  using assms
proof (induction xs arbitrary: s)
  case (Cons x xs)
  from Cons.prems(1) obtain s1 where s1: "f x s = Inr s1" "foldR f xs s1 = Inr s'" by (auto simp: bindR_eq_Inr)
  have "I s1" using Cons.prems(3) [of x s s1] s1(1) Cons.prems(2) by simp
  with s1(2) show ?case by (rule Cons.IH) (rule Cons.prems(3), simp_all)
qed simp

section \<open>One link\<close>

definition link_fragment :: "text_tables \<Rightarrow> unicode \<Rightarrow> unicode" where
  "link_fragment tt target = tt_lower tt (unquote (drop (length (takeWhile (\<lambda>c. c \<noteq> 35) target) + 1) target))"

definition link_path :: "file_system \<Rightarrow> path \<Rightarrow> unicode \<Rightarrow> exc + path" where
  "link_path fs source target =
     (let path_text = takeWhile (\<lambda>c. c \<noteq> 35) target in
      if path_text = [] then Inr source else fs_resolve fs (join_path (parent_path source) (unquote path_text)))"

definition offers_anchor :: "documents \<Rightarrow> path \<Rightarrow> unicode \<Rightarrow> bool" where
  "offers_anchor docs p fragment = (case map_of docs p of None \<Rightarrow> False | Some doc \<Rightarrow> fragment \<in> pm_headings doc)"

definition link_resolves :: "text_tables \<Rightarrow> file_system \<Rightarrow> documents \<Rightarrow> path \<Rightarrow> unicode \<Rightarrow> bool" where
  "link_resolves tt fs docs source target \<longleftrightarrow>
     is_external tt target = Inr True \<or>
     (case link_path fs source target of
        Inl _ \<Rightarrow> False
      | Inr p \<Rightarrow>
          fs_is_file fs p = Inr True \<and>
          (link_fragment tt target = [] \<or> tt_lower tt (path_suffix p) \<noteq> codes ''.md'' \<or>
           offers_anchor docs p (link_fragment tt target)))"

definition link_effect ::
  "text_tables \<Rightarrow> documents \<Rightarrow> parsed_markdown \<Rightarrow> nat \<Rightarrow> unicode \<Rightarrow> path \<Rightarrow> path \<Rightarrow> bool \<Rightarrow> link_counts \<Rightarrow> link_counts" where
  "link_effect tt docs parsed n target p rel is_file st =
     (let st1 = st\<lparr>lc_relative_links := lc_relative_links st + 1,
          lc_anchor_links := lc_anchor_links st + (if 35 \<in> set target then 1 else 0)\<rparr> in
      if \<not> is_file then
        link_error \<lparr>ve_path = rel, ve_line = n, ve_kind = ''missing-file'',
            ve_message = codes ''linked file does not exist: '' @ target\<rparr> (n \<in> pm_toc_lines parsed)
          (st1\<lparr>lc_missing_files := lc_missing_files st1 + 1\<rparr>)
      else if link_fragment tt target \<noteq> [] \<and> tt_lower tt (path_suffix p) = codes ''.md'' \<and>
          \<not> offers_anchor docs p (link_fragment tt target) then
        link_error \<lparr>ve_path = rel, ve_line = n, ve_kind = ''missing-anchor'',
            ve_message = codes ''linked anchor does not exist: '' @ target\<rparr> (n \<in> pm_toc_lines parsed)
          (st1\<lparr>lc_missing_anchors := lc_missing_anchors st1 + 1\<rparr>)
      else st1)"

lemma check_link_relative:
  assumes "is_external tt target = Inr False"
  shows "check_link tt fs root docs source parsed n target st =
    bindR (link_path fs source target) (\<lambda>p.
    bindR (relative_to source root) (\<lambda>rel.
    bindR (fs_is_file fs p) (\<lambda>is_file. Inr (link_effect tt docs parsed n target p rel is_file st))))"
proof -
  have offers: "(case map_of docs p of None \<Rightarrow> True | Some doc \<Rightarrow> f \<notin> pm_headings doc) = (\<not> offers_anchor docs p f)" for p f
    by (simp add: offers_anchor_def split: option.split)
  have effect: "(if \<not> is_file then Inr (link_error a b c)
      else if f \<noteq> [] \<and> md then (if \<not> q then Inr (link_error a' b c') else Inr s1) else Inr s1) =
    Inr (if \<not> is_file then link_error a b c else if f \<noteq> [] \<and> md \<and> \<not> q then link_error a' b c' else s1)"
    for is_file a b c f md q a' c' s1 by simp
  show ?thesis
    unfolding check_link_def assms bindR_simps if_False Let_def offers effect link_effect_def link_fragment_def
      link_path_def ..
qed

lemma check_link_Inr:
  assumes "check_link tt fs root docs source parsed n target st = Inr st'"
  obtains (external) "is_external tt target = Inr True" "st' = st"
  | (relative) p rel is_file where "is_external tt target = Inr False" "link_path fs source target = Inr p"
      "fs_is_file fs p = Inr is_file" "st' = link_effect tt docs parsed n target p rel is_file st"
proof (cases "is_external tt target")
  case (Inl e)
  then show ?thesis using assms by (simp add: check_link_def)
next
  case (Inr external)
  then show ?thesis
    using assms that by (cases external) (auto simp: check_link_relative bindR_eq_Inr, simp add: check_link_def)
qed

lemma check_link_appends:
  assumes "check_link tt fs root docs source parsed n target st = Inr st'"
  shows "\<exists>es. lc_errors st' = lc_errors st @ es \<and> (es = [] \<longleftrightarrow> link_resolves tt fs docs source target)"
  using assms
proof (cases rule: check_link_Inr)
  case external
  then show ?thesis by (simp add: link_resolves_def)
next
  case relative
  then show ?thesis by (simp add: link_resolves_def link_effect_def link_error_def Let_def)
qed

lemma check_line_appends:
  assumes "check_line tt fs root docs source parsed l st = Inr st'"
  shows "\<exists>es. lc_errors st' = lc_errors st @ es \<and>
    (es = [] \<longleftrightarrow> (\<forall>target \<in> set (link_targets (snd l)). link_resolves tt fs docs source target))"
  using assms unfolding check_line_def by (rule foldR_appends) (rule check_link_appends)

lemma check_document_appends:
  assumes "check_document tt fs root docs doc st = Inr st'"
  shows "\<exists>es. lc_errors st' = lc_errors st @ es \<and>
    (es = [] \<longleftrightarrow> (\<forall>l \<in> set (pm_active_lines (snd doc)). \<forall>target \<in> set (link_targets (snd l)).
       link_resolves tt fs docs (fst doc) target))"
  using assms unfolding check_document_def by (rule foldR_appends) (rule check_line_appends)

section \<open>Counters\<close>

abbreviation of_kind :: "string \<Rightarrow> validation_error list \<Rightarrow> nat" where
  "of_kind k es \<equiv> length (filter (\<lambda>e. ve_kind e = k) es)"

definition tallied :: "nat \<Rightarrow> link_counts \<Rightarrow> bool" where
  "tallied dups st \<longleftrightarrow>
     of_kind ''missing-file'' (lc_errors st) = lc_missing_files st \<and>
     of_kind ''missing-anchor'' (lc_errors st) = lc_missing_anchors st \<and>
     of_kind ''duplicate-slug'' (lc_errors st) = dups \<and>
     length (lc_errors st) = dups + lc_missing_files st + lc_missing_anchors st \<and>
     lc_toc_errors st \<le> lc_missing_files st + lc_missing_anchors st \<and>
     lc_missing_files st + lc_missing_anchors st \<le> lc_relative_links st \<and>
     lc_anchor_links st \<le> lc_relative_links st"

lemma tallied_facts:
  "tallied dups st \<Longrightarrow>
    of_kind ''missing-file'' (lc_errors st) = lc_missing_files st \<and>
    of_kind ''missing-anchor'' (lc_errors st) = lc_missing_anchors st \<and>
    of_kind ''duplicate-slug'' (lc_errors st) = dups \<and>
    lc_toc_errors st \<le> lc_missing_files st + lc_missing_anchors st \<and>
    lc_missing_files st + lc_missing_anchors st \<le> lc_relative_links st \<and>
    lc_anchor_links st \<le> lc_relative_links st \<and>
    (lc_errors st = [] \<longleftrightarrow> lc_missing_files st = 0 \<and> lc_missing_anchors st = 0 \<and> dups = 0)"
  by (auto simp: tallied_def)

lemma check_link_tallied:
  assumes "check_link tt fs root docs source parsed n target st = Inr st'" and "tallied dups st"
  shows "tallied dups st'"
  using assms(1)
proof (cases rule: check_link_Inr)
  case external
  then show ?thesis using assms(2) by simp
next
  case relative
  then show ?thesis using assms(2) by (simp add: tallied_def link_effect_def link_error_def Let_def)
qed

lemma check_document_tallied:
  assumes "check_document tt fs root docs doc st = Inr st'" and "tallied dups st"
  shows "tallied dups st'"
  using assms(1) [unfolded check_document_def] assms(2)
proof (rule foldR_invariant)
  fix l s s'
  assume "check_line tt fs root docs (fst doc) (snd doc) l s = Inr s'" and "tallied dups s"
  then show "tallied dups s'"
    unfolding check_line_def by (rule foldR_invariant) (rule check_link_tallied)
qed

section \<open>The documents\<close>

lemma scan_line_kinds:
  assumes "scan_line tt p root l st = Inr st'" and "\<forall>e \<in> set (hs_duplicate_errors st). ve_kind e = ''duplicate-slug''"
  shows "\<forall>e \<in> set (hs_duplicate_errors st'). ve_kind e = ''duplicate-slug''"
  using assms
  by (auto simp: scan_line_def scan_heading_def Let_def bindR_eq_Inr split: prod.split_asm option.split_asm if_split_asm)

lemma parse_markdown_kinds:
  assumes "parse_markdown tt fs p root = Inr doc"
  shows "\<forall>e \<in> set (pm_duplicate_errors doc). ve_kind e = ''duplicate-slug''"
proof -
  from assms obtain lines st where fold: "foldR (scan_line tt p root) lines no_headings = Inr st"
    and doc: "pm_duplicate_errors doc = hs_duplicate_errors st"
    by (auto simp: parse_markdown_def bindR_eq_Inr)
  show ?thesis unfolding doc
    by (rule foldR_invariant [OF fold]) (simp_all add: no_headings_def scan_line_kinds)
qed

definition unignored :: "path \<Rightarrow> path \<Rightarrow> bool" where
  "unignored root p \<longleftrightarrow> (\<forall>part \<in> set (drop (length root) p). part \<notin> set ignored_directories)"

lemma keep_unignored_Inr:
  "keep_unignored root ps = Inr kept \<Longrightarrow> kept = filter (unignored root) ps"
  by (induction ps arbitrary: kept) (auto simp: bindR_eq_Inr relative_to_Inr unignored_def)

lemma dict_set_keys: "fst ` set (dict_set k v kvs) = insert k (fst ` set kvs)"
  by (force simp: dict_set_def image_iff)

lemma dict_set_distinct: "distinct (map fst kvs) \<Longrightarrow> distinct (map fst (dict_set k v kvs))"
  by (auto simp: dict_set_def case_prod_beta o_def)

lemma dict_set_values: "(k', v') \<in> set (dict_set k v kvs) \<Longrightarrow> (k' = k \<and> v' = v) \<or> (k', v') \<in> set kvs"
  by (auto simp: dict_set_def split: if_split_asm)

definition documents_of :: "text_tables \<Rightarrow> file_system \<Rightarrow> path \<Rightarrow> path list \<Rightarrow> documents \<Rightarrow> bool" where
  "documents_of tt fs root files docs \<longleftrightarrow>
     fst ` set docs = {r. \<exists>p \<in> set files. fs_resolve fs p = Inr r} \<and> distinct (map fst docs) \<and>
     (\<forall>(r, doc) \<in> set docs. \<exists>p \<in> set files. fs_resolve fs p = Inr r \<and> parse_markdown tt fs p root = Inr doc)"

lemma parse_file_documents:
  assumes "parse_file tt fs root p docs = Inr docs'" and "documents_of tt fs root files docs"
  shows "documents_of tt fs root (files @ [p]) docs'"
proof -
  from assms(1) obtain r doc where "fs_resolve fs p = Inr r" "parse_markdown tt fs p root = Inr doc"
      "docs' = dict_set r doc docs"
    by (auto simp: parse_file_def bindR_eq_Inr)
  then show ?thesis using assms(2)
    by (auto simp: documents_of_def dict_set_keys dict_set_distinct dest!: dict_set_values)
qed

lemma parse_files_documents:
  assumes "foldR (parse_file tt fs root) files docs = Inr docs'" and "documents_of tt fs root before docs"
  shows "documents_of tt fs root (before @ files) docs'"
  using assms
proof (induction files arbitrary: before docs)
  case (Cons p files)
  from Cons.prems(1) obtain docs1 where d: "parse_file tt fs root p docs = Inr docs1"
      "foldR (parse_file tt fs root) files docs1 = Inr docs'"
    by (auto simp: bindR_eq_Inr)
  from Cons.IH [OF d(2) parse_file_documents [OF d(1) Cons.prems(2)]] show ?case by simp
qed simp

section \<open>The report\<close>

lemma validate_repository_Inr:
  assumes "validate_repository tt fs given_root = Inr report"
  obtains root files docs st where "fs_resolve fs given_root = Inr root"
    "set files = {p \<in> set (fs_rglob_md fs root). unignored root p}" "documents_of tt fs root files docs"
    "foldR (check_document tt fs root docs) docs (no_links (concat (map (pm_duplicate_errors \<circ> snd) docs))) = Inr st"
    "vr_errors report = lc_errors st" "vr_relative_links report = lc_relative_links st"
    "vr_anchor_links report = lc_anchor_links st" "vr_missing_files report = lc_missing_files st"
    "vr_missing_anchors report = lc_missing_anchors st" "vr_toc_errors report = lc_toc_errors st"
    "vr_duplicate_slugs report = length (concat (map (pm_duplicate_errors \<circ> snd) docs))"
proof -
  from assms obtain root files docs st where r: "fs_resolve fs given_root = Inr root"
      "markdown_files tt fs root = Inr files" "foldR (parse_file tt fs root) files [] = Inr docs"
      "foldR (check_document tt fs root docs) docs (no_links (concat (map (pm_duplicate_errors \<circ> snd) docs))) = Inr st"
    and report: "report = \<lparr>vr_markdown_files = length files,
          vr_headings = sum_list (map (pm_heading_count \<circ> snd) docs),
          vr_relative_links = lc_relative_links st, vr_anchor_links = lc_anchor_links st,
          vr_missing_files = lc_missing_files st, vr_missing_anchors = lc_missing_anchors st,
          vr_duplicate_slugs = sum_list (map (length \<circ> pm_duplicate_errors \<circ> snd) docs),
          vr_toc_errors = lc_toc_errors st, vr_errors = lc_errors st\<rparr>"
    by (auto simp: validate_repository_def bindR_eq_Inr)
  have "documents_of tt fs root [] []" by (simp add: documents_of_def)
  from parse_files_documents [OF r(3) this] have docs: "documents_of tt fs root files docs" by simp
  have files: "set files = {p \<in> set (fs_rglob_md fs root). unignored root p}"
    using r(2) by (auto simp: markdown_files_def bindR_eq_Inr dest!: keep_unignored_Inr)
  show ?thesis
    by (rule that [OF r(1) files docs r(4)]) (simp_all add: report length_concat o_def)
qed

text \<open>A valid report means sound documentation, and only that.\<close>

lemma report_validity:
  assumes "validate_repository tt fs given_root = Inr report"
  shows "\<exists>root docs. fs_resolve fs given_root = Inr root \<and>
    fst ` set docs = {r. \<exists>p \<in> set (fs_rglob_md fs root). unignored root p \<and> fs_resolve fs p = Inr r} \<and>
    distinct (map fst docs) \<and>
    (\<forall>(r, doc) \<in> set docs. \<exists>p. fs_resolve fs p = Inr r \<and> parse_markdown tt fs p root = Inr doc) \<and>
    (is_valid report \<longleftrightarrow>
      (\<forall>(source, doc) \<in> set docs.
         distinct (map (github_slug tt) (line_titles (pm_active_lines doc))) \<and>
         (\<forall>l \<in> set (pm_active_lines doc). \<forall>target \<in> set (link_targets (snd l)).
            link_resolves tt fs docs source target)))"
proof -
  obtain root files docs st where r: "fs_resolve fs given_root = Inr root"
    "set files = {p \<in> set (fs_rglob_md fs root). unignored root p}" "documents_of tt fs root files docs"
    "foldR (check_document tt fs root docs) docs (no_links (concat (map (pm_duplicate_errors \<circ> snd) docs))) = Inr st"
    "vr_errors report = lc_errors st"
    using assms by (rule validate_repository_Inr)
  let ?dups = "concat (map (pm_duplicate_errors \<circ> snd) docs)"
  have "\<exists>es. lc_errors st = lc_errors (no_links ?dups) @ es \<and>
      (es = [] \<longleftrightarrow> (\<forall>doc \<in> set docs. \<forall>l \<in> set (pm_active_lines (snd doc)).
         \<forall>target \<in> set (link_targets (snd l)). link_resolves tt fs docs (fst doc) target))"
    using r(4) by (rule foldR_appends) (rule check_document_appends)
  then obtain es where errors: "lc_errors st = ?dups @ es"
    and links: "es = [] \<longleftrightarrow> (\<forall>doc \<in> set docs. \<forall>l \<in> set (pm_active_lines (snd doc)).
         \<forall>target \<in> set (link_targets (snd l)). link_resolves tt fs docs (fst doc) target)"
    by (auto simp: no_links_def)
  have "pm_duplicate_errors doc = [] \<longleftrightarrow> distinct (map (github_slug tt) (line_titles (pm_active_lines doc)))"
    if "(source, doc) \<in> set docs" for source doc
    using r(3) that parse_markdown_anchors(5) by (fastforce simp: documents_of_def)
  then have dups: "?dups = [] \<longleftrightarrow>
      (\<forall>(source, doc) \<in> set docs. distinct (map (github_slug tt) (line_titles (pm_active_lines doc))))"
    by (auto simp: case_prod_beta)
  have "is_valid report \<longleftrightarrow>
      (\<forall>(source, doc) \<in> set docs.
         distinct (map (github_slug tt) (line_titles (pm_active_lines doc))) \<and>
         (\<forall>l \<in> set (pm_active_lines doc). \<forall>target \<in> set (link_targets (snd l)).
            link_resolves tt fs docs source target))"
    unfolding is_valid_def r(5) errors append_is_Nil_conv dups links
    by fastforce
  then show ?thesis
    using r(1,2,3) unfolding documents_of_def by (intro exI [of _ root] exI [of _ docs]) blast
qed

text \<open>
  C22: The exit code of the validator. When no exception ends the program, it exits with 0 exactly when the documentation is
  sound and with 1 otherwise, and it has printed the report: a line for each error, none exactly when it exits
  with 0, and the eight counters. The documents are the Markdown files under the root (the argument, or
  the default) outside the ignored directories, one per resolved path. They are sound when in every document
  no two headings share a slug and every link outside code fences is external or leads to an existing file
  which, if it is Markdown and the link names an anchor, is one of the documents and has a heading with that
  anchor.
\<close>

theorem markdown_validity:
  assumes "validate_markdown_main tt fs default_root argument = Inr (printed, code)"
  shows "code \<in> {0, 1} \<and>
    (\<exists>report. validate_repository tt fs (case argument of None \<Rightarrow> default_root | Some root \<Rightarrow> root) = Inr report \<and>
       printed = print_report report \<and> length printed = length (vr_errors report) + 8) \<and>
    (code = 0 \<longleftrightarrow> length printed = 8) \<and>
    (\<exists>root docs. fs_resolve fs (case argument of None \<Rightarrow> default_root | Some root \<Rightarrow> root) = Inr root \<and>
      fst ` set docs = {r. \<exists>p \<in> set (fs_rglob_md fs root). unignored root p \<and> fs_resolve fs p = Inr r} \<and>
      distinct (map fst docs) \<and>
      (\<forall>(r, doc) \<in> set docs. \<exists>p. fs_resolve fs p = Inr r \<and> parse_markdown tt fs p root = Inr doc) \<and>
      (code = 0 \<longleftrightarrow>
        (\<forall>(source, doc) \<in> set docs.
           distinct (map (github_slug tt) (line_titles (pm_active_lines doc))) \<and>
           (\<forall>l \<in> set (pm_active_lines doc). \<forall>target \<in> set (link_targets (snd l)).
              link_resolves tt fs docs source target))))"
proof -
  obtain report where report: "validate_repository tt fs (case argument of None \<Rightarrow> default_root | Some root \<Rightarrow> root) = Inr report"
    and printed: "printed = print_report report" and code: "code = (if is_valid report then 0 else 1)"
    using assms by (auto simp: validate_markdown_main_def bindR_eq_Inr)
  have "length printed = length (vr_errors report) + 8" by (simp add: printed print_report_def)
  moreover have "is_valid report \<longleftrightarrow> length (vr_errors report) = 0" by (simp add: is_valid_def)
  moreover have "code = 0 \<longleftrightarrow> is_valid report" "code \<in> {0, 1}" by (simp_all add: code)
  ultimately show ?thesis
    using report printed report_validity [OF report] by simp
qed

text \<open>
  The counters of a report agree with its errors. The errors of each kind are as many as its counter
  says and there are no others, the errors of a table of contents are among the missing files and
  anchors, and these among the relative links; so the report is valid exactly when its three counters of
  errors are zero.
\<close>

theorem markdown_counters:
  assumes "validate_repository tt fs given_root = Inr report"
  shows "of_kind ''missing-file'' (vr_errors report) = vr_missing_files report \<and>
    of_kind ''missing-anchor'' (vr_errors report) = vr_missing_anchors report \<and>
    of_kind ''duplicate-slug'' (vr_errors report) = vr_duplicate_slugs report \<and>
    vr_toc_errors report \<le> vr_missing_files report + vr_missing_anchors report \<and>
    vr_missing_files report + vr_missing_anchors report \<le> vr_relative_links report \<and>
    vr_anchor_links report \<le> vr_relative_links report \<and>
    (is_valid report \<longleftrightarrow>
       vr_missing_files report = 0 \<and> vr_missing_anchors report = 0 \<and> vr_duplicate_slugs report = 0)"
proof -
  obtain root files docs st where docs: "documents_of tt fs root files docs"
    and fold: "foldR (check_document tt fs root docs) docs
      (no_links (concat (map (pm_duplicate_errors \<circ> snd) docs))) = Inr st"
    and report: "vr_errors report = lc_errors st" "vr_relative_links report = lc_relative_links st"
    "vr_anchor_links report = lc_anchor_links st" "vr_missing_files report = lc_missing_files st"
    "vr_missing_anchors report = lc_missing_anchors st" "vr_toc_errors report = lc_toc_errors st"
    "vr_duplicate_slugs report = length (concat (map (pm_duplicate_errors \<circ> snd) docs))"
    using assms by (rule validate_repository_Inr)
  let ?dups = "concat (map (pm_duplicate_errors \<circ> snd) docs)"
  have "\<forall>e \<in> set ?dups. ve_kind e = ''duplicate-slug''"
    using docs parse_markdown_kinds by (fastforce simp: documents_of_def)
  then have kinds: "filter (\<lambda>e. ve_kind e = ''duplicate-slug'') ?dups = ?dups"
    "filter (\<lambda>e. ve_kind e = ''missing-file'') ?dups = []" "filter (\<lambda>e. ve_kind e = ''missing-anchor'') ?dups = []"
    by (auto simp: filter_id_conv filter_empty_conv)
  have "tallied (length ?dups) (no_links ?dups)"
    unfolding tallied_def no_links_def link_counts.simps kinds by simp
  with fold have "tallied (length ?dups) st" by (rule foldR_invariant) (rule check_document_tallied)
  then show ?thesis unfolding is_valid_def report by (rule tallied_facts)
qed

end
