(* ===== verification/Markdown_Witnesses.thy ===== *)
theory Markdown_Witnesses
  imports Markdown_Report
begin

text \<open>
  A small repository: a guide with a link to a heading of a second file and a fenced link to nowhere.
  Its report is computed from the lemmas on headings, slugs and links, and the properties of the
  validator are applied to it.
\<close>

section \<open>Sample files\<close>

definition sample_tables :: text_tables where
  "sample_tables =
     \<lparr>tt_unescape = (\<lambda>s. s), tt_lower = map (\<lambda>c. if 65 \<le> c \<and> c \<le> 90 then c + 32 else c),
      tt_isalnum = (\<lambda>c. url_letter c \<or> digit c), tt_bad_netloc = (\<lambda>_. False)\<rparr>"

definition sample_root :: path where
  "sample_root = [[47], [114]]"

definition guide_path :: path where
  "guide_path = [[47], [114], [97, 46, 109, 100]]"

definition page_path :: path where
  "page_path = [[47], [114], [98, 46, 109, 100]]"

text \<open>The heading and link of \<open>a.md\<close>, the heading of \<open>b.md\<close>.\<close>

definition guide_heading :: unicode where
  "guide_heading = [35, 32, 103, 117, 105, 100, 101]"

definition guide_link :: unicode where
  "guide_link = [91, 97, 93, 40, 98, 46, 109, 100, 35, 116, 111, 112, 41]"

definition page_heading :: unicode where
  "page_heading = [35, 32, 116, 111, 112]"

definition sample_files :: file_system where
  "sample_files =
     \<lparr>fs_rglob_md = (\<lambda>root. [page_path, guide_path, [[47], [114], [46, 118, 101, 110, 118], [97, 46, 109, 100]]]),
      fs_resolve = Inr,
      fs_read_bytes = (\<lambda>p.
        if p = guide_path
        then Inr (guide_heading @ [13, 10] @ guide_link @ [10, 96, 96, 96, 10, 91, 120, 93, 40, 121, 41, 10, 96, 96, 96, 10])
        else Inr (page_heading @ [10])),
      fs_is_file = (\<lambda>p. Inr (p = guide_path \<or> p = page_path))\<rparr>"

section \<open>Steps\<close>

lemma sample_active:
  "active_lines sample_files guide_path = Inr [(1, guide_heading), (2, guide_link)]"
  "active_lines sample_files page_path = Inr [(1, page_heading)]"
  by (simp_all add: active_lines_def read_text_def sample_files_def guide_heading_def guide_link_def page_heading_def
      guide_path_def page_path_def line_break_def line_marker_def fence_markers_def white_def Let_def)

lemma sample_headings:
  "heading_of guide_heading = Some (1, [103, 117, 105, 100, 101])"
  "heading_of page_heading = Some (1, [116, 111, 112])"
  "heading_of guide_link = None"
  by (simp_all add: heading_of_def guide_heading_def guide_link_def page_heading_def closing_def white_def)

lemma sample_slugs:
  "github_slug sample_tables [103, 117, 105, 100, 101] = [103, 117, 105, 100, 101]"
  "github_slug sample_tables [116, 111, 112] = [116, 111, 112]"
  by (rule github_slug_plain; simp add: sample_tables_def url_letter_def white_def)+

lemma sample_targets:
  "link_targets guide_link = [[98, 46, 109, 100, 35, 116, 111, 112]]"
  "link_targets guide_heading = []" "link_targets page_heading = []"
proof -
  show "link_targets guide_link = [[98, 46, 109, 100, 35, 116, 111, 112]]"
    using single_link [of "[97]" "[98, 46, 109, 100, 35, 116, 111, 112]" "[]"]
    by (simp add: guide_link_def white_def del: scan_from.simps)
qed (rule link_targets_none, simp add: guide_heading_def page_heading_def)+

lemma sample_matches:
  "\<exists>m. re_match heading_pattern guide_heading = Some m \<and> length (match_group 1 m) = 1 \<and>
     match_group 2 m = [103, 117, 105, 100, 101]"
  "\<exists>m. re_match heading_pattern page_heading = Some m \<and> length (match_group 1 m) = 1 \<and> match_group 2 m = [116, 111, 112]"
  "re_match heading_pattern guide_link = None"
  using heading_match [of guide_heading] heading_match [of page_heading] heading_match [of guide_link]
  unfolding sample_headings by (auto simp: guide_heading_def page_heading_def guide_link_def)

lemma sample_parsed:
  "\<exists>doc. parse_markdown sample_tables sample_files guide_path sample_root = Inr doc \<and>
     pm_headings doc = {[103, 117, 105, 100, 101]} \<and> pm_heading_count doc = 1 \<and> pm_duplicate_errors doc = [] \<and>
     pm_active_lines doc = [(1, guide_heading), (2, guide_link)]"
  "\<exists>doc. parse_markdown sample_tables sample_files page_path sample_root = Inr doc \<and>
     pm_headings doc = {[116, 111, 112]} \<and> pm_heading_count doc = 1 \<and> pm_duplicate_errors doc = [] \<and>
     pm_active_lines doc = [(1, page_heading)]"
  using sample_matches
  by (auto simp: parse_markdown_def sample_active scan_line_def scan_heading_def no_headings_def numbered_slug_def
      sample_slugs Let_def)

lemma sample_link:
  "link_resolves sample_tables sample_files docs guide_path [98, 46, 109, 100, 35, 116, 111, 112] =
     offers_anchor docs page_path [116, 111, 112]"
  "is_external sample_tables [98, 46, 109, 100, 35, 116, 111, 112] = Inr False"
  "link_path sample_files guide_path [98, 46, 109, 100, 35, 116, 111, 112] = Inr page_path"
  "link_fragment sample_tables [98, 46, 109, 100, 35, 116, 111, 112] = [116, 111, 112]"
proof -
  show *: "is_external sample_tables [98, 46, 109, 100, 35, 116, 111, 112] = Inr False"
    "link_path sample_files guide_path [98, 46, 109, 100, 35, 116, 111, 112] = Inr page_path"
    "link_fragment sample_tables [98, 46, 109, 100, 35, 116, 111, 112] = [116, 111, 112]"
    by code_simp+
  have is_file: "fs_is_file sample_files page_path = Inr True" by (simp add: sample_files_def)
  have "tt_lower sample_tables (path_suffix page_path) = codes ''.md''" by code_simp
  then show "link_resolves sample_tables sample_files docs guide_path [98, 46, 109, 100, 35, 116, 111, 112] =
      offers_anchor docs page_path [116, 111, 112]"
    by (simp add: link_resolves_def * is_file)
qed

lemma sample_markdown_files: "markdown_files sample_tables sample_files sample_root = Inr [guide_path, page_path]"
  by code_simp

lemma sample_report:
  "validate_repository sample_tables sample_files sample_root =
     Inr \<lparr>vr_markdown_files = 2, vr_headings = 2, vr_relative_links = 1, vr_anchor_links = 1, vr_missing_files = 0,
          vr_missing_anchors = 0, vr_duplicate_slugs = 0, vr_toc_errors = 0, vr_errors = []\<rparr>"
proof -
  obtain guide page where guide: "parse_markdown sample_tables sample_files guide_path sample_root = Inr guide"
      "pm_heading_count guide = 1" "pm_duplicate_errors guide = []"
      "pm_active_lines guide = [(1, guide_heading), (2, guide_link)]"
    and page: "parse_markdown sample_tables sample_files page_path sample_root = Inr page"
      "pm_headings page = {[116, 111, 112]}" "pm_heading_count page = 1" "pm_duplicate_errors page = []"
      "pm_active_lines page = [(1, page_heading)]"
    using sample_parsed by blast
  let ?docs = "[(guide_path, guide), (page_path, page)]"
  have resolve: "fs_resolve sample_files p = Inr p" for p by (simp add: sample_files_def)
  have differ: "page_path \<noteq> guide_path" by (simp add: page_path_def guide_path_def)
  have docs: "foldR (parse_file sample_tables sample_files sample_root) [guide_path, page_path] [] = Inr ?docs"
    using differ by (simp add: parse_file_def resolve guide(1) page(1) dict_set_def)
  have offers: "offers_anchor ?docs page_path [116, 111, 112]"
    using differ by (simp add: offers_anchor_def page(2))
  have "relative_to guide_path sample_root = Inr [[97, 46, 109, 100]]" "fs_is_file sample_files page_path = Inr True"
    by code_simp+
  then have link: "check_link sample_tables sample_files sample_root ?docs guide_path guide 2
      [98, 46, 109, 100, 35, 116, 111, 112] (no_links []) =
      Inr ((no_links [])\<lparr>lc_relative_links := 1, lc_anchor_links := 1\<rparr>)"
    using offers by (simp add: check_link_relative sample_link link_effect_def no_links_def)
  have "concat (map (pm_duplicate_errors \<circ> snd) ?docs) = []" by (simp add: guide(3) page(4))
  moreover have "foldR (check_document sample_tables sample_files sample_root ?docs) ?docs (no_links []) =
      Inr ((no_links [])\<lparr>lc_relative_links := 1, lc_anchor_links := 1\<rparr>)"
    by (simp add: check_document_def check_line_def guide(4) page(5) sample_targets link)
  ultimately show ?thesis
    unfolding validate_repository_def resolve sample_markdown_files bindR_simps docs
    by (simp add: guide(2,3) page(3,4) no_links_def)
qed

section \<open>Witnesses\<close>

theorem heading_recognised_witness:
  "map_option (\<lambda>m. (length (match_group 1 m), match_group 2 m))
     (re_match heading_pattern [35, 35, 32, 65, 32, 35, 35, 32]) = Some (2, [65])"
proof -
  have "heading_of [35, 35, 32, 65, 32, 35, 35, 32] = Some (2, [65])" by code_simp
  then show ?thesis using heading_recognised [of "[35, 35, 32, 65, 32, 35, 35, 32]"] by simp
qed

theorem file_anchors_witness:
  "\<exists>doc. parse_markdown sample_tables sample_files guide_path sample_root = Inr doc \<and>
     card (pm_headings doc) = pm_heading_count doc"
proof -
  obtain doc where "parse_markdown sample_tables sample_files guide_path sample_root = Inr doc"
      "pm_duplicate_errors doc = []"
    using sample_parsed(1) by blast
  then show ?thesis using file_anchors [of sample_tables sample_files guide_path sample_root doc] by (auto simp: Let_def)
qed

theorem written_link_found_witness:
  "\<exists>more. link_targets (codes ''See '' @ codes ''['' @ codes ''b'' @ codes '']('' @ codes ''b.md'' @ codes '')'' @ codes ''.'')
     = codes ''b.md'' # more"
  by (rule written_link_found) (simp_all add: white_def)

lemma ball_subset_pairs: "\<forall>(x, y) \<in> A. P x y \<and> Q x y \<Longrightarrow> \<forall>(x, y) \<in> A. Q x y"
  by fast

theorem markdown_validity_witness:
  "\<exists>printed docs. validate_markdown_main sample_tables sample_files page_path (Some sample_root) = Inr (printed, 0) \<and>
     length printed = 8 \<and> fst ` set docs = {guide_path, page_path} \<and>
     (\<forall>(source, doc) \<in> set docs. \<forall>l \<in> set (pm_active_lines doc). \<forall>target \<in> set (link_targets (snd l)).
        link_resolves sample_tables sample_files docs source target)"
proof -
  have root: "fs_resolve sample_files p = Inr r \<longleftrightarrow> r = p" for p r by (auto simp: sample_files_def)
  have listed: "{r. \<exists>p \<in> set (fs_rglob_md sample_files sample_root). unignored sample_root p \<and> r = p} =
      {guide_path, page_path}"
    by (auto simp: sample_files_def unignored_def sample_root_def guide_path_def page_path_def ignored_directories_def)
  obtain printed where main: "validate_markdown_main sample_tables sample_files page_path (Some sample_root) = Inr (printed, 0)"
    using sample_report by (simp add: validate_markdown_main_def is_valid_def)
  obtain r docs where r: "r = sample_root" and eight: "length printed = 8"
    and docs: "fst ` set docs = {r'. \<exists>p \<in> set (fs_rglob_md sample_files r). unignored r p \<and> r' = p}"
    and links: "\<forall>(source, doc) \<in> set docs.
         distinct (map (github_slug sample_tables) (line_titles (pm_active_lines doc))) \<and>
         (\<forall>l \<in> set (pm_active_lines doc). \<forall>target \<in> set (link_targets (snd l)).
            link_resolves sample_tables sample_files docs source target)"
    using markdown_validity [OF main] unfolding root option.simps simp_thms by blast
  have "fst ` set docs = {guide_path, page_path}" using docs unfolding r listed .
  moreover have "\<forall>(source, doc) \<in> set docs. \<forall>l \<in> set (pm_active_lines doc). \<forall>target \<in> set (link_targets (snd l)).
      link_resolves sample_tables sample_files docs source target"
    using links by (rule ball_subset_pairs)
  ultimately show ?thesis using main eight by blast
qed

theorem markdown_counters_witness:
  "\<exists>report. validate_repository sample_tables sample_files sample_root = Inr report \<and>
     vr_missing_files report + vr_missing_anchors report \<le> vr_relative_links report \<and> is_valid report"
  using markdown_counters [OF sample_report] sample_report by simp

end
