(* ===== verification/Spec2Isabelle.thy ===== *)
theory Spec2Isabelle
  imports Progress Api_Witnesses Process_Witnesses Application_Witnesses Markdown_Witnesses
begin

text \<open>
  The reliable webhook service (package \<open>src/src/reliable_webhook_service\<close>), its migrations
  (\<open>src/migrations\<close>) and the checker of its documentation (\<open>src/scripts/validate_markdown.py\<close>).

  The service stores webhook endpoints, events, delivery jobs and delivery attempts in PostgreSQL.
  A client posts an event, which is recorded together with one pending delivery job; a worker claims
  due jobs, posts each event's payload to its endpoint, records one attempt per request and settles
  the job by the retry policy; jobs whose worker died are recovered; finished events can be replayed.
  An HTTP API registers endpoints, accepts events, lists jobs page by page and reports the state of the
  queue; a process of its own runs the worker.

  Foundations.
  \<^item> \<open>Prelude\<close>, \<open>Py_Values\<close>: results that may raise, rows found by key, ordered selection; Python
    values (ints, bools, binary64 floats as exact multiples of \<open>2^-1074\<close>, aware and naive datetimes in
    microseconds) and the exceptions.
  \<^item> \<open>Py_Text\<close>, \<open>Py_Json\<close>, \<open>Py_Iso\<close>: texts as code points, UTF-8, base64, JSON and the ISO forms of
    datetimes and identifiers, as far as the cursor uses them.
  \<^item> \<open>Py_Regex\<close>, \<open>Py_Strings\<close>: regular expressions with the order in which a backtracking matcher tries its
    alternatives, and the text, URL and path functions of the checker.
  \<^item> \<open>Models\<close> (\<open>models.py\<close>): a record per table, the database as lists of rows, each constraint as a
    condition of the write it guards, \<open>schema_ok\<close> their conjunction.
  \<^item> \<open>Session\<close> (with \<open>get_session\<close> of \<open>database.py\<close> in \<open>Api\<close>), \<open>Session_Rules\<close>: the effects. A computation
    \<open>('w, 'a) io\<close> maps a world to a result or an exception and the new world. \<open>w_committed\<close>,
    \<open>w_working\<close> and \<open>w_savepoints\<close> are the views of the tables; before each statement the \<open>w_script\<close> lets
    other transactions commit, lock rows or fail the statement; \<open>w_trace\<close> records sessions and requests.
    Triples, \<open>keeps R I\<close> (an invariant of every view under interference bounded by \<open>R\<close>) and \<open>field_kept\<close>
    are the rules; \<open>job_invariant\<close>, \<open>table_invariant\<close> and \<open>store_invariant\<close> the contracts between tables and
    services, each extending the one before.
  \<^item> \<open>Schema\<close>: the constraints and the append-only history as interpretations of \<open>store_invariant\<close>.

  Services and worker, one theory per file of the package and one group of definitions per function.
  \<^item> \<open>Retry_Policy\<close> (\<open>retry_policy.py\<close>), \<open>Delivery_Http\<close> (\<open>delivery_http.py\<close>), \<open>Delivery_Service\<close>
    (\<open>delivery_service.py\<close>), \<open>Attempt_Numbering\<close>, \<open>Event_Service\<close> (\<open>event_service.py\<close>), \<open>Job_Batch\<close>,
    \<open>Job_Service\<close> (\<open>delivery_job_service.py\<close>), \<open>Recovery\<close> (\<open>delivery_job_recovery_service.py\<close>), \<open>Replay\<close>
    (\<open>replay_service.py\<close>), \<open>Job_Execution\<close> (\<open>delivery_job_execution_service.py\<close>), \<open>Processing\<close>
    (\<open>delivery_processing_service.py\<close>), \<open>Worker_Iteration\<close> and \<open>Worker_Loop\<close> (\<open>worker_iteration_service.py\<close>,
    \<open>worker_loop_service.py\<close>).
  \<^item> \<open>Config\<close> (\<open>config.py\<close>) and \<open>Worker_Process\<close> (\<open>worker.py\<close>): the settings with their validators, and the process:
    signal handlers, engine, HTTP client, exit code.
  \<^item> \<open>Lifecycle\<close>, \<open>Reachable\<close>, \<open>Progress\<close>: the delivery job as a state machine, the services as steps of a
    transition system on the tables, what holds of every reachable state, and that an unfinished job
    can be brought to success.

  The API.
  \<^item> \<open>Cursor\<close>, \<open>Keyset\<close>, \<open>Query_Service\<close> (\<open>delivery_job_query_service.py\<close>) and \<open>Operations\<close>
    (\<open>operations_service.py\<close>, \<open>operations_api.py\<close>): the cursor text from writer to reader, keyset
    pagination, the job list and the summary of the queue.
  \<^item> \<open>Api\<close>, \<open>Api_Errors\<close>, \<open>Api_Requests\<close> (\<open>api.py\<close>, \<open>schemas.py\<close>): the routes on a session, the exceptions that
    can leave them, and their results on every branch.
  \<^item> \<open>Responses\<close> (\<open>schemas.py\<close>): the response models. \<open>conforming\<close> is what the tables promise them, and every
    writing request and every iteration of the worker keeps it.
  \<^item> \<open>Application\<close>, \<open>Application_Requests\<close> (\<open>main.py\<close>, \<open>dependencies.py\<close>, the decorators of the routes): the
    lifespan, the dependencies, the table of routes and the answer to a request. The properties there go
    from a request to its answer: what the reading requests answer, that an accepted event can be followed,
    and that one open client serves every request and is closed at the end.

  Around the service.
  \<^item> \<open>Migrations\<close> (\<open>migrations/versions\<close>): the migrations as operations on table descriptions; their chain
    builds the tables of the models. \<open>Migration_Env\<close> (\<open>migrations/env.py\<close>): the URL of the settings through the
    interpolated configuration, and the offline and online runs.
  \<^item> \<open>Markdown\<close>: the checker of the documentation. \<open>Markdown_Headings\<close>, \<open>Markdown_Links\<close>, \<open>Markdown_Report\<close>: its patterns
    against what they are meant to recognise, and its verdict against a direct description of valid files.
  \<^item> \<open>Sample\<close> and the theories named \<open>Witnesses\<close>: concrete worlds, requests and files, and each property
    applied to them.

  Parameters of the model, for code outside the repository: clocks, identifiers, the transport, the
  shutdown event, the equality of JSONB values, the recursion limit of the JSON parser and the texts
  of datetimes and identifiers outside \<open>Py_Iso\<close> (all in \<open>env\<close>); the conversions of the settings library
  (\<open>coercions\<close>); stripping, URL parsing and identifier parsing of the validation library (\<open>framework\<close>), which
  is only assumed to leave a normalized URL as it is; the Unicode and HTML tables (\<open>text_tables\<close>), the file
  system (\<open>file_system\<close>), the migration tool and the driver (\<open>env_tool\<close>).

  Fuel and termination: the worker loop is a \<open>partial_function\<close> (it runs until the shutdown event),
  and \<open>worker_terminates\<close> shows that it returns once the event is set. Interpolation terminates by the depth
  the library allows and the length of the text; every other loop is structural or shortens its list.

  Not modelled: logging (and its configuration in \<open>migrations/env.py\<close>), the construction of the engine and the
  session factory in \<open>database.py\<close>, which only names objects of the library, the framework's own
  documentation routes and its redirection of trailing slashes, and the parsing of command-line
  arguments beyond the one root the checker takes.
\<close>

section \<open>Invariants of every service\<close>


text \<open>
  C33: The history is append-only. Starting from any tables \<open>d0\<close>, every service keeps each endpoint,
  each event and each delivery attempt of \<open>d0\<close> exactly as recorded, and each job's id, event and
  creation time, in every view and under any interference that does the same: no attempt is ever
  rewritten or lost, not even by a replay or a recovery.
\<close>

theorem services_keep_history:
  "keeps R (history_inv d0) (create_idempotent_webhook_event_with_delivery_job ep ty p key) \<and>
   keeps R (history_inv d0) (claim_due_webhook_delivery_jobs claimed_at limit) \<and>
   keeps R (history_inv d0) (recover_stale_webhook_delivery_jobs stale_before recovered_at limit) \<and>
   keeps R (history_inv d0) (replay_webhook_event i replayed_at) \<and>
   keeps R (history_inv d0) (execute_webhook_delivery httpx2_post_json i t) \<and>
   keeps R (history_inv d0) (execute_webhook_delivery_job httpx2_post_json t ma bd md i) \<and>
   keeps R (history_inv d0) (run_webhook_delivery_processing_cycle httpx2_post_json claimed_at limit t ma bd md) \<and>
   keeps R (history_inv d0) (run_webhook_worker_iteration httpx2_post_json at sb rl pl t ma bd md)"
  by (intro conjI history.keeps_create_idempotent history.keeps_claim history.keeps_recover history.keeps_replay
      history_delivery.keeps_delivery history_delivery.keeps_execute_job history_delivery.keeps_cycle
      history_delivery.keeps_iteration)

text \<open>
  A running worker keeps the attempts of every event numbered \<open>1..k\<close> without gaps, through any
  number of iterations and whatever happens around it, as long as other transactions keep it so and
  only add attempts.
\<close>

theorem worker_keeps_numbering:
  assumes "run_webhook_worker httpx2_post_json cfg w = Some (r, w')"
    and "world_inv attempts_grow contiguous w"
  shows "world_inv attempts_grow contiguous w'"
proof (cases "validate_worker_config cfg")
  case (Inl e)
  with assms show ?thesis by (simp add: run_webhook_worker_def)
next
  case (Inr u)
  with assms(1) have "worker_loop httpx2_post_json cfg no_totals w = Some (r, w')"
    by (simp add: run_webhook_worker_def)
  from numbering.loop_keeps [OF this assms(2)] show ?thesis by simp
qed

theorem worker_keeps_numbering_witness:
  "world_inv attempts_grow contiguous
     (snd (the (run_webhook_worker httpx2_post_json sample_config pending_world)))"
proof -
  obtain r w' where run: "run_webhook_worker httpx2_post_json sample_config pending_world = Some (r, w')"
    using worker_loop_stops [of pending_world 4 sample_config no_totals]
    by (cases "validate_worker_config sample_config") (auto simp: run_webhook_worker_def sample_env_def)
  show ?thesis using worker_keeps_numbering [OF run sample_numbered] run by simp
qed

end
